(* ===== verification/Prelude.thy ===== *)
theory Prelude
  imports Main "HOL-Library.Word" "HOL-Library.Finite_Map"
begin

text \<open>
  What every component of the development shares: the machine types of the Go source, Go's
  \<open>error\<close> values, the outcome of a call that may also panic, and the generic lemmas on
  lists, words and finite maps that the component theories rewrite with.

  A Go \<open>[]byte\<close> is a list of \<open>8 word\<close> and a Go \<open>string\<close> is a list of \<open>char\<close> (Isabelle's
  \<open>char\<close> is one byte, so \<open>length\<close> is Go's \<open>len\<close>). A nil slice and an empty one are the same
  list: the code below never tells them apart. Unsigned integers are words; Go's \<open>int\<close> is a
  mathematical integer, wrapped by \<open>i64\<close> wherever the source could overflow it.
\<close>

named_theorems go_defs \<open>definitions that execution proofs unfold\<close>
named_theorems codec_simps \<open>lengths and inverses of the byte codecs\<close>

section \<open>Machine types\<close>

type_synonym byte = "8 word"
type_synonym bytes = "8 word list"
type_synonym uint16 = "16 word"
type_synonym uint32 = "32 word"
type_synonym uint64 = "64 word"

definition MaxInt :: int where
  "MaxInt = 9223372036854775807"

definition MaxUint32 :: int where
  "MaxUint32 = 4294967295"

definition i64 :: "int \<Rightarrow> int" where
  "i64 x = (x + 9223372036854775808) mod 18446744073709551616 - 9223372036854775808"

lemma i64_id [simp]: "- 9223372036854775808 \<le> x \<Longrightarrow> x \<le> MaxInt \<Longrightarrow> i64 x = x"
  by (simp add: i64_def MaxInt_def)

lemma i64_range: "- 9223372036854775808 \<le> i64 x \<and> i64 x \<le> MaxInt"
proof -
  have "0 \<le> (x + 9223372036854775808) mod 18446744073709551616"
    and "(x + 9223372036854775808) mod 18446744073709551616 < 18446744073709551616"
    by simp_all
  then show ?thesis unfolding i64_def MaxInt_def by linarith
qed

text \<open>Go's integer division truncates towards zero.\<close>

definition go_quot :: "int \<Rightarrow> int \<Rightarrow> int" where
  "go_quot x y = sgn x * sgn y * (\<bar>x\<bar> div \<bar>y\<bar>)"

lemma go_quot_nonneg [simp]: "0 \<le> x \<Longrightarrow> 0 < y \<Longrightarrow> go_quot x y = x div y"
  by (auto simp: go_quot_def sgn_if)

section \<open>Errors, panics and outcomes\<close>

text \<open>
  A Go error is a sentinel value (\<open>errors.New\<close> at package level, and the sentinels of the
  standard library that the code tests for), a formatted message, or a message that wraps
  another error with \<open>%w\<close>. The numbers that a message interpolates are left out, except in
  the host callbacks, where the text goes back to the server.
\<close>

datatype sentinel =
    ErrInvalidFragment | ErrDuplicateFragment
  | ErrMessageTooShort
  | ErrPipelineInvalidState | ErrBufferFull
  | ErrPoolInvalidState | ErrAlreadyOpen | ErrNotOpen | ErrClosed | ErrBroken
  | ErrProtocolViolation
  | ErrUnsupportedType | ErrInvalidCLIXML | ErrMaxRecursionDepth
  | IoEOF | IoUnexpectedEOF | CtxCanceled | CtxDeadlineExceeded
  | NetTimeout | NetClosed

datatype gerr = EIs sentinel | EMsg string | EWrap string gerr

fun errors_is :: "gerr \<Rightarrow> sentinel \<Rightarrow> bool" where
  "errors_is (EIs t) s = (t = s)"
| "errors_is (EMsg m) s = False"
| "errors_is (EWrap m e) s = errors_is e s"

datatype panic =
    PanicDivide | PanicSliceBounds | PanicMakeCap | PanicSendOnClosed | PanicCloseClosed
  | PanicNil | PanicMessage

datatype 'a outcome = Ret 'a | Fail gerr | Panic panic

fun and_then :: "'a outcome \<Rightarrow> ('a \<Rightarrow> 'b outcome) \<Rightarrow> 'b outcome" where
  "and_then (Ret x) f = f x"
| "and_then (Fail e) f = Fail e"
| "and_then (Panic p) f = Panic p"

fun wrap_err :: "string \<Rightarrow> 'a outcome \<Rightarrow> 'a outcome" where
  "wrap_err m (Ret x) = Ret x"
| "wrap_err m (Fail e) = Fail (EWrap m e)"
| "wrap_err m (Panic p) = Panic p"

lemma and_then_eq_Ret:
  "and_then x f = Ret y \<longleftrightarrow> (\<exists>z. x = Ret z \<and> f z = Ret y)"
  by (cases x) auto

lemma wrap_err_eq_Ret [simp]: "wrap_err m x = Ret y \<longleftrightarrow> x = Ret y"
  by (cases x) auto

text \<open>
  Operations on a state that may fail: the state is returned on every path, as the code leaves
  it. \<open>then_do\<close> runs the next operation unless this one failed.
\<close>

definition ok :: "'s \<Rightarrow> 's \<times> unit outcome" where
  "ok s = (s, Ret ())"

fun then_do ::
  "'s \<times> unit outcome \<Rightarrow> ('s \<Rightarrow> 's \<times> 'a outcome) \<Rightarrow> 's \<times> 'a outcome" where
  "then_do (s, Ret _) f = f s"
| "then_do (s, Fail e) f = (s, Fail e)"
| "then_do (s, Panic p) f = (s, Panic p)"

definition wrap_st :: "string \<Rightarrow> 's \<times> 'a outcome \<Rightarrow> 's \<times> 'a outcome" where
  "wrap_st m r = (fst r, wrap_err m (snd r))"

text \<open>For evaluation: the continuation is looked at only after the operation before it.\<close>

lemma and_then_unfold [code_unfold]:
  "and_then r f = (case r of Ret x \<Rightarrow> f x | Fail e \<Rightarrow> Fail e | Panic p \<Rightarrow> Panic p)"
  by (cases r) simp_all

lemma then_do_unfold [code_unfold]:
  "then_do r f =
     (case r of (s, y) \<Rightarrow> case y of Ret x \<Rightarrow> f s | Fail e \<Rightarrow> (s, Fail e) | Panic p \<Rightarrow> (s, Panic p))"
  by (cases "(r, f)" rule: then_do.cases) auto

lemma then_do_cong [fundef_cong]:
  "r = r' \<Longrightarrow> (\<And>s u. r' = (s, Ret u) \<Longrightarrow> f s = g s) \<Longrightarrow> then_do r f = then_do r' g"
  by (cases r' rule: prod.exhaust, rename_tac s x, case_tac x) auto

lemma then_do_ok [simp]: "then_do (ok s) f = f s"
  by (simp add: ok_def)

lemma wrap_st_simps [simp]:
  "wrap_st m (s, Ret x) = (s, Ret x)"
  "wrap_st m (s, Fail e) = (s, Fail (EWrap m e))"
  "wrap_st m (s, Panic p) = (s, Panic p)"
  "wrap_st m (ok s') = ok s'"
  by (simp_all add: wrap_st_def ok_def)

lemma unat_lt_2p: "unat (v :: 'a::len word) < 2 ^ LENGTH('a)"
  by (rule unsigned_less)

lemma unat_byte_less [simp]: "unat (b :: byte) < 256"
  using unat_lt_2p [of b] by simp

section \<open>Bytes and characters\<close>

definition byte_of_char :: "char \<Rightarrow> byte" where
  "byte_of_char c = word_of_nat (of_char c)"

definition char_of_byte :: "byte \<Rightarrow> char" where
  "char_of_byte b = char_of (unat b)"

definition bytes_of_string :: "string \<Rightarrow> bytes" where
  "bytes_of_string s = map byte_of_char s"

definition string_of_bytes :: "bytes \<Rightarrow> string" where
  "string_of_bytes bs = map char_of_byte bs"

lemma of_char_less_256 [simp]: "(of_char c :: nat) < 256"
  by (cases c) (simp add: of_char_def)

lemma char_of_byte_of_char [simp]: "char_of_byte (byte_of_char c) = c"
  by (simp add: char_of_byte_def byte_of_char_def unat_of_nat)

lemma byte_of_char_of_byte [simp]: "byte_of_char (char_of_byte b) = b"
  by (simp add: char_of_byte_def byte_of_char_def)

lemma string_of_bytes_of_string [simp]: "string_of_bytes (bytes_of_string s) = s"
  by (simp add: string_of_bytes_def bytes_of_string_def comp_def)

lemma bytes_of_string_of_bytes [simp]: "bytes_of_string (string_of_bytes b) = b"
  by (simp add: string_of_bytes_def bytes_of_string_def comp_def)

lemma length_bytes_of_string [simp]: "length (bytes_of_string s) = length s"
  by (simp add: bytes_of_string_def)

lemma length_string_of_bytes [simp]: "length (string_of_bytes s) = length s"
  by (simp add: string_of_bytes_def)

lemma bytes_of_string_append [simp]:
  "bytes_of_string (s @ t) = bytes_of_string s @ bytes_of_string t"
  by (simp add: bytes_of_string_def)

lemma string_of_bytes_append [simp]:
  "string_of_bytes (s @ t) = string_of_bytes s @ string_of_bytes t"
  by (simp add: string_of_bytes_def)

section \<open>Slices\<close>

definition slice :: "'a list \<Rightarrow> nat \<Rightarrow> nat \<Rightarrow> 'a list" where
  "slice xs i j = take (j - i) (drop i xs)"

lemma length_slice [simp]: "length (slice xs i j) = min (j - i) (length xs - i)"
  by (simp add: slice_def min.commute)

lemma slice_append_left: "j \<le> length xs \<Longrightarrow> slice (xs @ ys) i j = slice xs i j"
  by (simp add: slice_def)

lemma slice_append_right:
  "length xs \<le> i \<Longrightarrow> slice (xs @ ys) i j = slice ys (i - length xs) (j - length xs)"
  by (simp add: slice_def)

lemma slice_all [simp]: "length xs \<le> j \<Longrightarrow> slice xs 0 j = xs"
  by (simp add: slice_def)

section \<open>Finite maps\<close>

definition fmsize :: "('k, 'v) fmap \<Rightarrow> nat" where
  "fmsize m = fcard (fmdom m)"

lemma fmsize_empty [simp]: "fmsize fmempty = 0"
  by (simp add: fmsize_def)

lemma fmsize_upd: "fmsize (fmupd k v m) = (if k |\<in>| fmdom m then fmsize m else Suc (fmsize m))"
  by (simp add: fmsize_def fcard_finsert_if finsert_absorb)

lemma fmsize_upd_new [simp]: "fmlookup m k = None \<Longrightarrow> fmsize (fmupd k v m) = Suc (fmsize m)"
  by (simp add: fmsize_upd fmlookup_dom_iff)

lemma fmsize_upd_old [simp]: "fmlookup m k = Some w \<Longrightarrow> fmsize (fmupd k v m) = fmsize m"
  by (simp add: fmsize_upd fmdomI)

lemma fmsize_drop_le: "fmsize (fmdrop k m) \<le> fmsize m"
  by (simp add: fmsize_def fcard_fminus1_le)

lemma fmsize_drop_less: "fmlookup m k = Some v \<Longrightarrow> fmsize (fmdrop k m) < fmsize m"
  unfolding fmsize_def fmdom_drop by (rule fcard_fminus1_less) (rule fmdomI)

lemma fmdrop_upd_same [simp]: "fmdrop k (fmupd k v m) = fmdrop k m"
  by (rule fmap_ext) simp

lemma fmdrop_fresh [simp]: "fmlookup m k = None \<Longrightarrow> fmdrop k m = m"
  by (rule fmap_ext) auto

end
