(* ===== verification/Go_Text.thy ===== *)
theory Go_Text
  imports Prelude
begin

text \<open>
  The standard library's decimal integers, which the CLIXML values, the host callbacks and two
  messages use: \<open>%d\<close> and \<open>strconv.FormatInt\<close> (\<open>itoa\<close>), \<open>strconv.ParseInt\<close> in base 10
  (\<open>ParseInt\<close>) and \<open>strconv.ParseUint\<close>, with the inverse law that the value codecs rest on.
\<close>

definition digit :: "nat \<Rightarrow> char" where
  "digit d = char_of (48 + d)"

definition digit_value :: "char \<Rightarrow> nat option" where
  "digit_value c =
     (if 48 \<le> (of_char c :: nat) \<and> (of_char c :: nat) \<le> 57 then Some (of_char c - 48) else None)"

fun nat_digits :: "nat \<Rightarrow> string" where
  "nat_digits n = (if n < 10 then [digit n] else nat_digits (n div 10) @ [digit (n mod 10)])"

declare nat_digits.simps [simp del]

definition itoa :: "int \<Rightarrow> string" where
  "itoa i = (if i < 0 then CHR ''-'' # nat_digits (nat (- i)) else nat_digits (nat i))"

fun digits_from :: "nat \<Rightarrow> string \<Rightarrow> nat option" where
  "digits_from a [] = Some a"
| "digits_from a (c # cs) =
     (case digit_value c of None \<Rightarrow> None | Some d \<Rightarrow> digits_from (a * 10 + d) cs)"

definition digits_value :: "string \<Rightarrow> nat option" where
  "digits_value s = (if s = [] then None else digits_from 0 s)"

text \<open>\<open>ParseInt s 10 bits\<close>: an optional sign, decimal digits, and the range of the type.\<close>

definition in_signed :: "nat \<Rightarrow> int \<Rightarrow> bool" where
  "in_signed bits i \<longleftrightarrow> - (2 ^ (bits - 1)) \<le> i \<and> i < 2 ^ (bits - 1)"

definition signed_text :: "string \<Rightarrow> int option" where
  "signed_text s =
     (case s of
        [] \<Rightarrow> None
      | c # cs \<Rightarrow>
          if c = CHR ''-'' then map_option (\<lambda>n. - int n) (digits_value cs)
          else if c = CHR ''+'' then map_option int (digits_value cs)
          else map_option int (digits_value s))"

definition ParseInt :: "nat \<Rightarrow> string \<Rightarrow> int option" where
  "ParseInt bits s =
     (case signed_text s of
        None \<Rightarrow> None
      | Some i \<Rightarrow> if in_signed bits i then Some i else None)"

definition ParseUint :: "nat \<Rightarrow> string \<Rightarrow> nat option" where
  "ParseUint bits s =
     (case digits_value s of
        None \<Rightarrow> None
      | Some n \<Rightarrow> if n < 2 ^ bits then Some n else None)"

section \<open>Printed numbers are read back\<close>

lemma of_char_digit [simp]: "d < 10 \<Longrightarrow> (of_char (digit d) :: nat) = 48 + d"
  by (simp add: digit_def)

lemma digit_value_digit [simp]: "d < 10 \<Longrightarrow> digit_value (digit d) = Some d"
  by (simp add: digit_value_def)

lemma digits_from_append:
  "digits_from a (xs @ ys) =
     (case digits_from a xs of None \<Rightarrow> None | Some b \<Rightarrow> digits_from b ys)"
  by (induction xs arbitrary: a) (auto split: option.splits)

lemma digits_from_nat_digits: "digits_from 0 (nat_digits n) = Some n"
proof (induction n rule: nat_digits.induct)
  case (1 n)
  then show ?case
    by (subst nat_digits.simps) (auto simp: digits_from_append)
qed

lemma nat_digits_not_Nil [simp]: "nat_digits n \<noteq> []"
  by (subst nat_digits.simps) auto

lemma digits_value_nat_digits [simp]: "digits_value (nat_digits n) = Some n"
  by (simp add: digits_value_def digits_from_nat_digits)

lemma set_nat_digits: "c \<in> set (nat_digits n) \<Longrightarrow> digit_value c \<noteq> None"
proof (induction n rule: nat_digits.induct)
  case (1 n)
  from 1(2) show ?case
    using 1(1) by (subst (asm) nat_digits.simps) (auto split: if_splits)
qed

lemma nat_digits_head: "nat_digits n = c # cs \<Longrightarrow> c \<noteq> CHR ''-'' \<and> c \<noteq> CHR ''+''"
  using set_nat_digits [of c n] by (auto simp: digit_value_def of_char_def)

lemma signed_text_itoa [simp]: "signed_text (itoa i) = Some i"
proof (cases "i < 0")
  case True
  then show ?thesis by (simp add: signed_text_def itoa_def)
next
  case False
  obtain c cs where "nat_digits (nat i) = c # cs"
    by (cases "nat_digits (nat i)") auto
  with False nat_digits_head [OF this] show ?thesis
    using digits_value_nat_digits [of "nat i"] by (simp add: signed_text_def itoa_def)
qed

lemma ParseInt_itoa [simp]: "in_signed bits i \<Longrightarrow> ParseInt bits (itoa i) = Some i"
  by (simp add: ParseInt_def)

lemma ParseInt_range: "ParseInt bits s = Some i \<Longrightarrow> in_signed bits i"
  by (auto simp: ParseInt_def split: option.splits if_splits)

lemma ParseUint_itoa [simp]: "n < 2 ^ bits \<Longrightarrow> ParseUint bits (nat_digits n) = Some n"
  by (simp add: ParseUint_def)

end
