(* ===== verification/Binary_Codec.thy ===== *)
theory Binary_Codec
  imports Prelude
begin

text \<open>
  The fixed-width integer encodings of Go's \<open>encoding/binary\<close> that the two header formats
  use: big-endian for fragment headers, little-endian for message headers. The interface
  \<open>fixed_codec\<close> states what a header field relies on (a fixed width, and two inverse laws);
  it is interpreted here for the integers and in theory \<open>Messages\<close> for the mixed-endian GUIDs.
\<close>

section \<open>The interface of a fixed-width field\<close>

locale fixed_codec =
  fixes enc :: "'a \<Rightarrow> bytes"
    and dec :: "bytes \<Rightarrow> 'a"
    and width :: nat
  assumes length_enc: "length (enc x) = width"
    and dec_enc: "dec (enc x) = x"
    and enc_dec: "length bs = width \<Longrightarrow> enc (dec bs) = bs"
begin

lemma enc_inject: "enc x = enc y \<longleftrightarrow> x = y"
  by (metis dec_enc)

lemma dec_inject: "length bs = width \<Longrightarrow> length cs = width \<Longrightarrow> dec bs = dec cs \<longleftrightarrow> bs = cs"
  by (metis enc_dec)

lemma dec_slice:
  assumes "length pre = i" and "j = i + width"
  shows "dec (slice (pre @ enc x @ post) i j) = x"
  using assms by (simp add: slice_def length_enc dec_enc)

lemma dec_slice_first: "j = width \<Longrightarrow> dec (slice (enc x @ post) 0 j) = x"
  using dec_slice [of "[]" 0 j x post] by simp

end

section \<open>Base-256 digits\<close>

fun be_put :: "nat \<Rightarrow> nat \<Rightarrow> bytes" where
  "be_put 0 x = []"
| "be_put (Suc n) x = be_put n (x div 256) @ [word_of_nat x]"

definition be_get :: "bytes \<Rightarrow> nat" where
  "be_get bs = foldl (\<lambda>a b. a * 256 + unat b) 0 bs"

lemma length_be_put [simp]: "length (be_put n x) = n"
  by (induction n arbitrary: x) auto

lemma be_get_snoc [simp]: "be_get (bs @ [b]) = be_get bs * 256 + unat b"
  by (simp add: be_get_def)

lemma be_get_put: "be_get (be_put n x) = x mod 256 ^ n"
proof (induction n arbitrary: x)
  case 0
  show ?case by (simp add: be_get_def)
next
  case (Suc n)
  have "be_get (be_put (Suc n) x) = (x div 256) mod 256 ^ n * 256 + x mod 256"
    by (simp add: Suc unat_of_nat)
  also have "\<dots> = x mod (256 * 256 ^ n)"
    by (simp add: mod_mult2_eq mult.commute)
  finally show ?case by simp
qed

lemma be_get_less: "be_get bs < 256 ^ length bs"
proof (induction bs rule: rev_induct)
  case Nil
  show ?case by (simp add: be_get_def)
next
  case (snoc b bs)
  have "unat b < 256" by simp
  moreover have "be_get bs * 256 + 256 \<le> 256 * 256 ^ length bs"
    using snoc by simp
  ultimately show ?case by (simp del: unat_byte_less)
qed

lemma be_put_get: "length bs = n \<Longrightarrow> be_put n (be_get bs) = bs"
proof (induction bs arbitrary: n rule: rev_induct)
  case Nil
  then show ?case by simp
next
  case (snoc b bs)
  have "unat (word_of_nat (be_get bs * 256 + unat b) :: byte) = unat b"
    unfolding unat_of_nat by simp
  then have "(word_of_nat (be_get bs * 256 + unat b) :: byte) = b"
    by (rule unsigned_word_eqI)
  with snoc show ?case by auto
qed

section \<open>encoding/binary\<close>

definition BigEndian_PutUint64 :: "uint64 \<Rightarrow> bytes" where
  "BigEndian_PutUint64 v = be_put 8 (unat v)"

definition BigEndian_Uint64 :: "bytes \<Rightarrow> uint64" where
  "BigEndian_Uint64 b = word_of_nat (be_get b)"

definition BigEndian_PutUint32 :: "uint32 \<Rightarrow> bytes" where
  "BigEndian_PutUint32 v = be_put 4 (unat v)"

definition BigEndian_Uint32 :: "bytes \<Rightarrow> uint32" where
  "BigEndian_Uint32 b = word_of_nat (be_get b)"

definition LittleEndian_PutUint32 :: "uint32 \<Rightarrow> bytes" where
  "LittleEndian_PutUint32 v = rev (be_put 4 (unat v))"

definition LittleEndian_Uint32 :: "bytes \<Rightarrow> uint32" where
  "LittleEndian_Uint32 b = word_of_nat (be_get (rev b))"

lemma unat_mod_64: "unat (v :: uint64) mod 18446744073709551616 = unat v"
  using unat_lt_2p [of v] by simp

lemma unat_mod_32: "unat (v :: uint32) mod 4294967296 = unat v"
  using unat_lt_2p [of v] by simp

lemma unat_be_get_64: "length b = 8 \<Longrightarrow> unat (word_of_nat (be_get b) :: uint64) = be_get b"
  using be_get_less [of b] by (simp add: unat_of_nat)

lemma unat_be_get_32: "length b = 4 \<Longrightarrow> unat (word_of_nat (be_get b) :: uint32) = be_get b"
  using be_get_less [of b] by (simp add: unat_of_nat)

interpretation be64: fixed_codec BigEndian_PutUint64 BigEndian_Uint64 8
  by unfold_locales
    (simp_all add: BigEndian_PutUint64_def BigEndian_Uint64_def be_get_put be_put_get
      unat_mod_64 unat_be_get_64)

interpretation be32: fixed_codec BigEndian_PutUint32 BigEndian_Uint32 4
  by unfold_locales
    (simp_all add: BigEndian_PutUint32_def BigEndian_Uint32_def be_get_put be_put_get
      unat_mod_32 unat_be_get_32)

interpretation le32: fixed_codec LittleEndian_PutUint32 LittleEndian_Uint32 4
  by unfold_locales
    (simp_all add: LittleEndian_PutUint32_def LittleEndian_Uint32_def be_get_put be_put_get
      unat_mod_32 unat_be_get_32)

lemmas codec_laws [codec_simps] =
  be64.length_enc be64.dec_enc be32.length_enc be32.dec_enc le32.length_enc le32.dec_enc

end
