(* ===== verification/Messages.thy ===== *)
theory Messages
  imports Go_Text Binary_Codec "HOL-Library.List_Lexorder"
begin

text \<open>
  PSRP messages (\<open>messages/messages.go\<close>, \<open>messages/signal.go\<close>): the 40 byte header, the
  mixed-endian GUIDs, \<open>Encode\<close> and \<open>Decode\<close>, and the constructors of the messages the client
  sends. The GUID codec is an instance of the interface \<open>fixed_codec\<close>, so the header fields
  of a message are read back by the same lemmas as those of a fragment.
\<close>

section \<open>Identifiers\<close>

text \<open>\<open>uuid.UUID\<close> is the Go array \<open>[16]byte\<close>; only its elements are used here.\<close>

datatype uuid = UUID byte byte byte byte byte byte byte byte byte byte byte byte byte byte byte byte

fun uuid_bytes :: "uuid \<Rightarrow> bytes" where
  "uuid_bytes (UUID a b c d e f g h i j k l m n p q) = [a, b, c, d, e, f, g, h, i, j, k, l, m, n, p, q]"

definition uuid_Nil :: uuid where
  "uuid_Nil = UUID 0 0 0 0 0 0 0 0 0 0 0 0 0 0 0 0"

lemma length_uuid_bytes [simp]: "length (uuid_bytes u) = 16"
  by (cases u) simp

lemma uuid_bytes_inject [simp]: "uuid_bytes u = uuid_bytes v \<longleftrightarrow> u = v"
  by (cases u; cases v) simp

text \<open>Identifiers are ordered by their bytes, so that a map keyed by them can be walked.\<close>

instantiation uuid :: linorder
begin

definition less_eq_uuid :: "uuid \<Rightarrow> uuid \<Rightarrow> bool" where
  "less_eq_uuid u v \<longleftrightarrow> map unat (uuid_bytes u) \<le> map unat (uuid_bytes v)"

definition less_uuid :: "uuid \<Rightarrow> uuid \<Rightarrow> bool" where
  "less_uuid u v \<longleftrightarrow> map unat (uuid_bytes u) < map unat (uuid_bytes v)"

instance
proof
  fix u v w :: uuid
  have inj: "map unat (uuid_bytes u) = map unat (uuid_bytes v) \<longleftrightarrow> u = v"
    by (cases u; cases v) (simp add: word_unat_eq_iff)
  show "u < v \<longleftrightarrow> u \<le> v \<and> \<not> v \<le> u"
    unfolding less_uuid_def less_eq_uuid_def by (rule less_le_not_le)
  show "u \<le> u" unfolding less_eq_uuid_def by simp
  show "u \<le> v \<Longrightarrow> v \<le> w \<Longrightarrow> u \<le> w" unfolding less_eq_uuid_def by (rule order.trans)
  show "u \<le> v \<Longrightarrow> v \<le> u \<Longrightarrow> u = v" unfolding less_eq_uuid_def using inj by (metis order.antisym)
  show "u \<le> v \<or> v \<le> u" unfolding less_eq_uuid_def by (rule linear)
qed

end

section \<open>Message types and destinations\<close>

definition DestinationClient :: uint32 where "DestinationClient = 1"
definition DestinationServer :: uint32 where "DestinationServer = 2"

definition MessageTypeSessionCapability :: uint32 where "MessageTypeSessionCapability = 0x00010002"
definition MessageTypeInitRunspacePool :: uint32 where "MessageTypeInitRunspacePool = 0x00010004"
definition MessageTypePublicKey :: uint32 where "MessageTypePublicKey = 0x00010005"
definition MessageTypeEncryptedSessionKey :: uint32 where "MessageTypeEncryptedSessionKey = 0x00010006"
definition MessageTypePublicKeyRequest :: uint32 where "MessageTypePublicKeyRequest = 0x00010007"
definition MessageTypeConnectRunspacePool :: uint32 where "MessageTypeConnectRunspacePool = 0x00010008"
definition MessageTypeRunspacePoolState :: uint32 where "MessageTypeRunspacePoolState = 0x00021005"
definition MessageTypeDisconnectRunspacePool :: uint32 where "MessageTypeDisconnectRunspacePool = 0x0001000c"
definition MessageTypeSetMaxRunspaces :: uint32 where "MessageTypeSetMaxRunspaces = 0x00021002"
definition MessageTypeSetMinRunspaces :: uint32 where "MessageTypeSetMinRunspaces = 0x00021003"
definition MessageTypeRunspaceAvailability :: uint32 where "MessageTypeRunspaceAvailability = 0x00021004"
definition MessageTypeGetAvailableRunspaces :: uint32 where "MessageTypeGetAvailableRunspaces = 0x00021007"
definition MessageTypeUserEvent :: uint32 where "MessageTypeUserEvent = 0x00021008"
definition MessageTypeApplicationPrivate :: uint32 where "MessageTypeApplicationPrivate = 0x00021009"
definition MessageTypeGetCommandMetadata :: uint32 where "MessageTypeGetCommandMetadata = 0x0002100a"
definition MessageTypeRunspacePoolInitData :: uint32 where "MessageTypeRunspacePoolInitData = 0x0002100b"
definition MessageTypeResetRunspaceState :: uint32 where "MessageTypeResetRunspaceState = 0x0002100c"
definition MessageTypeRunspaceHostCall :: uint32 where "MessageTypeRunspaceHostCall = 0x00021100"
definition MessageTypeRunspaceHostResponse :: uint32 where "MessageTypeRunspaceHostResponse = 0x00021101"
definition MessageTypeCreatePipeline :: uint32 where "MessageTypeCreatePipeline = 0x00021006"
definition MessageTypeSignal :: uint32 where "MessageTypeSignal = 0x00041001"
definition MessageTypePipelineInput :: uint32 where "MessageTypePipelineInput = 0x00041002"
definition MessageTypeEndOfPipelineInput :: uint32 where "MessageTypeEndOfPipelineInput = 0x00041003"
definition MessageTypePipelineOutput :: uint32 where "MessageTypePipelineOutput = 0x00041004"
definition MessageTypeErrorRecord :: uint32 where "MessageTypeErrorRecord = 0x00041005"
definition MessageTypePipelineState :: uint32 where "MessageTypePipelineState = 0x00041006"
definition MessageTypeDebugRecord :: uint32 where "MessageTypeDebugRecord = 0x00041007"
definition MessageTypeVerboseRecord :: uint32 where "MessageTypeVerboseRecord = 0x00041008"
definition MessageTypeWarningRecord :: uint32 where "MessageTypeWarningRecord = 0x00041009"
definition MessageTypeProgressRecord :: uint32 where "MessageTypeProgressRecord = 0x00041010"
definition MessageTypeInformationRecord :: uint32 where "MessageTypeInformationRecord = 0x00041011"
definition MessageTypePipelineHostCall :: uint32 where "MessageTypePipelineHostCall = 0x00041100"
definition MessageTypePipelineHostResponse :: uint32 where "MessageTypePipelineHostResponse = 0x00041101"

lemmas message_type_defs [go_defs] =
  DestinationClient_def DestinationServer_def
  MessageTypeSessionCapability_def MessageTypeInitRunspacePool_def
  MessageTypePublicKey_def MessageTypeEncryptedSessionKey_def
  MessageTypePublicKeyRequest_def MessageTypeConnectRunspacePool_def
  MessageTypeRunspacePoolState_def MessageTypeDisconnectRunspacePool_def
  MessageTypeSetMaxRunspaces_def MessageTypeSetMinRunspaces_def
  MessageTypeRunspaceAvailability_def MessageTypeGetAvailableRunspaces_def
  MessageTypeUserEvent_def MessageTypeApplicationPrivate_def
  MessageTypeGetCommandMetadata_def MessageTypeRunspacePoolInitData_def
  MessageTypeResetRunspaceState_def MessageTypeRunspaceHostCall_def
  MessageTypeRunspaceHostResponse_def MessageTypeCreatePipeline_def
  MessageTypeSignal_def MessageTypePipelineInput_def
  MessageTypeEndOfPipelineInput_def MessageTypePipelineOutput_def
  MessageTypeErrorRecord_def MessageTypePipelineState_def
  MessageTypeDebugRecord_def MessageTypeVerboseRecord_def
  MessageTypeWarningRecord_def MessageTypeProgressRecord_def
  MessageTypeInformationRecord_def MessageTypePipelineHostCall_def
  MessageTypePipelineHostResponse_def

definition Msg_HeaderSize :: nat where
  "Msg_HeaderSize = 40"

section \<open>The wire form\<close>

record message =
  Destination :: uint32
  MType :: uint32
  RunspaceID :: uuid
  PipelineID :: uuid
  MsgData :: bytes

definition uuidToLittleEndianBytes :: "uuid \<Rightarrow> bytes" where
  "uuidToLittleEndianBytes u =
     (let ub = uuid_bytes u in
      [ub ! 3, ub ! 2, ub ! 1, ub ! 0, ub ! 5, ub ! 4, ub ! 7, ub ! 6] @ drop 8 ub)"

definition uuidFromLittleEndianBytes :: "bytes \<Rightarrow> uuid outcome" where
  "uuidFromLittleEndianBytes b =
     (if length b \<noteq> 16 then Fail (EMsg ''invalid UUID bytes'')
      else Ret (UUID (b ! 3) (b ! 2) (b ! 1) (b ! 0) (b ! 5) (b ! 4) (b ! 7) (b ! 6)
                     (b ! 8) (b ! 9) (b ! 10) (b ! 11) (b ! 12) (b ! 13) (b ! 14) (b ! 15)))"

definition Message_Encode :: "message \<Rightarrow> bytes outcome" where
  "Message_Encode m =
     Ret (LittleEndian_PutUint32 (Destination m) @ LittleEndian_PutUint32 (MType m) @
          uuidToLittleEndianBytes (RunspaceID m) @ uuidToLittleEndianBytes (PipelineID m) @
          MsgData m)"

definition Message_Decode :: "bytes \<Rightarrow> message outcome" where
  "Message_Decode data =
     (if length data < Msg_HeaderSize then Fail (EWrap ''got fewer bytes'' (EIs ErrMessageTooShort))
      else and_then (wrap_err ''decode RPID'' (uuidFromLittleEndianBytes (slice data 8 24)))
        (\<lambda>rpid. and_then (wrap_err ''decode PID'' (uuidFromLittleEndianBytes (slice data 24 40)))
          (\<lambda>pid. Ret \<lparr>Destination = LittleEndian_Uint32 (slice data 0 4),
                      MType = LittleEndian_Uint32 (slice data 4 8),
                      RunspaceID = rpid, PipelineID = pid,
                      MsgData = drop Msg_HeaderSize data\<rparr>)))"

section \<open>Constructors\<close>

definition NewSessionCapability :: "uuid \<Rightarrow> bytes \<Rightarrow> message" where
  "NewSessionCapability rpid data =
     \<lparr>Destination = DestinationServer, MType = MessageTypeSessionCapability,
      RunspaceID = rpid, PipelineID = uuid_Nil, MsgData = data\<rparr>"

definition NewInitRunspacePool :: "uuid \<Rightarrow> bytes \<Rightarrow> message" where
  "NewInitRunspacePool rpid data =
     \<lparr>Destination = DestinationServer, MType = MessageTypeInitRunspacePool,
      RunspaceID = rpid, PipelineID = uuid_Nil, MsgData = data\<rparr>"

definition NewConnectRunspacePool :: "uuid \<Rightarrow> bytes \<Rightarrow> message" where
  "NewConnectRunspacePool rpid data =
     \<lparr>Destination = DestinationServer, MType = MessageTypeConnectRunspacePool,
      RunspaceID = rpid, PipelineID = uuid_Nil, MsgData = data\<rparr>"

definition NewRunspacePoolStateMessage :: "uuid \<Rightarrow> int \<Rightarrow> bytes \<Rightarrow> message" where
  "NewRunspacePoolStateMessage rpid st data =
     \<lparr>Destination = DestinationClient, MType = MessageTypeRunspacePoolState,
      RunspaceID = rpid, PipelineID = uuid_Nil, MsgData = data\<rparr>"

definition NewCreatePipeline :: "uuid \<Rightarrow> uuid \<Rightarrow> bytes \<Rightarrow> message" where
  "NewCreatePipeline rpid pid data =
     \<lparr>Destination = DestinationServer, MType = MessageTypeCreatePipeline,
      RunspaceID = rpid, PipelineID = pid, MsgData = data\<rparr>"

definition NewPipelineOutput :: "uuid \<Rightarrow> uuid \<Rightarrow> bytes \<Rightarrow> message" where
  "NewPipelineOutput rpid pid data =
     \<lparr>Destination = DestinationClient, MType = MessageTypePipelineOutput,
      RunspaceID = rpid, PipelineID = pid, MsgData = data\<rparr>"

definition NewGetCommandMetadata :: "uuid \<Rightarrow> bytes \<Rightarrow> message" where
  "NewGetCommandMetadata rpid data =
     \<lparr>Destination = DestinationServer, MType = MessageTypeGetCommandMetadata,
      RunspaceID = rpid, PipelineID = uuid_Nil, MsgData = data\<rparr>"

definition NewGetAvailableRunspaces :: "uuid \<Rightarrow> int \<Rightarrow> message" where
  "NewGetAvailableRunspaces rpid callID =
     \<lparr>Destination = DestinationServer, MType = MessageTypeGetAvailableRunspaces,
      RunspaceID = rpid, PipelineID = uuid_Nil, MsgData = bytes_of_string
       (''<Obj RefId=\"0\"><MS><I64 N=\"ci\">'' @ itoa callID @ ''</I64></MS></Obj>'')\<rparr>"

definition NewPipelineState :: "uuid \<Rightarrow> uuid \<Rightarrow> int \<Rightarrow> bytes \<Rightarrow> message" where
  "NewPipelineState rpid pid st data =
     \<lparr>Destination = DestinationClient, MType = MessageTypePipelineState,
      RunspaceID = rpid, PipelineID = pid, MsgData = data\<rparr>"

definition NewErrorRecord :: "uuid \<Rightarrow> uuid \<Rightarrow> bytes \<Rightarrow> message" where
  "NewErrorRecord rpid pid data =
     \<lparr>Destination = DestinationClient, MType = MessageTypeErrorRecord,
      RunspaceID = rpid, PipelineID = pid, MsgData = data\<rparr>"

definition NewPipelineInput :: "uuid \<Rightarrow> uuid \<Rightarrow> bytes \<Rightarrow> message" where
  "NewPipelineInput rpid pid data =
     \<lparr>Destination = DestinationServer, MType = MessageTypePipelineInput,
      RunspaceID = rpid, PipelineID = pid, MsgData = data\<rparr>"

definition NewEndOfPipelineInput :: "uuid \<Rightarrow> uuid \<Rightarrow> message" where
  "NewEndOfPipelineInput rpid pid =
     \<lparr>Destination = DestinationServer, MType = MessageTypeEndOfPipelineInput,
      RunspaceID = rpid, PipelineID = pid, MsgData = []\<rparr>"

definition NewRunspaceHostCall :: "uuid \<Rightarrow> bytes \<Rightarrow> message" where
  "NewRunspaceHostCall rpid data =
     \<lparr>Destination = DestinationClient, MType = MessageTypeRunspaceHostCall,
      RunspaceID = rpid, PipelineID = uuid_Nil, MsgData = data\<rparr>"

definition NewRunspaceHostResponse :: "uuid \<Rightarrow> bytes \<Rightarrow> message" where
  "NewRunspaceHostResponse rpid data =
     \<lparr>Destination = DestinationServer, MType = MessageTypeRunspaceHostResponse,
      RunspaceID = rpid, PipelineID = uuid_Nil, MsgData = data\<rparr>"

definition NewPipelineHostCall :: "uuid \<Rightarrow> uuid \<Rightarrow> bytes \<Rightarrow> message" where
  "NewPipelineHostCall rpid pid data =
     \<lparr>Destination = DestinationClient, MType = MessageTypePipelineHostCall,
      RunspaceID = rpid, PipelineID = pid, MsgData = data\<rparr>"

definition NewPipelineHostResponse :: "uuid \<Rightarrow> uuid \<Rightarrow> bytes \<Rightarrow> message" where
  "NewPipelineHostResponse rpid pid data =
     \<lparr>Destination = DestinationServer, MType = MessageTypePipelineHostResponse,
      RunspaceID = rpid, PipelineID = pid, MsgData = data\<rparr>"

definition NewSignal :: "uuid \<Rightarrow> uuid \<Rightarrow> message" where
  "NewSignal rpid pid =
     \<lparr>Destination = DestinationServer, MType = MessageTypeSignal,
      RunspaceID = rpid, PipelineID = pid, MsgData = []\<rparr>"

lemmas constructor_defs [go_defs] =
  NewSessionCapability_def NewInitRunspacePool_def
  NewConnectRunspacePool_def NewRunspacePoolStateMessage_def
  NewCreatePipeline_def NewPipelineOutput_def
  NewGetCommandMetadata_def NewGetAvailableRunspaces_def
  NewPipelineState_def NewErrorRecord_def
  NewPipelineInput_def NewEndOfPipelineInput_def
  NewRunspaceHostCall_def NewRunspaceHostResponse_def
  NewPipelineHostCall_def NewPipelineHostResponse_def
  NewSignal_def

section \<open>Lemmas\<close>

definition guid_of :: "bytes \<Rightarrow> uuid" where
  "guid_of b = (case uuidFromLittleEndianBytes b of Ret u \<Rightarrow> u | _ \<Rightarrow> uuid_Nil)"

lemma uuidFromLittleEndianBytes_eq:
  "length b = 16 \<Longrightarrow> uuidFromLittleEndianBytes b = Ret (guid_of b)"
  by (simp add: guid_of_def uuidFromLittleEndianBytes_def)

lemma list_16_cases:
  assumes "length bs = 16"
  obtains a b c d e f g h i j k l m n p q where "bs = [a, b, c, d, e, f, g, h, i, j, k, l, m, n, p, q]"
  using assms by (auto simp: numeral_eq_Suc length_Suc_conv)

interpretation guid: fixed_codec uuidToLittleEndianBytes guid_of 16
proof unfold_locales
  fix u :: uuid and bs :: bytes
  show "length (uuidToLittleEndianBytes u) = 16"
    by (cases u) (simp add: uuidToLittleEndianBytes_def)
  show "guid_of (uuidToLittleEndianBytes u) = u"
    by (cases u) (simp add: uuidToLittleEndianBytes_def guid_of_def uuidFromLittleEndianBytes_def)
  assume "length bs = 16"
  then show "uuidToLittleEndianBytes (guid_of bs) = bs"
    by (rule list_16_cases)
      (simp add: uuidToLittleEndianBytes_def guid_of_def uuidFromLittleEndianBytes_def)
qed

lemmas guid_laws [codec_simps] = guid.length_enc guid.dec_enc

definition Message_header :: "message \<Rightarrow> bytes" where
  "Message_header m =
     LittleEndian_PutUint32 (Destination m) @ LittleEndian_PutUint32 (MType m) @
     uuidToLittleEndianBytes (RunspaceID m) @ uuidToLittleEndianBytes (PipelineID m)"

lemma Message_Encode_eq: "Message_Encode m = Ret (Message_header m @ MsgData m)"
  by (simp add: Message_Encode_def Message_header_def)

lemma length_Message_header [simp]: "length (Message_header m) = 40"
  by (simp add: Message_header_def codec_simps)

lemma Message_Decode_Ret:
  assumes "40 \<le> length data"
  shows "Message_Decode data =
    Ret \<lparr>Destination = LittleEndian_Uint32 (slice data 0 4),
         MType = LittleEndian_Uint32 (slice data 4 8),
         RunspaceID = guid_of (slice data 8 24), PipelineID = guid_of (slice data 24 40),
         MsgData = drop 40 data\<rparr>"
  using assms
  by (simp add: Message_Decode_def Msg_HeaderSize_def uuidFromLittleEndianBytes_eq)

lemma message_fields:
  "LittleEndian_Uint32 (slice (Message_header m @ rest) 0 4) = Destination m"
  "LittleEndian_Uint32 (slice (Message_header m @ rest) 4 8) = MType m"
  "guid_of (slice (Message_header m @ rest) 8 24) = RunspaceID m"
  "guid_of (slice (Message_header m @ rest) 24 40) = PipelineID m"
  using
    le32.dec_slice_first [of 4 "Destination m"]
    le32.dec_slice [of "LittleEndian_PutUint32 (Destination m)" 4 8 "MType m"]
    guid.dec_slice
      [of "LittleEndian_PutUint32 (Destination m) @ LittleEndian_PutUint32 (MType m)"
        8 24 "RunspaceID m"]
    guid.dec_slice
      [of "LittleEndian_PutUint32 (Destination m) @ LittleEndian_PutUint32 (MType m) @
          uuidToLittleEndianBytes (RunspaceID m)" 24 40 "PipelineID m"]
  by (simp_all add: Message_header_def codec_simps)

lemma Message_Decode_Encode:
  "Message_Decode (Message_header m @ MsgData m) = Ret m"
  by (simp add: Message_Decode_Ret message_fields)

lemma append_slices:
  assumes "40 \<le> length data"
  shows "slice data 0 4 @ slice data 4 8 @ slice data 8 24 @ slice data 24 40 @ drop 40 data = data"
proof -
  have "slice data 24 40 @ drop 40 data = drop 24 data"
    using append_take_drop_id [of 16 "drop 24 data"] by (simp add: slice_def)
  moreover have "slice data 8 24 @ drop 24 data = drop 8 data"
    using append_take_drop_id [of 16 "drop 8 data"] by (simp add: slice_def)
  moreover have "slice data 4 8 @ drop 8 data = drop 4 data"
    using append_take_drop_id [of 4 "drop 4 data"] by (simp add: slice_def)
  moreover have "slice data 0 4 @ drop 4 data = data"
    by (simp add: slice_def)
  ultimately show ?thesis by simp
qed

section \<open>Properties\<close>

text \<open>
  C14. A PSRP message of any destination, type, identifiers and payload is read back exactly
  from its wire form, which is its payload after a 40 byte header.
\<close>

theorem message_roundtrip:
  "\<exists>bs. Message_Encode m = Ret bs \<and> length bs = 40 + length (MsgData m) \<and>
     Message_Decode bs = Ret m"
  by (simp add: Message_Encode_eq Message_Decode_Encode)

text \<open>
  \<open>Decode\<close> refuses exactly the inputs shorter than the header, with an error for which
  \<open>errors.Is(err, ErrMessageTooShort)\<close> holds, and loses nothing of the others: encoding its
  result gives the input back.
\<close>

theorem message_decode_complete:
  "(length data < 40 \<and> (\<exists>e. Message_Decode data = Fail e \<and> errors_is e ErrMessageTooShort)) \<or>
   (40 \<le> length data \<and> (\<exists>m. Message_Decode data = Ret m \<and> Message_Encode m = Ret data))"
proof (cases "length data < 40")
  case True
  then show ?thesis by (simp add: Message_Decode_def Msg_HeaderSize_def)
next
  case False
  then show ?thesis
    using append_slices [of data]
    by (simp add: Message_Decode_Ret Message_Encode_def le32.enc_dec guid.enc_dec)
qed

end
