(* ===== verification/Go_Io.thy ===== *)
theory Go_Io
  imports Messages
begin

text \<open>
  Reading and writing: Go's \<open>io.Reader\<close>, \<open>io.Writer\<close> and \<open>io.ReadFull\<close>, and the optional interfaces
  that the pool asks its transport for. A transport works on a state of type \<open>'w\<close> that this
  development does not look into. \<open>io.ReadFull\<close> may never return, because a reader may return no
  bytes and no error for ever: not returning is \<open>None\<close>.

  What its users rely on is the interface \<open>byte_reader\<close>: a reader that hands out a stream of bytes
  in chunks of its own choice.
\<close>

section \<open>Interfaces\<close>

text \<open>\<open>Read p\<close>: at most \<open>len(p)\<close> bytes, and an error or nil.\<close>

type_synonym 'w reader = "nat \<Rightarrow> 'w \<Rightarrow> 'w \<times> bytes \<times> gerr option"

record 'w mux =
  muxSendCommand :: "uuid \<Rightarrow> 'w \<Rightarrow> 'w \<times> unit outcome"
  muxSendPipelineData :: "uuid \<Rightarrow> bytes \<Rightarrow> 'w \<Rightarrow> 'w \<times> unit outcome"

text \<open>An \<open>io.ReadWriter\<close>, and whether it is also a closer or can multiplex.\<close>

record 'w readWriter =
  rwRead :: "'w reader"
  rwWrite :: "bytes \<Rightarrow> 'w \<Rightarrow> 'w \<times> unit outcome"
  rwClose :: "('w \<Rightarrow> 'w \<times> unit outcome) option"
  rwMux :: "'w mux option"

section \<open>Operations that return a value, and operations that may not return\<close>

fun bind_st :: "'s \<times> 'a outcome \<Rightarrow> ('a \<Rightarrow> 's \<Rightarrow> 's \<times> 'b outcome) \<Rightarrow> 's \<times> 'b outcome" where
  "bind_st (s, Ret x) f = f x s"
| "bind_st (s, Fail e) f = (s, Fail e)"
| "bind_st (s, Panic p) f = (s, Panic p)"

lemma bind_st_unfold [code_unfold]:
  "bind_st r f = (case r of (s, y) \<Rightarrow>
     case y of Ret x \<Rightarrow> f x s | Fail e \<Rightarrow> (s, Fail e) | Panic p \<Rightarrow> (s, Panic p))"
  by (cases "(r, f)" rule: bind_st.cases) auto

lemma bind_st_Ret: "bind_st r f = (s, Ret y) \<longleftrightarrow> (\<exists>t x. r = (t, Ret x) \<and> f x t = (s, Ret y))"
  by (cases "(r, f)" rule: bind_st.cases) auto

definition and_run ::
  "('s \<times> 'a outcome) option \<Rightarrow> ('a \<Rightarrow> 's \<Rightarrow> ('s \<times> 'b outcome) option) \<Rightarrow>
    ('s \<times> 'b outcome) option" where
  "and_run r f =
     (case r of
        None \<Rightarrow> None
      | Some (s, Ret x) \<Rightarrow> f x s
      | Some (s, Fail e) \<Rightarrow> Some (s, Fail e)
      | Some (s, Panic p) \<Rightarrow> Some (s, Panic p))"

lemma and_run_simps [simp]:
  "and_run None f = None" "and_run (Some (s, Ret x)) f = f x s"
  "and_run (Some (s, Fail e)) f = Some (s, Fail e)" "and_run (Some (s, Panic p)) f = Some (s, Panic p)"
  by (simp_all add: and_run_def)

section \<open>ReadFull\<close>

partial_function (option) ReadFull ::
  "'w reader \<Rightarrow> nat \<Rightarrow> bytes \<Rightarrow> 'w \<Rightarrow> ('w \<times> bytes outcome) option" where
  "ReadFull rd n got w =
     (if n \<le> length got then Some (w, Ret got)
      else case rd (n - length got) w of
        (w1, bs, err) \<Rightarrow>
          if n \<le> length (got @ bs) then Some (w1, Ret (got @ bs))
          else (case err of
              None \<Rightarrow> ReadFull rd n (got @ bs) w1
            | Some e \<Rightarrow>
                Some (w1, Fail (if e = EIs IoEOF \<and> got @ bs \<noteq> [] then EIs IoUnexpectedEOF else e))))"

text \<open>
  A reader that holds the bytes \<open>remaining\<close>: as long as there are any it returns a prefix of them
  without an error, of no more bytes than asked for, and it does not return an empty prefix for ever.
\<close>

locale byte_reader =
  fixes rd :: "'w reader" and remaining :: "'w \<Rightarrow> bytes" and stall :: "'w \<Rightarrow> nat"
    and alive :: "'w \<Rightarrow> bool"
  assumes read_prefix:
    "alive w \<Longrightarrow> remaining w \<noteq> [] \<Longrightarrow> 0 < n \<Longrightarrow> rd n w = (w1, bs, err) \<Longrightarrow>
       err = None \<and> bs @ remaining w1 = remaining w \<and> length bs \<le> n \<and> alive w1 \<and>
       (bs = [] \<longrightarrow> stall w1 < stall w)"
begin

text \<open>\<open>ReadFull\<close> takes exactly the first bytes, however they are cut into chunks.\<close>

lemma ReadFull_prefix:
  assumes "alive w" and "length got \<le> n" and "n \<le> length got + length (remaining w)"
  shows "\<exists>w1. ReadFull rd n got w = Some (w1, Ret (got @ take (n - length got) (remaining w))) \<and>
    remaining w1 = drop (n - length got) (remaining w) \<and> alive w1"
  using assms
proof (induction "(n - length got, stall w)" arbitrary: got w rule: wf_induct_rule
    [OF wf_lex_prod [OF wf_less_than wf_less_than]])
  case 1
  note IH = this(1) and prems = this(2-)
  show ?case
  proof (cases "n \<le> length got")
    case True
    with prems show ?thesis by (subst ReadFull.simps) simp
  next
    case False
    obtain w1 bs err where rd: "rd (n - length got) w = (w1, bs, err)"
      by (cases "rd (n - length got) w")
    from prems False have "remaining w \<noteq> []" by auto
    from read_prefix [OF prems(1) this _ rd] False
    have c: "err = None" "bs @ remaining w1 = remaining w" "length bs \<le> n - length got" "alive w1"
      "bs = [] \<longrightarrow> stall w1 < stall w"
      by auto
    have cut: "take (n - length got) (remaining w) = bs @ take (n - length (got @ bs)) (remaining w1)"
      "drop (n - length got) (remaining w) = drop (n - length (got @ bs)) (remaining w1)"
      using c(3) by (simp_all flip: c(2))
    have len: "length (got @ bs) \<le> n" "n \<le> length (got @ bs) + length (remaining w1)"
      using c(3) False prems(3) by (auto simp flip: c(2))
    show ?thesis
    proof (cases "n \<le> length (got @ bs)")
      case True
      with False rd c(4) cut show ?thesis by (subst ReadFull.simps) simp
    next
      case notyet: False
      have "((n - length (got @ bs), stall w1), (n - length got, stall w)) \<in> less_than <*lex*> less_than"
        using c(5) False notyet by (cases bs) auto
      from IH [OF this c(4) len] False notyet rd c(1) cut show ?thesis
        by (subst ReadFull.simps) simp
    qed
  qed
qed

end

text \<open>
  The reader of a pipe or socket whose other side has written the given chunks and closed it: each
  call returns what is left of the oldest chunk, as far as there is room, and then the end of file.
\<close>

fun chunk_read :: "bytes list reader" where
  "chunk_read n [] = ([], [], Some (EIs IoEOF))"
| "chunk_read n (c # cs) =
     (if length c \<le> n then (cs, c, None) else (drop n c # cs, take n c, None))"

interpretation chunk_reader: byte_reader chunk_read concat length "\<lambda>cs. True"
proof
  fix w w1 bs err and n :: nat
  assume "concat w \<noteq> []" and "0 < n" and "chunk_read n w = (w1, bs, err)"
  then show "err = None \<and> bs @ concat w1 = concat w \<and> length bs \<le> n \<and> True \<and>
      (bs = [] \<longrightarrow> length w1 < length w)"
    by (cases w) (auto split: if_splits)
qed

end
