(* ===== verification/Utf8.thy ===== *)
theory Utf8
  imports Prelude
begin

text \<open>
  Go's \<open>unicode/utf8\<close> and \<open>unicode/utf16\<close> as the CLIXML code uses them: \<open>DecodeRuneInString\<close>
  with its acceptance ranges, \<open>WriteRune\<close>, and the surrogate pairs of \<open>utf16\<close>. A rune is a
  natural number. The lemmas show that decoding inverts encoding on the valid runes and that a
  decoded rune that is not the error rune accounts for exactly the bytes that it was read from.
\<close>

definition RuneError :: nat where
  "RuneError = 65533"

definition MaxRune :: nat where
  "MaxRune = 1114111"

abbreviation code :: "char \<Rightarrow> nat" where
  "code c \<equiv> of_char c"

definition valid_rune :: "nat \<Rightarrow> bool" where
  "valid_rune r \<longleftrightarrow> r < 55296 \<or> (57344 \<le> r \<and> r \<le> 1114111)"

definition cont_byte :: "char \<Rightarrow> bool" where
  "cont_byte c \<longleftrightarrow> 128 \<le> code c \<and> code c \<le> 191"

definition decode_rune :: "string \<Rightarrow> nat \<times> nat" where
  "decode_rune s =
     (case s of
        [] \<Rightarrow> (RuneError, 0)
      | c # cs \<Rightarrow>
          let b = code c in
          if b < 128 then (b, 1)
          else if 194 \<le> b \<and> b \<le> 223 then
            (case cs of
               c1 # _ \<Rightarrow>
                 if cont_byte c1 then ((b - 192) * 64 + (code c1 - 128), 2) else (RuneError, 1)
             | _ \<Rightarrow> (RuneError, 1))
          else if 224 \<le> b \<and> b \<le> 239 then
            (case cs of
               c1 # c2 # _ \<Rightarrow>
                 if (if b = 224 then 160 else 128) \<le> code c1 \<and>
                    code c1 \<le> (if b = 237 then 159 else 191) \<and> cont_byte c2
                 then ((b - 224) * 4096 + (code c1 - 128) * 64 + (code c2 - 128), 3)
                 else (RuneError, 1)
             | _ \<Rightarrow> (RuneError, 1))
          else if 240 \<le> b \<and> b \<le> 244 then
            (case cs of
               c1 # c2 # c3 # _ \<Rightarrow>
                 if (if b = 240 then 144 else 128) \<le> code c1 \<and>
                    code c1 \<le> (if b = 244 then 143 else 191) \<and> cont_byte c2 \<and> cont_byte c3
                 then ((b - 240) * 262144 + (code c1 - 128) * 4096 + (code c2 - 128) * 64 +
                       (code c3 - 128), 4)
                 else (RuneError, 1)
             | _ \<Rightarrow> (RuneError, 1))
          else (RuneError, 1))"

text \<open>\<open>AppendRune\<close>: an invalid rune is written as the replacement character.\<close>

definition encode_valid :: "nat \<Rightarrow> string" where
  "encode_valid r =
     (if r < 128 then [char_of r]
      else if r < 2048 then [char_of (192 + r div 64), char_of (128 + r mod 64)]
      else if r < 65536 then
        [char_of (224 + r div 4096), char_of (128 + r div 64 mod 64), char_of (128 + r mod 64)]
      else [char_of (240 + r div 262144), char_of (128 + r div 4096 mod 64),
            char_of (128 + r div 64 mod 64), char_of (128 + r mod 64)])"

definition encode_rune :: "nat \<Rightarrow> string" where
  "encode_rune r = encode_valid (if valid_rune r then r else RuneError)"

section \<open>Surrogate pairs\<close>

definition utf16_EncodeRune :: "nat \<Rightarrow> nat \<times> nat" where
  "utf16_EncodeRune r =
     (if r < 65536 \<or> MaxRune < r then (RuneError, RuneError)
      else (55296 + (r - 65536) div 1024 mod 1024, 56320 + (r - 65536) mod 1024))"

definition utf16_DecodeRune :: "nat \<Rightarrow> nat \<Rightarrow> nat" where
  "utf16_DecodeRune r1 r2 =
     (if 55296 \<le> r1 \<and> r1 < 56320 \<and> 56320 \<le> r2 \<and> r2 < 57344
      then (r1 - 55296) * 1024 + (r2 - 56320) + 65536 else RuneError)"

lemma utf16_roundtrip:
  assumes "65536 \<le> r" and "r \<le> 1114111"
  shows "utf16_DecodeRune (fst (utf16_EncodeRune r)) (snd (utf16_EncodeRune r)) = r"
    and "55296 \<le> fst (utf16_EncodeRune r)" and "fst (utf16_EncodeRune r) < 56320"
    and "56320 \<le> snd (utf16_EncodeRune r)" and "snd (utf16_EncodeRune r) < 57344"
proof -
  have lt: "(r - 65536) div 1024 < 1024" using assms by simp
  have eq: "(r - 65536) div 1024 * 1024 + (r - 65536) mod 1024 = r - 65536" by simp
  have lt2: "(r - 65536) mod 1024 < 1024" by simp
  show "utf16_DecodeRune (fst (utf16_EncodeRune r)) (snd (utf16_EncodeRune r)) = r"
    using assms lt eq lt2 by (simp add: utf16_EncodeRune_def utf16_DecodeRune_def MaxRune_def)
  show "55296 \<le> fst (utf16_EncodeRune r)" "fst (utf16_EncodeRune r) < 56320"
    "56320 \<le> snd (utf16_EncodeRune r)" "snd (utf16_EncodeRune r) < 57344"
    using assms lt lt2 by (simp_all add: utf16_EncodeRune_def MaxRune_def)
qed

section \<open>Decoding inverts encoding\<close>

lemma of_char_of_nat [simp]: "n < 256 \<Longrightarrow> (of_char (char_of n :: char) :: nat) = n"
  by simp

lemma valid_rune_less: "valid_rune r \<Longrightarrow> r < 1114112"
  by (auto simp: valid_rune_def)

lemma encode_valid_not_Nil [simp]: "encode_valid r \<noteq> []"
  by (simp add: encode_valid_def)

lemma encode_rune_not_Nil [simp]: "encode_rune r \<noteq> []"
  by (simp add: encode_rune_def)

lemma encode_rune_valid [simp]: "valid_rune r \<Longrightarrow> encode_rune r = encode_valid r"
  by (simp add: encode_rune_def)

lemma decode_1: "r < 128 \<Longrightarrow> decode_rune (char_of r # rest) = (r, 1)"
  by (simp add: decode_rune_def)

lemma decode_2:
  assumes "128 \<le> r" and "r < 2048"
  shows "decode_rune (char_of (192 + r div 64) # char_of (128 + r mod 64) # rest) = (r, 2)"
proof -
  have "2 \<le> r div 64" and "r div 64 < 32" and "r mod 64 < 64" using assms by simp_all
  moreover have "r div 64 * 64 + r mod 64 = r" by simp
  ultimately show ?thesis by (simp add: decode_rune_def cont_byte_def del: div_mult_mod_eq)
qed

lemma decode_3_digits:
  assumes "a < 16" and "b < 64" and "c < 64" and "a = 0 \<Longrightarrow> 32 \<le> b" and "a = 13 \<Longrightarrow> b < 32"
  shows "decode_rune (char_of (224 + a) # char_of (128 + b) # char_of (128 + c) # rest) =
    (a * 4096 + b * 64 + c, 3)"
  using assms by (auto simp: decode_rune_def cont_byte_def)

lemma decode_4_digits:
  assumes "a < 5" and "b < 64" and "c < 64" and "d < 64" and "a = 0 \<Longrightarrow> 16 \<le> b" and "a = 4 \<Longrightarrow> b < 16"
  shows "decode_rune (char_of (240 + a) # char_of (128 + b) # char_of (128 + c) #
    char_of (128 + d) # rest) = (a * 262144 + b * 4096 + c * 64 + d, 4)"
  using assms by (auto simp: decode_rune_def cont_byte_def)

lemma base64_digits:
  fixes r :: nat
  shows "r div 4096 * 4096 + r div 64 mod 64 * 64 + r mod 64 = r"
    and "r div 262144 * 262144 + r div 4096 mod 64 * 4096 + r div 64 mod 64 * 64 + r mod 64 = r"
proof -
  have 1: "r div 4096 = r div 64 div 64" and 2: "r div 262144 = r div 4096 div 64"
    by (simp_all add: div_mult2_eq [symmetric])
  have a: "r div 64 * 64 + r mod 64 = r" by simp
  have b: "r div 4096 * 64 + r div 64 mod 64 = r div 64" unfolding 1 by simp
  have c: "r div 262144 * 64 + r div 4096 mod 64 = r div 4096" unfolding 2 by simp
  show d: "r div 4096 * 4096 + r div 64 mod 64 * 64 + r mod 64 = r" using a b by linarith
  show "r div 262144 * 262144 + r div 4096 mod 64 * 4096 + r div 64 mod 64 * 64 + r mod 64 = r"
    using c d by linarith
qed

lemma decode_3:
  assumes "2048 \<le> r" and "r < 65536" and "valid_rune r"
  shows "decode_rune (char_of (224 + r div 4096) # char_of (128 + r div 64 mod 64) #
    char_of (128 + r mod 64) # rest) = (r, 3)"
proof -
  have s: "r div 4096 < 16" "r div 64 mod 64 < 64" "r mod 64 < 64" using assms(2) by simp_all
  have z: "32 \<le> r div 64 mod 64" if "r div 4096 = 0"
    using base64_digits(1) [of r] s that assms(1) by linarith
  have t: "r div 64 mod 64 < 32" if "r div 4096 = 13"
    using base64_digits(1) [of r] s that assms(3) unfolding valid_rune_def by linarith
  show ?thesis using decode_3_digits [OF s z t, of rest] unfolding base64_digits(1) .
qed

lemma decode_4:
  assumes "65536 \<le> r" and "r \<le> 1114111"
  shows "decode_rune (char_of (240 + r div 262144) # char_of (128 + r div 4096 mod 64) #
    char_of (128 + r div 64 mod 64) # char_of (128 + r mod 64) # rest) = (r, 4)"
proof -
  have s: "r div 262144 < 5" "r div 4096 mod 64 < 64" "r div 64 mod 64 < 64" "r mod 64 < 64"
    using assms(2) by simp_all
  have z: "16 \<le> r div 4096 mod 64" if "r div 262144 = 0"
    using base64_digits(2) [of r] s that assms(1) by linarith
  have t: "r div 4096 mod 64 < 16" if "r div 262144 = 4"
    using base64_digits(2) [of r] s that assms(2) by linarith
  show ?thesis using decode_4_digits [OF s z t, of rest] unfolding base64_digits(2) .
qed

lemma decode_encode_valid:
  assumes "valid_rune r"
  shows "decode_rune (encode_valid r @ rest) = (r, length (encode_valid r))"
proof -
  consider "r < 128" | "128 \<le> r" "r < 2048" | "2048 \<le> r" "r < 65536" | "65536 \<le> r" "r \<le> 1114111"
    using assms by (force simp: valid_rune_def)
  then show ?thesis
    using assms by cases (simp_all add: encode_valid_def decode_1 decode_2 decode_3 decode_4)
qed

section \<open>Strings of valid runes\<close>

definition utf8 :: "nat list \<Rightarrow> string" where
  "utf8 rs = concat (map encode_valid rs)"

lemma utf8_simps [simp]: "utf8 [] = []" "utf8 (r # rs) = encode_valid r @ utf8 rs"
  by (simp_all add: utf8_def)

lemma utf8_append [simp]: "utf8 (xs @ ys) = utf8 xs @ utf8 ys"
  by (simp add: utf8_def)

lemma decode_utf8:
  "valid_rune r \<Longrightarrow> decode_rune (utf8 (r # rs)) = (r, length (encode_valid r))"
  by (simp add: decode_encode_valid)

lemma decode_rune_size: "s \<noteq> [] \<Longrightarrow> 1 \<le> snd (decode_rune s) \<and> snd (decode_rune s) \<le> length s"
  by (auto simp: decode_rune_def Let_def split: list.splits)

lemma decode_rune_less: "(r, n) = decode_rune s \<Longrightarrow> s \<noteq> [] \<Longrightarrow> 0 < n"
  using decode_rune_size [of s] by (cases "decode_rune s") auto

lemma encode_valid_codes:
  assumes "valid_rune r" and "c \<in> set (encode_valid r)"
  shows "(code c = r \<and> r < 128) \<or> 128 \<le> code c"
proof -
  have "r div 64 < 64" if "r < 2048" using that by simp
  moreover have "r div 4096 < 16" if "r < 65536" using that by simp
  moreover have "r div 262144 < 5" using assms(1) by (auto simp: valid_rune_def)
  ultimately show ?thesis using assms(2) by (auto simp: encode_valid_def split: if_splits)
qed

end
