(* ===== verification/Go_Lines.thy ===== *)
theory Go_Lines
  imports Go_Io Utf8 "HOL-Library.Sublist"
begin

text \<open>
  What the out-of-process transport uses of the standard library: searching and trimming of strings,
  and \<open>bufio.Reader.ReadString\<close>, which reads a line through a buffer of 4096 bytes and may never
  return. \<open>lively_reader\<close> is the interface of a reader that never returns an empty read while there
  are bytes left; a line is read from it exactly, however the bytes are cut.
\<close>

section \<open>Strings\<close>

fun strings_Index :: "string \<Rightarrow> string \<Rightarrow> nat option" where
  "strings_Index [] sub = (if sub = [] then Some 0 else None)"
| "strings_Index (c # cs) sub =
     (if prefix sub (c # cs) then Some 0 else map_option Suc (strings_Index cs sub))"

definition strings_IndexByte :: "string \<Rightarrow> char \<Rightarrow> nat option" where
  "strings_IndexByte s c = strings_Index s [c]"

fun strings_LastIndex :: "string \<Rightarrow> string \<Rightarrow> nat option" where
  "strings_LastIndex [] sub = (if sub = [] then Some 0 else None)"
| "strings_LastIndex (c # cs) sub =
     (case strings_LastIndex cs sub of
        Some i \<Rightarrow> Some (Suc i)
      | None \<Rightarrow> if prefix sub (c # cs) then Some 0 else None)"

definition strings_TrimPrefix :: "string \<Rightarrow> string \<Rightarrow> string" where
  "strings_TrimPrefix s p = (if prefix p s then drop (length p) s else s)"

text \<open>\<open>strings.ToLower\<close> of an ASCII string; the texts of GUIDs are.\<close>

definition ascii_lower :: "char \<Rightarrow> char" where
  "ascii_lower c = (if 65 \<le> code c \<and> code c \<le> 90 then char_of (code c + 32) else c)"

definition strings_ToLower :: "string \<Rightarrow> string" where
  "strings_ToLower s = map ascii_lower s"

text \<open>\<open>strings.TrimSpace\<close>: \<open>unicode.IsSpace\<close>, from the left and, by the last rune, from the right.\<close>

definition unicode_IsSpace :: "nat \<Rightarrow> bool" where
  "unicode_IsSpace r \<longleftrightarrow>
     (9 \<le> r \<and> r \<le> 13) \<or> r = 32 \<or> r = 133 \<or> r = 160 \<or> r = 5760 \<or> (8192 \<le> r \<and> r \<le> 8202) \<or>
     r = 8232 \<or> r = 8233 \<or> r = 8239 \<or> r = 8287 \<or> r = 12288"

function trim_left :: "string \<Rightarrow> string" where
  "trim_left s =
     (if s = [] then []
      else case decode_rune s of (r, n) \<Rightarrow> if unicode_IsSpace r then trim_left (drop n s) else s)"
  by pat_completeness auto
termination
  by (relation "measure length") (auto dest: decode_rune_less)

definition decode_last_rune :: "string \<Rightarrow> nat \<times> nat" where
  "decode_last_rune s =
     (if s = [] then (RuneError, 0)
      else if code (last s) < 128 then (code (last s), 1)
      else
        let lim = length s - 4;
            starts = filter (\<lambda>k. \<not> cont_byte (s ! k)) (rev [lim..<length s - 1]);
            start = (case starts of k # _ \<Rightarrow> k | [] \<Rightarrow> lim - 1) in
        case decode_rune (drop start s) of
          (r, n) \<Rightarrow> if start + n \<noteq> length s then (RuneError, 1) else (r, n))"

function trim_right :: "string \<Rightarrow> string" where
  "trim_right s =
     (case decode_last_rune s of
        (r, n) \<Rightarrow> if 0 < n \<and> n \<le> length s \<and> unicode_IsSpace r then trim_right (take (length s - n) s) else s)"
  by pat_completeness auto
termination
  by (relation "measure length") auto

declare trim_left.simps [simp del] trim_right.simps [simp del]

definition strings_TrimSpace :: "string \<Rightarrow> string" where
  "strings_TrimSpace s = trim_right (trim_left s)"

section \<open>Lines\<close>

definition bufio_size :: nat where
  "bufio_size = 4096"

text \<open>A \<open>bufio.Reader\<close>: its unread bytes and the error that it has not reported yet.\<close>

record bufio =
  brBuf :: bytes
  brErr :: "gerr option"

definition NewReader :: bufio where
  "NewReader = \<lparr>brBuf = [], brErr = None\<rparr>"

text \<open>\<open>fill\<close> reads once more; after 100 reads without a byte it gives up.\<close>

fun bufio_fill :: "'w reader \<Rightarrow> nat \<Rightarrow> bufio \<Rightarrow> 'w \<Rightarrow> bufio \<times> 'w" where
  "bufio_fill rd 0 b w =
     (b\<lparr>brErr := Some (EMsg ''multiple Read calls return no data or error'')\<rparr>, w)"
| "bufio_fill rd (Suc k) b w =
     (case rd (bufio_size - length (brBuf b)) w of
        (w1, bs, err) \<Rightarrow>
          let b1 = b\<lparr>brBuf := brBuf b @ bs\<rparr> in
          case err of
            Some e \<Rightarrow> (b1\<lparr>brErr := Some e\<rparr>, w1)
          | None \<Rightarrow> if bs \<noteq> [] then (b1, w1) else bufio_fill rd k b1 w1)"

definition newline :: byte where
  "newline = 10"

text \<open>The bytes up to and including the first newline, and the rest.\<close>

definition split_line :: "bytes \<Rightarrow> (bytes \<times> bytes) option" where
  "split_line bs =
     (case dropWhile (\<lambda>b. b \<noteq> newline) bs of
        [] \<Rightarrow> None
      | x # rest \<Rightarrow> Some (takeWhile (\<lambda>b. b \<noteq> newline) bs @ [x], rest))"

text \<open>\<open>ReadString\<close>; \<open>got\<close> are the full buffers that held no newline.\<close>

partial_function (option) read_line ::
  "'w reader \<Rightarrow> bytes \<Rightarrow> bufio \<Rightarrow> 'w \<Rightarrow> ((bufio \<times> 'w) \<times> bytes outcome) option" where
  "read_line rd got b w =
     (case split_line (brBuf b) of
        Some (line, rest) \<Rightarrow> Some ((b\<lparr>brBuf := rest\<rparr>, w), Ret (got @ line))
      | None \<Rightarrow>
          (case brErr b of
             Some e \<Rightarrow> Some ((\<lparr>brBuf = [], brErr = None\<rparr>, w), Fail e)
           | None \<Rightarrow>
               if bufio_size \<le> length (brBuf b) then read_line rd (got @ brBuf b) (b\<lparr>brBuf := []\<rparr>) w
               else (case bufio_fill rd 100 b w of (b1, w1) \<Rightarrow> read_line rd got b1 w1)))"

definition bufio_ReadString ::
  "'w reader \<Rightarrow> bufio \<Rightarrow> 'w \<Rightarrow> ((bufio \<times> 'w) \<times> bytes outcome) option" where
  "bufio_ReadString rd b w = read_line rd [] b w"

lemma split_line_Some:
  assumes "newline \<notin> set l"
  shows "split_line (l @ newline # rest) = Some (l @ [newline], rest)"
proof -
  have "\<forall>x\<in>set l. x \<noteq> newline" using assms by auto
  then show ?thesis by (simp add: split_line_def takeWhile_append2 dropWhile_append2)
qed

lemma split_line_None: "split_line bs = None \<longleftrightarrow> newline \<notin> set bs"
proof (cases "dropWhile (\<lambda>b. b \<noteq> newline) bs")
  case Nil
  then have "newline \<notin> set bs" by (metis (mono_tags, lifting) dropWhile_eq_Nil_conv)
  then show ?thesis unfolding split_line_def Nil by simp
next
  case (Cons x xs)
  then have "x = newline" by (simp add: dropWhile_eq_Cons_conv)
  moreover have "x \<in> set bs" by (rule set_dropWhileD [where P = "\<lambda>b. b \<noteq> newline"]) (simp add: Cons)
  ultimately show ?thesis using Cons by (simp add: split_line_def)
qed

lemma line_unique:
  assumes "newline \<notin> set l" and "newline \<notin> set m" and "l @ newline # xs = m @ newline # ys"
  shows "l = m \<and> xs = ys"
proof -
  have "Some (l @ [newline], xs) = split_line (l @ newline # xs)"
    by (rule split_line_Some [OF assms(1), symmetric])
  also have "\<dots> = split_line (m @ newline # ys)" by (rule arg_cong [OF assms(3)])
  also have "\<dots> = Some (m @ [newline], ys)" by (rule split_line_Some [OF assms(2)])
  finally show ?thesis by simp
qed

lemma line_starts:
  assumes "bs @ cs = l @ newline # rest" and "newline \<notin> set bs"
  shows "\<exists>l1. l = bs @ l1 \<and> cs = l1 @ newline # rest"
proof -
  from assms(1) obtain us where "bs = l @ us \<and> us @ cs = newline # rest \<or>
      bs @ us = l \<and> cs = us @ newline # rest"
    by (auto simp: append_eq_append_conv2)
  with assms(2) show ?thesis by (cases us) auto
qed

locale lively_reader = byte_reader rd remaining "\<lambda>w. 0" alive
  for rd :: "'w reader" and remaining alive
begin

lemma fill:
  assumes "alive w" and "remaining w \<noteq> []" and "length (brBuf b) < bufio_size" and "brErr b = None"
  shows "\<exists>bs w1. bufio_fill rd 100 b w = (b\<lparr>brBuf := brBuf b @ bs\<rparr>, w1) \<and> bs \<noteq> [] \<and> alive w1 \<and>
    bs @ remaining w1 = remaining w \<and> length (brBuf b @ bs) \<le> bufio_size"
proof -
  obtain w1 bs err where r: "rd (bufio_size - length (brBuf b)) w = (w1, bs, err)"
    by (cases "rd (bufio_size - length (brBuf b)) w")
  from read_prefix [OF assms(1,2) _ r] assms(3) show ?thesis
    using r by (auto simp: numeral_eq_Suc)
qed

lemma read_line_exact:
  assumes "alive w" and "brErr b = None" and "length (brBuf b) \<le> bufio_size"
    and "brBuf b @ remaining w = l @ newline # rest" and "newline \<notin> set l"
  shows "\<exists>b1 w1. read_line rd got b w = Some ((b1, w1), Ret (got @ l @ [newline])) \<and>
    alive w1 \<and> brErr b1 = None \<and> length (brBuf b1) \<le> bufio_size \<and> brBuf b1 @ remaining w1 = rest"
  using assms
proof (induction "(length (remaining w), length (brBuf b))" arbitrary: got b w l rule: wf_induct_rule
    [OF wf_lex_prod [OF wf_less_than wf_less_than]])
  case 1
  note IH = this(1) and prems = this(2-)
  show ?case
  proof (cases "newline \<in> set (brBuf b)")
    case True
    then obtain p s where b: "brBuf b = p @ newline # s" "newline \<notin> set p" by (meson split_list_first)
    with line_unique [OF b(2) prems(5), of "s @ remaining w" rest] prems(4)
    have "p = l" "s @ remaining w = rest" by auto
    with b prems show ?thesis
      by (subst read_line.simps) (simp add: split_line_Some)
  next
    case False
    then have n: "split_line (brBuf b) = None" by (simp add: split_line_None)
    show ?thesis
    proof (cases "bufio_size \<le> length (brBuf b)")
      case True
      from line_starts [OF prems(4) False] obtain l1 where
        l: "l = brBuf b @ l1" "remaining w = l1 @ newline # rest"
        by blast
      have "brBuf b \<noteq> []" using True by (auto simp: bufio_size_def)
      then have "((length (remaining w), length (brBuf (b\<lparr>brBuf := []\<rparr>))), (length (remaining w), length (brBuf b)))
          \<in> less_than <*lex*> less_than"
        by simp
      from IH [OF this prems(1), of l1 "got @ brBuf b"] prems l n True show ?thesis
        by (subst read_line.simps) simp
    next
      case notfull: False
      have "remaining w \<noteq> []" using prems(4) False by auto
      from fill [OF prems(1) this _ prems(2)] notfull obtain bs w1 where
        f: "bufio_fill rd 100 b w = (b\<lparr>brBuf := brBuf b @ bs\<rparr>, w1)" "bs \<noteq> []" "alive w1"
          "bs @ remaining w1 = remaining w" "length (brBuf b @ bs) \<le> bufio_size"
        by auto
      have "length (remaining w1) < length (remaining w)" using f(2) by (simp flip: f(4))
      then have "((length (remaining w1), length (brBuf (b\<lparr>brBuf := brBuf b @ bs\<rparr>))),
          (length (remaining w), length (brBuf b))) \<in> less_than <*lex*> less_than"
        by simp
      from IH [OF this f(3), of l got] prems f n notfull show ?thesis
        by (subst read_line.simps) simp
    qed
  qed
qed

end

text \<open>A pipe whose chunks are not empty.\<close>

interpretation lively_chunks: lively_reader chunk_read concat "\<lambda>cs. [] \<notin> set cs"
proof
  fix w w1 :: "bytes list" and bs err and n :: nat
  assume "[] \<notin> set w" and "concat w \<noteq> []" and "0 < n" and "chunk_read n w = (w1, bs, err)"
  then show "err = None \<and> bs @ concat w1 = concat w \<and> length bs \<le> n \<and> [] \<notin> set w1 \<and>
      (bs = [] \<longrightarrow> (0::nat) < 0)"
    by (cases w) (auto split: if_splits)
qed

end
