(* ===== verification/Go_Chan.thy ===== *)
theory Go_Chan
  imports Prelude
begin

text \<open>
  Go's buffered channels and contexts, as the pipelines and the pool use them. A channel is its
  capacity, the values waiting in it, oldest first, and whether it is closed. A context is the
  error that its \<open>Err\<close> returns once it is done. What a consumer relies on is the interface
  \<open>fifo\<close>: values come out in the order they went in, none lost and none twice.
\<close>

section \<open>Channels\<close>

datatype 'a chan = Chan (chan_cap: nat) (chan_queue: "'a list") (chan_closed: bool)

definition make_chan :: "nat \<Rightarrow> 'a chan" where
  "make_chan n = Chan n [] False"

text \<open>
  \<open>select { case ch <- x: ... default: ... }\<close>: sending on a closed channel panics, also in a
  \<open>select\<close>, and a full buffer takes the \<open>default\<close> branch (\<open>None\<close>).
\<close>

definition chan_offer :: "'a \<Rightarrow> 'a chan \<Rightarrow> 'a chan option outcome" where
  "chan_offer x c =
     (if chan_closed c then Panic PanicSendOnClosed
      else if length (chan_queue c) < chan_cap c then
        Ret (Some (Chan (chan_cap c) (chan_queue c @ [x]) False))
      else Ret None)"

text \<open>A receive that finds a value; an empty channel blocks, or reports that it is closed.\<close>

definition chan_take :: "'a chan \<Rightarrow> ('a \<times> 'a chan) option" where
  "chan_take c =
     (case chan_queue c of
        [] \<Rightarrow> None
      | x # xs \<Rightarrow> Some (x, Chan (chan_cap c) xs (chan_closed c)))"

definition chan_close :: "'a chan \<Rightarrow> 'a chan outcome" where
  "chan_close c =
     (if chan_closed c then Panic PanicCloseClosed
      else Ret (Chan (chan_cap c) (chan_queue c) True))"

lemma make_chan_simps [simp]:
  "chan_cap (make_chan n) = n" "chan_queue (make_chan n) = []" "\<not> chan_closed (make_chan n)"
  by (simp_all add: make_chan_def)

lemma chan_offer_Some:
  "chan_offer x c = Ret (Some d) \<longleftrightarrow>
     \<not> chan_closed c \<and> length (chan_queue c) < chan_cap c \<and>
     d = Chan (chan_cap c) (chan_queue c @ [x]) False"
  by (auto simp: chan_offer_def)

lemma chan_offer_None:
  "chan_offer x c = Ret None \<longleftrightarrow> \<not> chan_closed c \<and> chan_cap c \<le> length (chan_queue c)"
  by (auto simp: chan_offer_def)

lemma chan_take_Some:
  "chan_take c = Some (x, d) \<longleftrightarrow>
     chan_queue c = x # chan_queue d \<and> chan_cap d = chan_cap c \<and> chan_closed d = chan_closed c"
  by (cases c; cases d) (auto simp: chan_take_def split: list.splits)

lemma chan_close_Ret:
  "chan_close c = Ret d \<longleftrightarrow> \<not> chan_closed c \<and> d = Chan (chan_cap c) (chan_queue c) True"
  by (auto simp: chan_close_def)

section \<open>Contexts\<close>

type_synonym context_state = "sentinel option"

text \<open>Cancelling a context that is already done changes nothing.\<close>

definition ctx_cancel :: "sentinel \<Rightarrow> context_state \<Rightarrow> context_state" where
  "ctx_cancel why c = (case c of None \<Rightarrow> Some why | Some w \<Rightarrow> Some w)"

lemma ctx_cancel_simps [simp]:
  "ctx_cancel w None = Some w" "ctx_cancel w (Some v) = Some v" "ctx_cancel w c \<noteq> None"
  "\<exists>v. ctx_cancel w c = Some v"
  by (simp_all add: ctx_cancel_def split: option.splits)

section \<open>Queues\<close>

text \<open>What happens to a buffer: a value is put in, or the consumer takes the oldest one.\<close>

datatype 'a fifo_op = Put 'a | Take 'a

definition puts :: "'a fifo_op list \<Rightarrow> 'a list" where
  "puts ops = concat (map (\<lambda>p. case p of Put x \<Rightarrow> [x] | Take x \<Rightarrow> []) ops)"

definition takes :: "'a fifo_op list \<Rightarrow> 'a list" where
  "takes ops = concat (map (\<lambda>p. case p of Put x \<Rightarrow> [] | Take x \<Rightarrow> [x]) ops)"

lemma puts_simps [simp]:
  "puts [] = []" "puts (Put x # ops) = x # puts ops" "puts (Take x # ops) = puts ops"
  "puts (ops @ ops') = puts ops @ puts ops'"
  by (simp_all add: puts_def)

lemma takes_simps [simp]:
  "takes [] = []" "takes (Put x # ops) = takes ops" "takes (Take x # ops) = x # takes ops"
  "takes (ops @ ops') = takes ops @ takes ops'"
  by (simp_all add: takes_def)

text \<open>
  The interface: \<open>step c p d\<close> when the operation \<open>p\<close> takes the buffer from \<open>c\<close> to \<open>d\<close>; \<open>contents\<close> is
  what waits in it. \<open>calm c d\<close> are the changes that neither put nor take.
\<close>

locale fifo =
  fixes step :: "'c \<Rightarrow> 'a fifo_op \<Rightarrow> 'c \<Rightarrow> bool"
    and contents :: "'c \<Rightarrow> 'a list"
    and bound :: "'c \<Rightarrow> nat"
  assumes put: "step c (Put x) d \<Longrightarrow> contents d = contents c @ [x]"
    and put_room: "step c (Put x) d \<Longrightarrow> length (contents c) < bound c"
    and take: "step c (Take x) d \<Longrightarrow> contents c = x # contents d"
    and same_bound: "step c p d \<Longrightarrow> bound d = bound c"
begin

lemma step_contents: "step c p d \<Longrightarrow> contents c @ puts [p] = takes [p] @ contents d"
  using put take by (cases p) fastforce+

lemma step_within: "step c p d \<Longrightarrow> length (contents c) \<le> bound c \<Longrightarrow> length (contents d) \<le> bound d"
  using put put_room take same_bound by (cases p) fastforce+

text \<open>One more operation after a history: still in order.\<close>

lemma extend:
  assumes "c0 @ puts ops = takes ops @ contents c" and "step c p d"
  shows "c0 @ puts (ops @ [p]) = takes (ops @ [p]) @ contents d"
  using assms(1) step_contents [OF assms(2)] by (metis append.assoc puts_simps(4) takes_simps(4))

end

text \<open>Go's channels, sent to with \<open>chan_offer\<close> and received from with \<open>chan_take\<close>, are such queues.\<close>

fun chan_step :: "'a chan \<Rightarrow> 'a fifo_op \<Rightarrow> 'a chan \<Rightarrow> bool" where
  "chan_step c (Put x) d = (chan_offer x c = Ret (Some d))"
| "chan_step c (Take x) d = (chan_take c = Some (x, d))"

interpretation go_chan: fifo chan_step chan_queue chan_cap
proof
  fix c d :: "'a chan" and x and p
  show "chan_step c (Put x) d \<Longrightarrow> chan_queue d = chan_queue c @ [x]"
    by (auto simp: chan_offer_Some)
  show "chan_step c (Put x) d \<Longrightarrow> length (chan_queue c) < chan_cap c"
    by (simp add: chan_offer_Some)
  show "chan_step c (Take x) d \<Longrightarrow> chan_queue c = x # chan_queue d"
    by (simp add: chan_take_Some)
  show "chan_step c p d \<Longrightarrow> chan_cap d = chan_cap c"
    by (cases p) (auto simp: chan_offer_Some chan_take_Some)
qed

end
