(* ===== verification/Base64.thy ===== *)
theory Base64
  imports Prelude
begin

text \<open>
  \<open>base64.StdEncoding\<close> of the standard library, which byte arrays, secure strings and the
  out-of-process packets use: three bytes become four letters, with padding. Decoding skips line
  breaks wherever they stand and is not strict about the unused bits of the last letter.
\<close>

definition b64_alphabet :: string where
  "b64_alphabet = ''ABCDEFGHIJKLMNOPQRSTUVWXYZabcdefghijklmnopqrstuvwxyz0123456789+/''"

definition b64_char :: "nat \<Rightarrow> char" where
  "b64_char n = b64_alphabet ! n"

definition b64_value :: "char \<Rightarrow> nat option" where
  "b64_value c =
     (let n = (of_char c :: nat) in
      if 65 \<le> n \<and> n \<le> 90 then Some (n - 65)
      else if 97 \<le> n \<and> n \<le> 122 then Some (n - 71)
      else if 48 \<le> n \<and> n \<le> 57 then Some (n + 4)
      else if n = 43 then Some 62
      else if n = 47 then Some 63
      else None)"

fun b64_encode :: "bytes \<Rightarrow> string" where
  "b64_encode [] = []"
| "b64_encode [a] =
     [b64_char (unat a div 4), b64_char (unat a mod 4 * 16), CHR ''='', CHR ''='']"
| "b64_encode [a, b] =
     [b64_char (unat a div 4), b64_char (unat a mod 4 * 16 + unat b div 16),
      b64_char (unat b mod 16 * 4), CHR ''='']"
| "b64_encode (a # b # c # rest) =
     b64_char (unat a div 4) # b64_char (unat a mod 4 * 16 + unat b div 16) #
     b64_char (unat b mod 16 * 4 + unat c div 64) # b64_char (unat c mod 64) # b64_encode rest"

fun b64_groups :: "string \<Rightarrow> bytes option" where
  "b64_groups [] = Some []"
| "b64_groups (p # q # r # s # rest) =
     (case (b64_value p, b64_value q) of
        (Some w, Some x) \<Rightarrow>
          if r = CHR ''='' then
            (if s = CHR ''='' \<and> rest = [] then Some [of_nat (w * 4 + x div 16)] else None)
          else (case b64_value r of
                  None \<Rightarrow> None
                | Some y \<Rightarrow>
                    if s = CHR ''='' then
                      (if rest = [] then
                         Some [of_nat (w * 4 + x div 16), of_nat (x mod 16 * 16 + y div 4)]
                       else None)
                    else (case b64_value s of
                            None \<Rightarrow> None
                          | Some z \<Rightarrow>
                              (case b64_groups rest of
                                 None \<Rightarrow> None
                               | Some bs \<Rightarrow>
                                   Some (of_nat (w * 4 + x div 16) #
                                         of_nat (x mod 16 * 16 + y div 4) #
                                         of_nat (y mod 4 * 64 + z) # bs))))
      | _ \<Rightarrow> None)"
| "b64_groups _ = None"

definition line_break :: "char \<Rightarrow> bool" where
  "line_break c \<longleftrightarrow> c = CHR 0x0A \<or> c = CHR 0x0D"

definition b64_decode :: "string \<Rightarrow> bytes option" where
  "b64_decode s = b64_groups (filter (\<lambda>c. \<not> line_break c) s)"

section \<open>Decoding inverts encoding\<close>

lemma b64_alphabet_values: "map b64_value b64_alphabet = map Some [0..<64]"
  by code_simp

lemma b64_value_char [simp]: "n < 64 \<Longrightarrow> b64_value (b64_char n) = Some n"
proof -
  assume n: "n < 64"
  have l: "length b64_alphabet = 64" by (simp add: b64_alphabet_def)
  have "map b64_value b64_alphabet ! n = map Some [0..<64] ! n"
    by (simp only: b64_alphabet_values)
  then show ?thesis using n l by (simp add: b64_char_def)
qed

lemma b64_value_range:
  "b64_value c = Some n \<Longrightarrow> (of_char c :: nat) \<noteq> 61 \<and> (of_char c :: nat) \<noteq> 60 \<and>
    (of_char c :: nat) \<noteq> 62 \<and> (of_char c :: nat) \<noteq> 38 \<and> 32 \<le> (of_char c :: nat) \<and>
    (of_char c :: nat) < 127"
  by (auto simp: b64_value_def Let_def split: if_splits)

lemma b64_char_facts:
  assumes "n < 64"
  shows "b64_char n \<noteq> CHR ''='' \<and> \<not> line_break (b64_char n) \<and>
    b64_char n \<noteq> CHR ''<'' \<and> b64_char n \<noteq> CHR ''&'' \<and> b64_char n \<noteq> CHR ''>'' \<and>
    32 \<le> (of_char (b64_char n) :: nat) \<and> (of_char (b64_char n) :: nat) < 127"
  using b64_value_range [OF b64_value_char [OF assms]]
  by (auto simp: line_break_def of_char_def)

lemma b64_char_not_pad [simp]: "n < 64 \<Longrightarrow> b64_char n \<noteq> CHR ''=''"
  by (simp add: b64_char_facts)

lemma b64_char_no_break [simp]: "n < 64 \<Longrightarrow> \<not> line_break (b64_char n)"
  by (simp add: b64_char_facts)

lemma b64_digits:
  fixes a b c :: byte
  shows "unat a div 4 < 64" "unat a mod 4 * 16 < 64" "unat a mod 4 * 16 + unat b div 16 < 64"
    "unat b mod 16 * 4 < 64" "unat b mod 16 * 4 + unat c div 64 < 64" "unat c mod 64 < 64"
proof -
  have a: "unat a < 256" and b: "unat b < 256" and c: "unat c < 256" by simp_all
  show "unat a div 4 < 64" using a by (simp del: unat_byte_less)
  have d: "unat a mod 4 < 4" "unat b mod 16 < 16" by simp_all
  have e: "unat b div 16 < 16" "unat c div 64 < 4" using b c by (simp_all del: unat_byte_less)
  show "unat a mod 4 * 16 < 64" "unat b mod 16 * 4 < 64" using d by linarith+
  show "unat a mod 4 * 16 + unat b div 16 < 64" "unat b mod 16 * 4 + unat c div 64 < 64"
    using d e by linarith+
  show "unat c mod 64 < 64" by simp
qed

lemma b64_bytes:
  fixes a b c :: byte
  shows "of_nat (unat a div 4 * 4 + (unat a mod 4 * 16 + unat b div 16) div 16) = a"
    and "of_nat (unat a div 4 * 4 + unat a mod 4 * 16 div 16) = a"
    and "of_nat ((unat a mod 4 * 16 + unat b div 16) mod 16 * 16 +
      (unat b mod 16 * 4 + unat c div 64) div 4) = b"
    and "of_nat ((unat a mod 4 * 16 + unat b div 16) mod 16 * 16 + unat b mod 16 * 4 div 4) = b"
    and "of_nat ((unat b mod 16 * 4 + unat c div 64) mod 4 * 64 + unat c mod 64) = c"
proof -
  have "unat b div 16 < 16" "unat c div 64 < 4"
    using unat_byte_less [of b] unat_byte_less [of c] by (simp_all del: unat_byte_less)
  then have 1: "(unat a mod 4 * 16 + unat b div 16) div 16 = unat a mod 4"
    and 2: "(unat a mod 4 * 16 + unat b div 16) mod 16 = unat b div 16"
    and 3: "(unat b mod 16 * 4 + unat c div 64) div 4 = unat b mod 16"
    and 4: "(unat b mod 16 * 4 + unat c div 64) mod 4 = unat c div 64"
    by simp_all
  have s: "of_nat (n div k * k + n mod k) = (of_nat n :: byte)" for n k :: nat
    by (simp only: div_mult_mod_eq)
  show "of_nat (unat a div 4 * 4 + (unat a mod 4 * 16 + unat b div 16) div 16) = a"
    unfolding 1 s by simp
  show "of_nat (unat a div 4 * 4 + unat a mod 4 * 16 div 16) = a" 
  proof -
    have "unat a mod 4 * 16 div 16 = unat a mod 4" by simp
    then show ?thesis unfolding s by (simp only: s) simp
  qed
  show "of_nat ((unat a mod 4 * 16 + unat b div 16) mod 16 * 16 +
      (unat b mod 16 * 4 + unat c div 64) div 4) = b"
    unfolding 2 3 s by simp
  show "of_nat ((unat a mod 4 * 16 + unat b div 16) mod 16 * 16 + unat b mod 16 * 4 div 4) = b"
  proof -
    have "unat b mod 16 * 4 div 4 = unat b mod 16" by simp
    then show ?thesis unfolding 2 by (simp only: s) simp
  qed
  show "of_nat ((unat b mod 16 * 4 + unat c div 64) mod 4 * 64 + unat c mod 64) = c"
    unfolding 4 s by simp
qed

lemma b64_encode_no_break: "filter (\<lambda>c. \<not> line_break c) (b64_encode bs) = b64_encode bs"
  by (induction bs rule: b64_encode.induct) (simp_all add: b64_digits line_break_def [of "CHR ''=''"])

lemma b64_groups_encode: "b64_groups (b64_encode bs) = Some bs"
  by (induction bs rule: b64_encode.induct)
    (simp_all only: b64_encode.simps b64_groups.simps b64_value_char b64_digits b64_bytes
      b64_char_not_pad option.case prod.case if_False if_True simp_thms)

lemma b64_roundtrip [simp]: "b64_decode (b64_encode bs) = Some bs"
  by (simp add: b64_decode_def b64_encode_no_break b64_groups_encode)

lemma b64_encode_chars:
  "c \<in> set (b64_encode bs) \<Longrightarrow>
    c \<noteq> CHR ''<'' \<and> c \<noteq> CHR ''&'' \<and> c \<noteq> CHR ''>'' \<and> 32 \<le> (of_char c :: nat) \<and> (of_char c :: nat) < 127"
proof (induction bs rule: b64_encode.induct)
  have eq: "(of_char (CHR ''='') :: nat) = 61" by (simp add: of_char_def)
  case (2 a)
  then show ?case using b64_char_facts b64_digits eq by auto
next
  have eq: "(of_char (CHR ''='') :: nat) = 61" by (simp add: of_char_def)
  case (3 a b)
  then show ?case using b64_char_facts b64_digits eq by auto
next
  case (4 a b c rest)
  then show ?case using b64_char_facts b64_digits by auto
qed simp

end
