(* ===== verification/Values.thy ===== *)
theory Values
  imports Go_Text Messages
begin

text \<open>
  The values of the program: the Go values that an \<open>interface{}\<close> of the CLIXML code can hold,
  the PowerShell objects (\<open>objects/objects.go\<close>, \<open>objects/hostinfo.go\<close>) and \<open>PSObject\<close>, with the
  conversions of the former into the latter (\<open>serialization/clixml.go\<close>).

  A map is an association list, read with \<open>map_of\<close>. A \<open>*PSObject\<close> is \<open>VPtr\<close>, an address of the
  store \<open>heap\<close>, where sharing and cycles matter, and \<open>VObject\<close> for a \<open>PSObject\<close> by value or a
  pointer that nothing else holds, such as the results of the conversions and of the
  deserializer. Nil pointers other than those into the store do not occur. A \<open>float64\<close> is its bit
  pattern, a \<open>time.Time\<close> an opaque number, a \<open>SecureString\<close> its encrypted bytes (the key never
  leaves package \<open>objects\<close>). A slice of any element type is \<open>VSlice\<close>. \<open>VOther\<close> is a value of a
  type that the serializer does not know, with the name of the type.
\<close>

datatype 'v psobject =
  PSObject
    (TypeNames: "string list")
    (Properties: "(string \<times> 'v) list")
    (Members: "(string \<times> 'v) list")
    (OrderedMemberKeys: "string list")
    (ObjToString: string)
    (ObjValue: 'v)

datatype exceptionInfo =
  ExceptionInfo (exType: string) (exMessage: string) (exStackTrace: string)
    (exInner: "exceptionInfo option")

datatype 'v invocationInfo =
  InvocationInfo
    (invMyCommand: string) (invBound: "(string \<times> 'v) list") (invUnbound: "'v list")
    (invScriptLineNumber: int) (invOffsetInLine: int) (invHistoryID: int)
    (invScriptName: string) (invLine: string) (invPositionMessage: string)
    (invPSScriptRoot: string) (invPSCommandPath: string) (invInvocationName: string)

record categoryInfo =
  catCategory :: int
  catActivity :: string
  catReason :: string
  catTargetName :: string
  catTargetType :: string

datatype 'v errorRecord =
  ErrorRecord
    (erException: exceptionInfo) (erTargetObject: 'v) (erFQId: string)
    (erInvocation: "'v invocationInfo option") (erCategory: categoryInfo)
    (erDetails: "(string \<times> string) option") (erIterationInfo: "int list")
    (erScriptStackTrace: string)

record progressRecord =
  prActivityID :: int
  prParentActivityID :: int
  prActivity :: string
  prStatusDescription :: string
  prCurrentOperation :: string
  prPercentComplete :: int
  prSecondsRemaining :: int
  prRecordType :: int

datatype 'v command =
  Command (cmdName: string) (cmdIsScript: bool) (cmdUseLocalScope: bool)
    (cmdMergeMyResult: string) (cmdParameters: "(string \<times> 'v) list")

datatype 'v hostInfo =
  HostInfo (hiData: "(string \<times> 'v) list") (hiIsHostNull: bool) (hiIsHostUINull: bool)
    (hiIsHostRawUINull: bool) (hiUseRunspaceHost: bool)

datatype 'v powershell =
  PowerShell (psCommands: "'v command list") (psIsNested: bool) (psNoInput: bool)
    (psApartmentState: int) (psRemoteStreamOptions: int) (psAddToHistory: bool)
    (psHostInfo: "'v hostInfo") (psRedirect: bool)

datatype goval =
    VNil
  | VString string
  | VInt int
  | VInt32 int
  | VInt64 int
  | VBool bool
  | VFloat uint64
  | VBytes bytes
  | VTime int
  | VUUID uuid
  | VSlice "goval list"
  | VMap "(string \<times> goval) list"
  | VGMap "(goval \<times> goval) list"
  | VPtr nat
  | VObject "goval psobject"
  | VEnum string int string
  | VTyped "string list" "goval list"
  | VSecure bytes
  | VScript string
  | VVersion int int int int
  | VError "goval errorRecord"
  | VProgress progressRecord
  | VPowerShell "goval powershell"
  | VCommand "goval command"
  | VParam string goval
  | VOther string

section \<open>PowerShell commands\<close>

definition NewPowerShell :: "goval powershell" where
  "NewPowerShell =
     PowerShell [] False False 0 0 False (HostInfo [] True True True True) False"

definition PowerShell_AddCommand :: "goval powershell \<Rightarrow> string \<Rightarrow> bool \<Rightarrow> goval powershell" where
  "PowerShell_AddCommand p name isScript =
     PowerShell (psCommands p @ [Command name isScript False ''None'' []])
       (psIsNested p) (psNoInput p) (psApartmentState p) (psRemoteStreamOptions p)
       (psAddToHistory p) (psHostInfo p) (psRedirect p)"

definition add_to_last :: "string \<Rightarrow> goval \<Rightarrow> goval command list \<Rightarrow> goval command list" where
  "add_to_last name v cs =
     (if cs = [] then []
      else let c = last cs in
        butlast cs @
        [Command (cmdName c) (cmdIsScript c) (cmdUseLocalScope c) (cmdMergeMyResult c)
           (cmdParameters c @ [(name, v)])])"

definition PowerShell_AddParameter :: "goval powershell \<Rightarrow> string \<Rightarrow> goval \<Rightarrow> goval powershell" where
  "PowerShell_AddParameter p name v =
     PowerShell (add_to_last name v (psCommands p))
       (psIsNested p) (psNoInput p) (psApartmentState p) (psRemoteStreamOptions p)
       (psAddToHistory p) (psHostInfo p) (psRedirect p)"

definition Version_String :: "int \<Rightarrow> int \<Rightarrow> int \<Rightarrow> int \<Rightarrow> string" where
  "Version_String a b c d = itoa a @ ''.'' @ itoa b @ ''.'' @ itoa c @ ''.'' @ itoa d"

section \<open>Conversion into PSObjects\<close>

definition MaxInt32 :: int where
  "MaxInt32 = 2147483647"

definition MinInt32 :: int where
  "MinInt32 = - 2147483648"

definition safeInt32 :: "int \<Rightarrow> int" where
  "safeInt32 v = (if MaxInt32 < v then MaxInt32 else if v < MinInt32 then MinInt32 else v)"

text \<open>A \<open>PSObject\<close> with properties only, and one with ordered members only.\<close>

definition props_object :: "string list \<Rightarrow> (string \<times> goval) list \<Rightarrow> string \<Rightarrow> goval psobject" where
  "props_object tns props s = PSObject tns props [] [] s VNil"

definition members_object :: "(string \<times> goval) list \<Rightarrow> goval psobject" where
  "members_object mems = PSObject [] [] mems (map fst mems) [] VNil"

text \<open>The entry that a guarded assignment adds to a map.\<close>

definition str_entry :: "string \<Rightarrow> string \<Rightarrow> (string \<times> goval) list" where
  "str_entry k s = (if s \<noteq> [] then [(k, VString s)] else [])"

definition exception_object :: "exceptionInfo \<Rightarrow> goval psobject" where
  "exception_object e =
     props_object [''System.Management.Automation.RuntimeException'']
       (str_entry ''Type'' (exType e) @ str_entry ''Message'' (exMessage e) @
        str_entry ''StackTrace'' (exStackTrace e)) []"

definition invocation_object :: "goval invocationInfo \<Rightarrow> goval psobject" where
  "invocation_object i =
     props_object [''System.Management.Automation.InvocationInfo'']
       (str_entry ''MyCommand'' (invMyCommand i) @
        (if 0 < invScriptLineNumber i then
           [(''ScriptLineNumber'',
             VInt32 (if MaxInt32 < invScriptLineNumber i then MaxInt32
                     else invScriptLineNumber i))]
         else []) @
        str_entry ''ScriptName'' (invScriptName i)) []"

definition category_object :: "categoryInfo \<Rightarrow> goval psobject" where
  "category_object c =
     props_object [''System.Management.Automation.ErrorCategoryInfo'']
       ((''Category'',
         VInt32 (if catCategory c < MinInt32 \<or> MaxInt32 < catCategory c then 0
                 else catCategory c)) #
        str_entry ''Activity'' (catActivity c) @ str_entry ''Reason'' (catReason c)) []"

definition ErrorRecordToPSObject :: "goval errorRecord \<Rightarrow> goval psobject" where
  "ErrorRecordToPSObject err =
     props_object [''System.Management.Automation.ErrorRecord'', ''System.Object'']
       ((if exType (erException err) \<noteq> [] \<or> exMessage (erException err) \<noteq> [] then
           [(''Exception'', VObject (exception_object (erException err)))] else []) @
        (if erTargetObject err \<noteq> VNil then [(''TargetObject'', erTargetObject err)] else []) @
        str_entry ''FullyQualifiedErrorId'' (erFQId err) @
        (case erInvocation err of
           None \<Rightarrow> []
         | Some i \<Rightarrow> [(''InvocationInfo'', VObject (invocation_object i))]) @
        [(''CategoryInfo'', VObject (category_object (erCategory err)))])
       (exMessage (erException err))"

definition ProgressRecordToPSObject :: "progressRecord \<Rightarrow> goval psobject" where
  "ProgressRecordToPSObject r =
     props_object [''System.Management.Automation.ProgressRecord'', ''System.Object'']
       [(''ActivityId'', VInt32 (safeInt32 (prActivityID r))),
        (''ParentActivityId'', VInt32 (safeInt32 (prParentActivityID r))),
        (''Activity'', VString (prActivity r)),
        (''StatusDescription'', VString (prStatusDescription r)),
        (''CurrentOperation'', VString (prCurrentOperation r)),
        (''PercentComplete'', VInt32 (safeInt32 (prPercentComplete r))),
        (''SecondsRemaining'', VInt32 (safeInt32 (prSecondsRemaining r))),
        (''RecordType'', VInt32 (safeInt32 (prRecordType r)))] []"

definition psobject_list_type :: string where
  "psobject_list_type =
     ''System.Collections.Generic.List`1[[System.Management.Automation.PSObject, '' @
     ''System.Management.Automation, Version=3.0.0.0, Culture=neutral, '' @
     ''PublicKeyToken=31bf3856ad364e35]]''"

text \<open>Named parameters keep their value, nil included; positional ones are dropped if it is nil.\<close>

definition param_objects :: "(string \<times> goval) list \<Rightarrow> goval list" where
  "param_objects ps =
     concat (map (\<lambda>(name, v).
       if name \<noteq> [] then [VObject (members_object [(''N'', VString name), (''V'', v)])]
       else if v \<noteq> VNil then [VObject (members_object [(''N'', VNil), (''V'', v)])]
       else []) ps)"

definition noneEnum :: goval where
  "noneEnum = VEnum ''System.Management.Automation.Runspaces.PipelineResultTypes'' 0 ''None''"

definition CommandToPSObject :: "goval command \<Rightarrow> goval psobject" where
  "CommandToPSObject c =
     members_object
       [(''Cmd'', VString (cmdName c)), (''IsScript'', VBool (cmdIsScript c)),
        (''UseLocalScope'', VNil), (''MergeMyResult'', noneEnum), (''MergeToResult'', noneEnum),
        (''MergePreviousResults'', noneEnum), (''MergeError'', noneEnum),
        (''MergeWarning'', noneEnum), (''MergeVerbose'', noneEnum), (''MergeDebug'', noneEnum),
        (''Args'', VTyped [psobject_list_type, ''System.Object'']
           (param_objects (cmdParameters c)))]"

text \<open>The members are not ordered here, so the serializer sorts them.\<close>

definition CommandParameterToPSObject :: "string \<Rightarrow> goval \<Rightarrow> goval psobject" where
  "CommandParameterToPSObject name v =
     PSObject [] [] [(''N'', VString name), (''V'', v)] [] [] VNil"

definition PowerShellToPSObject :: "goval powershell \<Rightarrow> goval psobject" where
  "PowerShellToPSObject p =
     members_object
       [(''NoInput'', VBool (psNoInput p)),
        (''ApartmentState'',
         VEnum ''System.Management.Automation.Runspaces.ApartmentState'' 2 ''UNKNOWN''),
        (''RemoteStreamOptions'',
         VEnum ''System.Management.Automation.Runspaces.RemoteStreamOptions'' 15
           ''AddInvocationInfo''),
        (''AddToHistory'', VBool False),
        (''HostInfo'', VObject (members_object
           [(''_isHostNull'', VBool True), (''_isHostUINull'', VBool True),
            (''_isHostRawUINull'', VBool True), (''_useRunspaceHost'', VBool True)])),
        (''PowerShell'', VObject (members_object
           [(''IsNested'', VBool (psIsNested p)), (''ExtraCmds'', VNil),
            (''Cmds'', VTyped [psobject_list_type, ''System.Object'']
               (map (\<lambda>c. VObject (CommandToPSObject c)) (psCommands p))),
            (''History'', VNil), (''RedirectShellErrorOutputPipe'', VBool False)])),
        (''IsNested'', VBool (psIsNested p))]"

end
