(* ===== verification/Clixml_String.thy ===== *)
theory Clixml_String
  imports Utf8
begin

text \<open>
  The string encoding of CLIXML (\<open>serialization/clixml_string.go\<close>): \<open>_xHHHH_\<close> escapes for
  control characters and, as surrogate pairs, for the supplementary planes, and the escaped
  underscore. Strings are bytes, as in Go; the encoder reads runes with \<open>DecodeRuneInString\<close>,
  the decoder reads bytes.
\<close>

unbundle bit_operations_syntax

section \<open>Definitions\<close>

definition hexDigits :: string where
  "hexDigits = ''0123456789ABCDEF''"

definition isHexDigit :: "char \<Rightarrow> bool" where
  "isHexDigit b \<longleftrightarrow>
     (48 \<le> code b \<and> code b \<le> 57) \<or> (97 \<le> code b \<and> code b \<le> 102) \<or> (65 \<le> code b \<and> code b \<le> 70)"

definition hex_value :: "char \<Rightarrow> uint16" where
  "hex_value c =
     (if 48 \<le> code c \<and> code c \<le> 57 then of_nat (code c - 48)
      else if 97 \<le> code c \<and> code c \<le> 102 then of_nat (code c - 97 + 10)
      else if 65 \<le> code c \<and> code c \<le> 70 then of_nat (code c - 65 + 10)
      else 0)"

definition parseHex4 :: "string \<Rightarrow> uint16" where
  "parseHex4 s = foldl (\<lambda>val c. push_bit 4 val OR hex_value c) 0 s"

definition writeHex4 :: "uint16 \<Rightarrow> string" where
  "writeHex4 v =
     ''_x'' @ [hexDigits ! unat (drop_bit 12 v AND 15), hexDigits ! unat (drop_bit 8 v AND 15),
               hexDigits ! unat (drop_bit 4 v AND 15), hexDigits ! unat (v AND 15)] @ ''_''"

definition needsCLIXMLCharEscape :: "nat \<Rightarrow> bool" where
  "needsCLIXMLCharEscape r \<longleftrightarrow>
     r \<le> 31 \<or> (127 \<le> r \<and> r \<le> 159) \<or> (55296 \<le> r \<and> r \<le> 57343) \<or> 65535 < r"

definition starts_x :: "string \<Rightarrow> bool" where
  "starts_x s = (case s of [] \<Rightarrow> False | c # _ \<Rightarrow> c = CHR ''x'' \<or> c = CHR ''X'')"

fun containsCLIXMLEscape :: "string \<Rightarrow> bool" where
  "containsCLIXMLEscape [] = False"
| "containsCLIXMLEscape (c # cs) = (c = CHR ''_'' \<and> starts_x cs \<or> containsCLIXMLEscape cs)"

function needsCLIXMLEncoding :: "string \<Rightarrow> bool" where
  "needsCLIXMLEncoding s =
     (if s = [] then False
      else let (r, size) = decode_rune s in
        needsCLIXMLCharEscape r \<or> (r = 95 \<and> starts_x (drop size s)) \<or>
        needsCLIXMLEncoding (drop size s))"
  by pat_completeness auto
termination
  by (relation "measure length") (auto dest: decode_rune_less)

declare needsCLIXMLEncoding.simps [simp del]

definition escaped_rune :: "nat \<Rightarrow> string" where
  "escaped_rune r =
     (if needsCLIXMLCharEscape r then
        (if 65535 < r then
           (case utf16_EncodeRune r of (high, low) \<Rightarrow>
              writeHex4 (of_nat high) @ writeHex4 (of_nat low))
         else writeHex4 (of_nat r))
      else encode_rune r)"

function encode_loop :: "string \<Rightarrow> string" where
  "encode_loop s =
     (if s = [] then []
      else let (r, size) = decode_rune s in
        (if r = 95 \<and> starts_x (drop size s) then ''_x005F_'' else escaped_rune r) @
        encode_loop (drop size s))"
  by pat_completeness auto
termination
  by (relation "measure length") (auto dest: decode_rune_less)

declare encode_loop.simps [simp del]

definition encodeCLIXMLString :: "string \<Rightarrow> string" where
  "encodeCLIXMLString s = (if needsCLIXMLEncoding s then encode_loop s else s)"

text \<open>The pattern \<open>_xHHHH_\<close> at the start of a string, and its code unit.\<close>

definition escape_at :: "string \<Rightarrow> uint16 option" where
  "escape_at s =
     (if 7 \<le> length s \<and> s ! 0 = CHR ''_'' \<and> (s ! 1 = CHR ''x'' \<or> s ! 1 = CHR ''X'') \<and>
         isHexDigit (s ! 2) \<and> isHexDigit (s ! 3) \<and> isHexDigit (s ! 4) \<and> isHexDigit (s ! 5) \<and>
         s ! 6 = CHR ''_''
      then Some (parseHex4 (slice s 2 6)) else None)"

function decode_loop :: "string \<Rightarrow> string" where
  "decode_loop s =
     (case s of
        [] \<Rightarrow> []
      | c # cs \<Rightarrow>
          (case escape_at s of
             None \<Rightarrow> c # decode_loop cs
           | Some codeUnit \<Rightarrow>
               if 0xD800 \<le> codeUnit \<and> codeUnit \<le> 0xDBFF then
                 (case escape_at (drop 7 s) of
                    Some low \<Rightarrow>
                      if 0xDC00 \<le> low \<and> low \<le> 0xDFFF then
                        encode_rune (utf16_DecodeRune (unat codeUnit) (unat low)) @
                        decode_loop (drop 14 s)
                      else encode_rune (unat codeUnit) @ decode_loop (drop 7 s)
                  | None \<Rightarrow> encode_rune (unat codeUnit) @ decode_loop (drop 7 s))
               else encode_rune (unat codeUnit) @ decode_loop (drop 7 s)))"
  by pat_completeness auto
termination
  by (relation "measure length") auto

declare decode_loop.simps [simp del]

definition decodeCLIXMLString :: "string \<Rightarrow> string" where
  "decodeCLIXMLString s = (if containsCLIXMLEscape s then decode_loop s else s)"

section \<open>Hexadecimal code units\<close>

lemma hex_digit_of:
  assumes "n < 16"
  shows "isHexDigit (hexDigits ! n) \<and> hex_value (hexDigits ! n) = of_nat n"
proof -
  have "list_all (\<lambda>n. isHexDigit (hexDigits ! n) \<and> hex_value (hexDigits ! n) = of_nat n) [0..<16]"
    by code_simp
  then show ?thesis using assms unfolding list_all_iff set_upt by auto
qed

lemma unat_and_15: "unat (v AND 15 :: uint16) = unat v mod 16"
proof -
  have "unat (v AND 15) = unat (v AND mask 4)" by (simp add: mask_eq_exp_minus_1)
  also have "\<dots> = take_bit 4 (unat v)" by (simp only: take_bit_eq_mask [symmetric] unsigned_take_bit_eq)
  also have "\<dots> = unat v mod 16" by (simp add: take_bit_eq_mod)
  finally show ?thesis .
qed

lemma shift_or_digit:
  assumes "n < 16" and "m < 4096"
  shows "push_bit 4 (of_nat m) OR of_nat n = (of_nat (m * 16 + n) :: uint16)"
proof -
  have "push_bit 4 m OR n = m * 16 + n"
  proof -
    have "push_bit 4 m AND n = 0"
    proof (rule bit_eqI)
      fix k
      have "\<not> bit n k" if "4 \<le> k"
      proof -
        have "n < 2 ^ k" using assms(1) that power_increasing [of 4 k "2 :: nat"] by simp
        then show ?thesis by (simp add: bit_iff_odd)
      qed
      then show "bit (push_bit 4 m AND n) k = bit (0 :: nat) k"
        by (auto simp: bit_and_iff bit_push_bit_iff)
    qed
    then have "push_bit 4 m OR n = push_bit 4 m + n" by (simp add: disjunctive_add_eq_or)
    then show ?thesis by (simp add: push_bit_eq_mult)
  qed
  moreover have "push_bit 4 (of_nat m) OR of_nat n = (of_nat (push_bit 4 m OR n) :: uint16)"
    by (simp add: of_nat_or_eq of_nat_push_bit)
  ultimately show ?thesis by simp
qed

definition hex4 :: "nat \<Rightarrow> nat \<Rightarrow> nat \<Rightarrow> nat \<Rightarrow> string" where
  "hex4 a b c d = [hexDigits ! a, hexDigits ! b, hexDigits ! c, hexDigits ! d]"

lemma parseHex4_hex4:
  assumes "a < 16" and "b < 16" and "c < 16" and "d < 16"
  shows "parseHex4 (hex4 a b c d) = of_nat (((a * 16 + b) * 16 + c) * 16 + d)"
proof -
  have v: "hex_value (hexDigits ! n) = of_nat n" if "n < 16" for n
    using hex_digit_of [OF that] by simp
  have step: "push_bit 4 (of_nat m) OR hex_value (hexDigits ! n) = of_nat (m * 16 + n)"
    if "n < 16" and "m < 4096" for m n
    using shift_or_digit [OF that] v [OF that(1)] by simp
  have 1: "push_bit 4 0 OR hex_value (hexDigits ! a) = of_nat a"
    using step [of a 0] assms by simp
  have 2: "push_bit 4 (of_nat a) OR hex_value (hexDigits ! b) = of_nat (a * 16 + b)"
    by (rule step) (use assms in simp_all)
  have 3: "push_bit 4 (of_nat (a * 16 + b)) OR hex_value (hexDigits ! c) =
      of_nat ((a * 16 + b) * 16 + c)"
    by (rule step) (use assms in simp_all)
  have 4: "push_bit 4 (of_nat ((a * 16 + b) * 16 + c)) OR hex_value (hexDigits ! d) =
      of_nat (((a * 16 + b) * 16 + c) * 16 + d)"
    by (rule step) (use assms in simp_all)
  show ?thesis unfolding parseHex4_def hex4_def foldl.simps 1 2 3 4 ..
qed

lemma writeHex4_eq:
  "writeHex4 v =
     ''_x'' @ hex4 (unat v div 4096) (unat v div 256 mod 16) (unat v div 16 mod 16) (unat v mod 16) @
     ''_''"
proof -
  have "unat v < 65536" using unat_lt_2p [of v] by simp
  then have "unat v div 4096 mod 16 = unat v div 4096" by simp
  then show ?thesis
    by (simp add: writeHex4_def hex4_def unat_and_15 unat_drop_bit_eq drop_bit_eq_div unat_div)
qed

lemma nth_append_small: "i < length xs \<Longrightarrow> (xs @ ys) ! i = xs ! i"
  by (simp add: nth_append)

lemma base16_digits:
  fixes n :: nat
  shows "((n div 4096 * 16 + n div 256 mod 16) * 16 + n div 16 mod 16) * 16 + n mod 16 = n"
proof -
  have 1: "n div 4096 = n div 256 div 16" and 2: "n div 256 = n div 16 div 16"
    by (simp_all add: div_mult2_eq [symmetric])
  have "n div 16 * 16 + n mod 16 = n" by simp
  moreover have "n div 256 * 16 + n div 16 mod 16 = n div 16" unfolding 2 by simp
  moreover have "n div 4096 * 16 + n div 256 mod 16 = n div 256" unfolding 1 by simp
  ultimately show ?thesis by metis
qed

lemma escape_at_writeHex4 [simp]: "escape_at (writeHex4 v @ rest) = Some v"
proof -
  let ?n = "unat v"
  have n: "?n div 4096 < 16" using unat_lt_2p [of v] by simp
  let ?h = "hex4 (?n div 4096) (?n div 256 mod 16) (?n div 16 mod 16) (?n mod 16)"
  have "parseHex4 ?h = of_nat (((?n div 4096 * 16 + ?n div 256 mod 16) * 16 + ?n div 16 mod 16)
      * 16 + ?n mod 16)"
    by (rule parseHex4_hex4) (use n in simp_all)
  then have p: "parseHex4 ?h = v" unfolding base16_digits by simp
  have d: "isHexDigit (hexDigits ! m)" if "m < 16" for m
    using hex_digit_of [OF that] by simp
  have sl: "slice (writeHex4 v @ rest) 2 6 = ?h"
    by (simp add: writeHex4_eq slice_def hex4_def)
  show ?thesis
    unfolding escape_at_def sl p using n d
    by (simp add: writeHex4_eq hex4_def)
qed

lemma length_writeHex4 [simp]: "length (writeHex4 v) = 7"
  by (simp add: writeHex4_def)

lemma escape_at_other: "c \<noteq> CHR ''_'' \<or> \<not> starts_x cs \<Longrightarrow> escape_at (c # cs) = None"
  by (cases cs) (auto simp: escape_at_def starts_x_def)

section \<open>The decoder step by step\<close>

lemma decode_loop_Nil [simp]: "decode_loop [] = []"
  by (simp add: decode_loop.simps)

lemma decode_loop_literal:
  "c \<noteq> CHR ''_'' \<or> \<not> starts_x cs \<Longrightarrow> decode_loop (c # cs) = c # decode_loop cs"
  by (subst decode_loop.simps) (simp add: escape_at_other)

lemma decode_loop_literals:
  "CHR ''_'' \<notin> set xs \<Longrightarrow> decode_loop (xs @ ys) = xs @ decode_loop ys"
  by (induction xs) (auto simp: decode_loop_literal)

lemma decode_loop_at:
  assumes "escape_at s = Some u"
  shows "decode_loop s =
    (if 0xD800 \<le> u \<and> u \<le> 0xDBFF then
       (case escape_at (drop 7 s) of
          Some low \<Rightarrow>
            if 0xDC00 \<le> low \<and> low \<le> 0xDFFF then
              encode_rune (utf16_DecodeRune (unat u) (unat low)) @ decode_loop (drop 14 s)
            else encode_rune (unat u) @ decode_loop (drop 7 s)
        | None \<Rightarrow> encode_rune (unat u) @ decode_loop (drop 7 s))
     else encode_rune (unat u) @ decode_loop (drop 7 s))"
proof -
  obtain c cs where "s = c # cs" using assms by (cases s) (auto simp: escape_at_def)
  then show ?thesis unfolding decode_loop.simps [of s] assms by simp
qed

lemma decode_loop_escape:
  assumes "\<not> (0xD800 \<le> v \<and> v \<le> 0xDBFF)"
  shows "decode_loop (writeHex4 v @ rest) = encode_rune (unat v) @ decode_loop rest"
  using assms by (auto simp: decode_loop_at [OF escape_at_writeHex4])

lemma decode_loop_pair:
  assumes "0xD800 \<le> v" and "v \<le> 0xDBFF" and "0xDC00 \<le> w" and "w \<le> 0xDFFF"
  shows "decode_loop (writeHex4 v @ writeHex4 w @ rest) =
    encode_rune (utf16_DecodeRune (unat v) (unat w)) @ decode_loop rest"
  using assms by (simp add: decode_loop_at [OF escape_at_writeHex4])

text \<open>The fast path of the decoder is its loop.\<close>

lemma decode_loop_plain: "\<not> containsCLIXMLEscape s \<Longrightarrow> decode_loop s = s"
  by (induction s rule: containsCLIXMLEscape.induct) (auto simp: decode_loop_literal)

lemma decodeCLIXMLString_eq: "decodeCLIXMLString s = decode_loop s"
  by (simp add: decodeCLIXMLString_def decode_loop_plain)

section \<open>The encoder rune by rune\<close>

fun enc_runes :: "nat list \<Rightarrow> string" where
  "enc_runes [] = []"
| "enc_runes (r # rs) =
     (if r = 95 \<and> (rs \<noteq> [] \<and> (hd rs = 120 \<or> hd rs = 88)) then ''_x005F_''
      else escaped_rune r) @ enc_runes rs"

lemma first_byte_ascii:
  "encode_valid r = c # cs \<Longrightarrow> code c < 128 \<Longrightarrow> valid_rune r \<Longrightarrow> r < 128 \<and> code c = r \<and> cs = []"
  by (auto simp: encode_valid_def valid_rune_def split: if_splits)

lemma code_eq_iff: "code c = code d \<longleftrightarrow> c = d"
  by simp

lemma starts_x_code: "starts_x (c # cs) \<longleftrightarrow> code c = 120 \<or> code c = 88"
proof -
  have "code (CHR ''x'') = 120" and "code (CHR ''X'') = 88" by (simp_all add: of_char_def)
  then show ?thesis unfolding starts_x_def list.case by (metis code_eq_iff)
qed

lemma starts_x_encode_valid:
  assumes "valid_rune r"
  shows "starts_x (encode_valid r @ rest) \<longleftrightarrow> r = 120 \<or> r = 88"
proof -
  obtain c cs where c: "encode_valid r = c # cs" by (cases "encode_valid r") auto
  show ?thesis
  proof (cases "code c < 128")
    case True
    with c assms show ?thesis using first_byte_ascii [of r c cs] by (auto simp: starts_x_code)
  next
    case False
    have "r \<noteq> 120" "r \<noteq> 88" using c False by (auto simp: encode_valid_def)
    with False c show ?thesis by (auto simp: starts_x_code)
  qed
qed

lemma starts_x_utf8:
  "\<forall>r\<in>set rs. valid_rune r \<Longrightarrow>
    starts_x (utf8 rs) \<longleftrightarrow> rs \<noteq> [] \<and> (hd rs = 120 \<or> hd rs = 88)"
  by (cases rs) (auto simp: starts_x_encode_valid, auto simp: starts_x_def)

lemma encode_loop_step:
  assumes "decode_rune s = (r, n)" and "s \<noteq> []"
  shows "encode_loop s =
    (if r = 95 \<and> starts_x (drop n s) then ''_x005F_'' else escaped_rune r) @
    encode_loop (drop n s)"
  unfolding encode_loop.simps [of s] using assms by simp

lemma needs_step:
  assumes "decode_rune s = (r, n)" and "s \<noteq> []"
  shows "needsCLIXMLEncoding s \<longleftrightarrow>
    needsCLIXMLCharEscape r \<or> (r = 95 \<and> starts_x (drop n s)) \<or> needsCLIXMLEncoding (drop n s)"
  unfolding needsCLIXMLEncoding.simps [of s] using assms by simp

lemma encode_loop_utf8:
  "\<forall>r\<in>set rs. valid_rune r \<Longrightarrow> encode_loop (utf8 rs) = enc_runes rs"
proof (induction rs)
  case Nil
  show ?case by (simp add: encode_loop.simps)
next
  case (Cons r rs)
  have "decode_rune (utf8 (r # rs)) = (r, length (encode_valid r))"
    using Cons.prems by (simp add: decode_encode_valid)
  from encode_loop_step [OF this] Cons show ?case by (simp add: starts_x_utf8)
qed

lemma fast_path_runes:
  "\<forall>r\<in>set rs. valid_rune r \<Longrightarrow> \<not> needsCLIXMLEncoding (utf8 rs) \<Longrightarrow> enc_runes rs = utf8 rs"
proof (induction rs)
  case Nil
  show ?case by simp
next
  case (Cons r rs)
  have "decode_rune (utf8 (r # rs)) = (r, length (encode_valid r))"
    using Cons.prems by (simp add: decode_encode_valid)
  from needs_step [OF this] Cons.prems
  have "\<not> needsCLIXMLCharEscape r" "\<not> (r = 95 \<and> starts_x (utf8 rs))"
    "\<not> needsCLIXMLEncoding (utf8 rs)" by auto
  with Cons show ?case by (auto simp: starts_x_utf8 escaped_rune_def)
qed

lemma encodeCLIXMLString_utf8:
  "\<forall>r\<in>set rs. valid_rune r \<Longrightarrow> encodeCLIXMLString (utf8 rs) = enc_runes rs"
  by (simp add: encodeCLIXMLString_def encode_loop_utf8 fast_path_runes)

lemma starts_x_writeHex4 [simp]: "\<not> starts_x (writeHex4 v @ rest)"
  by (simp add: writeHex4_def starts_x_def)

lemma starts_x_escaped:
  assumes "valid_rune r"
  shows "starts_x (escaped_rune r @ rest) \<Longrightarrow> r = 120 \<or> r = 88"
  using assms by (auto simp: escaped_rune_def starts_x_encode_valid split: if_splits prod.splits)

lemma starts_x_underscore [simp]: "\<not> starts_x (CHR ''_'' # s)" "\<not> starts_x []"
  by (simp_all add: starts_x_def)

lemma starts_x_enc_runes:
  "\<forall>r\<in>set rs. valid_rune r \<Longrightarrow> starts_x (enc_runes rs) \<Longrightarrow>
    rs \<noteq> [] \<and> (hd rs = 120 \<or> hd rs = 88)"
  by (cases rs) (auto split: if_splits dest: starts_x_escaped)

lemma underscore_not_in_encode_valid: "valid_rune r \<Longrightarrow> r \<noteq> 95 \<Longrightarrow> CHR ''_'' \<notin> set (encode_valid r)"
  using encode_valid_codes [of r "CHR ''_''"] by (auto simp: of_char_def)

lemma decode_escaped:
  assumes "valid_rune r" and "r = 95 \<Longrightarrow> \<not> starts_x rest"
  shows "decode_loop (escaped_rune r @ rest) = encode_valid r @ decode_loop rest"
proof (cases "needsCLIXMLCharEscape r")
  case False
  then have e: "escaped_rune r = encode_valid r" using assms(1) by (simp add: escaped_rune_def)
  show ?thesis
  proof (cases "r = 95")
    case True
    have "encode_valid 95 = ''_''" by code_simp
    with True have "encode_valid r = ''_''" by simp
    with e assms True show ?thesis by (simp add: decode_loop_literal)
  next
    case False
    with e show ?thesis
      using underscore_not_in_encode_valid [OF assms(1)] by (simp add: decode_loop_literals)
  qed
next
  case esc: True
  show ?thesis
  proof (cases "65535 < r")
    case False
    then have "unat (of_nat r :: uint16) = r" by (simp add: unat_of_nat)
    moreover have "\<not> (0xD800 \<le> (of_nat r :: uint16) \<and> (of_nat r :: uint16) \<le> 0xDBFF)"
      using assms(1) False
      by (auto simp: word_le_nat_alt unat_of_nat valid_rune_def)
    ultimately show ?thesis
      using esc False assms(1) by (simp add: escaped_rune_def decode_loop_escape)
  next
    case True
    then have r: "65536 \<le> r" "r \<le> 1114111" using assms(1) by (auto simp: valid_rune_def)
    obtain h l where hl: "utf16_EncodeRune r = (h, l)" by (cases "utf16_EncodeRune r")
    have b: "55296 \<le> h" "h < 56320" "56320 \<le> l" "l < 57344" "utf16_DecodeRune h l = r"
      using utf16_roundtrip [OF r] hl by simp_all
    have u: "unat (of_nat h :: uint16) = h" "unat (of_nat l :: uint16) = l"
      using b by (simp_all add: unat_of_nat)
    have "decode_loop (writeHex4 (of_nat h) @ writeHex4 (of_nat l) @ rest) =
        encode_rune (utf16_DecodeRune h l) @ decode_loop rest"
      using decode_loop_pair [of "of_nat h" "of_nat l" rest] b u
      by (simp add: word_le_nat_alt)
    with esc True hl b assms(1) show ?thesis by (simp add: escaped_rune_def)
  qed
qed

lemma decode_enc_runes:
  "\<forall>r\<in>set rs. valid_rune r \<Longrightarrow> decode_loop (enc_runes rs) = utf8 rs"
proof (induction rs)
  case Nil
  show ?case by simp
next
  case (Cons r rs)
  have esc: "''_x005F_'' = writeHex4 95" by code_simp
  have u: "encode_rune 95 = encode_valid 95" by (simp add: valid_rune_def)
  show ?case
  proof (cases "r = 95 \<and> rs \<noteq> [] \<and> (hd rs = 120 \<or> hd rs = 88)")
    case True
    then have "enc_runes (r # rs) = ''_x005F_'' @ enc_runes rs" by simp
    then have "enc_runes (r # rs) = writeHex4 95 @ enc_runes rs" unfolding esc .
    with True Cons show ?thesis by (simp add: decode_loop_escape u)
  next
    case False
    then have "enc_runes (r # rs) = escaped_rune r @ enc_runes rs" by auto
    moreover have "r = 95 \<Longrightarrow> \<not> starts_x (enc_runes rs)"
      using False starts_x_enc_runes [of rs] Cons.prems by auto
    ultimately show ?thesis using Cons by (simp add: decode_escaped)
  qed
qed

section \<open>Properties\<close>

text \<open>
  C27. For every valid UTF-8 string, decoding the CLIXML encoding gives the string back:
  control characters, supplementary planes and text that looks like an escape included.
\<close>

theorem clixml_string_roundtrip:
  assumes "\<forall>r\<in>set rs. valid_rune r"
  shows "decodeCLIXMLString (encodeCLIXMLString (utf8 rs)) = utf8 rs"
  using assms by (simp add: decodeCLIXMLString_eq encodeCLIXMLString_utf8 decode_enc_runes)

theorem clixml_string_roundtrip_witness:
  "decodeCLIXMLString (encodeCLIXMLString (utf8 [95, 120, 48, 48, 52, 49, 95, 13, 119070])) =
   utf8 [95, 120, 48, 48, 52, 49, 95, 13, 119070]"
  by (rule clixml_string_roundtrip) (simp add: valid_rune_def)

section \<open>The fast paths\<close>

lemma encode_invalid_byte:
  "encodeCLIXMLString [CHR 0xFF] = [CHR 0xFF]" "encode_loop [CHR 0xFF] = escaped_rune 65533"
proof -
  have "code (CHR 0xFF) = 255" by (simp add: of_char_def)
  then have d: "decode_rune [CHR 0xFF] = (65533, 1)" by (simp add: decode_rune_def RuneError_def)
  then have "\<not> needsCLIXMLEncoding [CHR 0xFF]"
    by (subst needsCLIXMLEncoding.simps)
      (simp add: needsCLIXMLCharEscape_def starts_x_def needsCLIXMLEncoding.simps [of "[]"])
  then show "encodeCLIXMLString [CHR 0xFF] = [CHR 0xFF]" by (simp add: encodeCLIXMLString_def)
  show "encode_loop [CHR 0xFF] = escaped_rune 65533"
    by (subst encode_loop.simps) (simp add: d encode_loop.simps [of "[]"])
qed

lemma encode_invalid_byte_differs: "encodeCLIXMLString [CHR 0xFF] \<noteq> encode_loop [CHR 0xFF]"
proof -
  have "[CHR 0xFF] \<noteq> escaped_rune 65533"
    by (simp add: escaped_rune_def needsCLIXMLCharEscape_def encode_rune_def valid_rune_def encode_valid_def)
  then show ?thesis by (simp add: encode_invalid_byte)
qed

text \<open>
  C24. The fast paths are right: a string without the start of an escape decodes to itself, so
  \<open>decodeCLIXMLString\<close> is its loop on every string; and on valid UTF-8 \<open>encodeCLIXMLString\<close> is its loop
  too, which escapes rune by rune. On other strings it is not: the loop replaces an invalid byte by
  U+FFFD, the fast path leaves it.
\<close>

theorem clixml_string_fast_paths:
  assumes "\<forall>r\<in>set rs. valid_rune r"
  shows "decodeCLIXMLString s = decode_loop s \<and>
    encodeCLIXMLString (utf8 rs) = encode_loop (utf8 rs) \<and> encodeCLIXMLString (utf8 rs) = enc_runes rs \<and>
    encodeCLIXMLString [CHR 0xFF] \<noteq> encode_loop [CHR 0xFF]"
  using encode_invalid_byte_differs decodeCLIXMLString_eq encodeCLIXMLString_utf8 [OF assms]
    encode_loop_utf8 [OF assms] by metis

theorem clixml_string_fast_paths_witness:
  "encodeCLIXMLString (utf8 [97, 128512]) = enc_runes [97, 128512] \<and>
   decodeCLIXMLString ''a_x'' = decode_loop ''a_x''"
proof -
  have "\<forall>r\<in>set [97, 128512]. valid_rune r" by (simp add: valid_rune_def)
  from clixml_string_fast_paths [OF this, of "''a_x''"] show ?thesis by blast
qed

end
