(* ===== verification/Xml.thy ===== *)
theory Xml
  imports Utf8
begin

text \<open>
  The part of Go's \<open>encoding/xml\<close> that the CLIXML code uses: \<open>EscapeText\<close>, and the tokens that
  a \<open>Decoder\<close> in its default strict mode returns. The scanner follows \<open>rawToken\<close>, \<open>text\<close> and
  \<open>Token\<close>; the consumers only look at start and end elements, at the local parts of names and at
  character data, so comments, processing instructions and directives are checked and dropped.
  All syntax errors are one error; the end of the input is \<open>io.EOF\<close> only outside every element.
  Element and attribute names outside ASCII are rejected (Go accepts the letters of XML 1.0).
\<close>

datatype xtok =
    XStart string "(string \<times> string) list"
  | XEnd string
  | XText string

type_synonym xname = "string \<times> string"

datatype rawtok =
    RStart xname "(string \<times> string) list"
  | REnd xname
  | RText string

section \<open>Characters and names\<close>

definition isInCharacterRange :: "nat \<Rightarrow> bool" where
  "isInCharacterRange r \<longleftrightarrow>
     r = 9 \<or> r = 10 \<or> r = 13 \<or> (32 \<le> r \<and> r \<le> 55295) \<or> (57344 \<le> r \<and> r \<le> 65533) \<or>
     (65536 \<le> r \<and> r \<le> 1114111)"

function x_valid :: "string \<Rightarrow> bool" where
  "x_valid s =
     (if s = [] then True
      else let (r, size) = decode_rune s in
        \<not> (r = RuneError \<and> size = 1) \<and> isInCharacterRange r \<and> x_valid (drop size s))"
  by pat_completeness auto
termination
  by (relation "measure length") (auto dest: decode_rune_less)

declare x_valid.simps [simp del]

definition is_letter :: "char \<Rightarrow> bool" where
  "is_letter c \<longleftrightarrow> (65 \<le> code c \<and> code c \<le> 90) \<or> (97 \<le> code c \<and> code c \<le> 122)"

definition is_digit :: "char \<Rightarrow> bool" where
  "is_digit c \<longleftrightarrow> 48 \<le> code c \<and> code c \<le> 57"

definition isNameByte :: "char \<Rightarrow> bool" where
  "isNameByte c \<longleftrightarrow>
     is_letter c \<or> is_digit c \<or> c = CHR ''_'' \<or> c = CHR '':'' \<or> c = CHR ''.'' \<or> c = CHR ''-''"

definition is_name_part :: "char \<Rightarrow> bool" where
  "is_name_part c \<longleftrightarrow> isNameByte c \<or> 128 \<le> code c"

definition ascii_name :: "string \<Rightarrow> bool" where
  "ascii_name n \<longleftrightarrow>
     list_all isNameByte n \<and>
     (case n of [] \<Rightarrow> False | c # _ \<Rightarrow> is_letter c \<or> c = CHR ''_'' \<or> c = CHR '':'')"

definition x_name :: "string \<Rightarrow> (string \<times> string) option" where
  "x_name s =
     (let name = takeWhile is_name_part s; rest = dropWhile is_name_part s in
      if rest \<noteq> [] \<and> ascii_name name then Some (name, rest) else None)"

definition split_name :: "string \<Rightarrow> xname" where
  "split_name n =
     (let space = takeWhile (\<lambda>c. c \<noteq> CHR '':'') n; rest = dropWhile (\<lambda>c. c \<noteq> CHR '':'') n in
      if rest = [] \<or> space = [] \<or> tl rest = [] then ([], n) else (space, tl rest))"

definition x_nsname :: "string \<Rightarrow> (xname \<times> string) option" where
  "x_nsname s =
     (case x_name s of
        None \<Rightarrow> None
      | Some (n, rest) \<Rightarrow>
          if 1 < count_list n (CHR '':'') then None else Some (split_name n, rest))"

definition is_space :: "char \<Rightarrow> bool" where
  "is_space c \<longleftrightarrow> code c = 32 \<or> code c = 13 \<or> code c = 10 \<or> code c = 9"

definition x_space :: "string \<Rightarrow> string" where
  "x_space s = dropWhile is_space s"

section \<open>Entities and text\<close>

definition is_hex :: "char \<Rightarrow> bool" where
  "is_hex c \<longleftrightarrow> is_digit c \<or> (97 \<le> code c \<and> code c \<le> 102) \<or> (65 \<le> code c \<and> code c \<le> 70)"

definition hex_nat :: "char \<Rightarrow> nat" where
  "hex_nat c =
     (if is_digit c then code c - 48 else if 97 \<le> code c then code c - 87 else code c - 55)"

definition number_in :: "nat \<Rightarrow> string \<Rightarrow> nat option" where
  "number_in base s =
     (if s = [] then None
      else let n = foldl (\<lambda>a c. a * base + hex_nat c) 0 s in
        if n \<le> MaxRune then Some n else None)"

definition x_charref :: "string \<Rightarrow> (string \<times> string) option" where
  "x_charref s =
     (let (base, digits, body) =
            (case s of
               c # cs \<Rightarrow> if c = CHR ''x'' then (16, is_hex, cs) else (10, is_digit, s)
             | [] \<Rightarrow> (10, is_digit, s)) in
      case dropWhile digits body of
        c # rest \<Rightarrow>
          if c = CHR '';'' then
            (case number_in base (takeWhile digits body) of
               Some n \<Rightarrow> Some (encode_rune n, rest)
             | None \<Rightarrow> None)
          else None
      | [] \<Rightarrow> None)"

definition entity_text :: "string \<Rightarrow> string option" where
  "entity_text n =
     (if n = ''lt'' then Some ''<'' else if n = ''gt'' then Some ''>''
      else if n = ''amp'' then Some ''&'' else if n = ''apos'' then Some [CHR 0x27]
      else if n = ''quot'' then Some ''\"'' else None)"

definition x_named :: "string \<Rightarrow> (string \<times> string) option" where
  "x_named s =
     (case dropWhile is_name_part s of
        c # rest \<Rightarrow>
          if c = CHR '';'' then
            (case entity_text (takeWhile is_name_part s) of
               Some t \<Rightarrow> Some (t, rest)
             | None \<Rightarrow> None)
          else None
      | [] \<Rightarrow> None)"

text \<open>The text after an ampersand.\<close>

definition x_entity :: "string \<Rightarrow> (string \<times> string) option" where
  "x_entity s =
     (case s of
        [] \<Rightarrow> None
      | c # cs \<Rightarrow> if c = CHR ''#'' then x_charref cs else x_named s)"

lemma dropWhile_shorter: "dropWhile P s = c # rest \<Longrightarrow> length rest < length s"
  using length_dropWhile_le [of P s] by simp

lemma x_entity_shorter: "x_entity s = Some (t, rest) \<Longrightarrow> length rest < length s"
  by (auto simp: x_entity_def x_charref_def x_named_def Let_def
      split: list.splits if_splits option.splits dest!: dropWhile_shorter)

function x_text ::
  "char option \<Rightarrow> bool \<Rightarrow> char \<Rightarrow> char \<Rightarrow> string \<Rightarrow> string \<Rightarrow> (string \<times> string) option"
  where
  "x_text quote cdata b0 b1 acc s =
     (case s of
        [] \<Rightarrow> if cdata then None else Some (rev acc, [])
      | b # s1 \<Rightarrow>
          if quote = None \<and> b0 = CHR '']'' \<and> b1 = CHR '']'' \<and> b = CHR ''>'' then
            (if cdata then Some (rev (drop 2 acc), s1) else None)
          else if b = CHR ''<'' \<and> \<not> cdata then
            (if quote \<noteq> None then None else Some (rev acc, s))
          else if quote = Some b then Some (rev acc, s1)
          else if b = CHR ''&'' \<and> \<not> cdata then
            (case x_entity s1 of
               None \<Rightarrow> None
             | Some (t, rest) \<Rightarrow> x_text quote cdata (CHR 0x00) (CHR 0x00) (rev t @ acc) rest)
          else x_text quote cdata b1 b
                 (if b = CHR 0x0D then CHR 0x0A # acc
                  else if b1 = CHR 0x0D \<and> b = CHR 0x0A then acc else b # acc) s1)"
  by pat_completeness auto
termination
  by (relation "measure (\<lambda>(q, cd, b0, b1, acc, s). length s)") (auto dest: x_entity_shorter)

declare x_text.simps [simp del]

definition x_checked_text :: "char option \<Rightarrow> bool \<Rightarrow> string \<Rightarrow> (string \<times> string) option" where
  "x_checked_text quote cdata s =
     (case x_text quote cdata (CHR 0x00) (CHR 0x00) [] s of
        None \<Rightarrow> None
      | Some (t, rest) \<Rightarrow> if x_valid t then Some (t, rest) else None)"

lemma x_text_le: "x_text q cd b0 b1 acc s = Some (t, rest) \<Longrightarrow> length rest \<le> length s"
proof (induction s arbitrary: b0 b1 acc rule: measure_induct_rule [where f = length])
  case (less s)
  have IH: "length rest \<le> length y"
    if "length y < length s" and "x_text q cd b0' b1' acc' y = Some (t, rest)" for y b0' b1' acc'
    using less.IH that by blast
  show ?case
  proof (cases s)
    case Nil
    then show ?thesis using less.prems by (subst (asm) x_text.simps) (auto split: if_splits)
  next
    case (Cons b s1)
    have E: "length rest \<le> Suc (length s1)"
      if "x_entity s1 = Some (u, r)" and "x_text q cd (CHR 0x00) (CHR 0x00) acc' r = Some (t, rest)"
      for u r acc'
      using x_entity_shorter [OF that(1)] IH [OF _ that(2)] Cons by simp
    have S: "length rest \<le> Suc (length s1)" if "x_text q cd b0' b1' acc' s1 = Some (t, rest)" for b0' b1' acc'
      using IH [OF _ that] Cons by simp
    show ?thesis
      using less.prems Cons
      by (subst (asm) x_text.simps) (auto split: if_splits option.splits intro: E S)
  qed
qed

lemma x_checked_text_le: "x_checked_text q cd s = Some (t, rest) \<Longrightarrow> length rest \<le> length s"
  by (auto simp: x_checked_text_def split: option.splits if_splits dest: x_text_le)

section \<open>Markup\<close>

lemma x_space_le [simp]: "length (x_space s) \<le> length s"
  by (simp add: x_space_def length_dropWhile_le)

lemma x_name_shorter: "x_name s = Some (n, rest) \<Longrightarrow> length rest < length s"
proof -
  assume a: "x_name s = Some (n, rest)"
  then have "takeWhile is_name_part s = n" and "dropWhile is_name_part s = rest" and "n \<noteq> []"
    by (auto simp: x_name_def Let_def ascii_name_def split: if_splits)
  then show ?thesis using takeWhile_dropWhile_id [of is_name_part s]
    by (metis length_append length_greater_0_conv less_add_same_cancel2)
qed

lemma x_nsname_shorter: "x_nsname s = Some (n, rest) \<Longrightarrow> length rest < length s"
  by (auto simp: x_nsname_def split: option.splits if_splits dest: x_name_shorter)

text \<open>One attribute, its name reduced to the local part.\<close>

definition x_attr :: "string \<Rightarrow> ((string \<times> string) \<times> string) option" where
  "x_attr s =
     (case x_nsname s of
        None \<Rightarrow> None
      | Some (n, r) \<Rightarrow>
          (case x_space r of
             [] \<Rightarrow> None
           | b # r1 \<Rightarrow>
               if b \<noteq> CHR ''='' then None
               else (case x_space r1 of
                       [] \<Rightarrow> None
                     | q # r2 \<Rightarrow>
                         if q = CHR ''\"'' \<or> q = CHR 0x27 then
                           (case x_checked_text (Some q) False r2 of
                              None \<Rightarrow> None
                            | Some (v, r3) \<Rightarrow> Some ((snd n, v), r3))
                         else None)))"

lemma x_space_Cons: "x_space s = c # rest \<Longrightarrow> length rest < length s"
  unfolding x_space_def by (rule dropWhile_shorter)

lemma x_attr_shorter: "x_attr s = Some (a, rest) \<Longrightarrow> length rest < length s"
  by (fastforce simp: x_attr_def split: option.splits list.splits if_splits
      dest: x_nsname_shorter x_space_Cons x_checked_text_le)

text \<open>The attributes of a start element, whether it closes itself, and the rest.\<close>

function x_attrs :: "string \<Rightarrow> ((string \<times> string) list \<times> bool \<times> string) option" where
  "x_attrs s =
     (let s1 = x_space s in
      case s1 of
        [] \<Rightarrow> None
      | b # r \<Rightarrow>
          if b = CHR ''/'' then
            (case r of
               c # r1 \<Rightarrow> if c = CHR ''>'' then Some ([], True, r1) else None
             | [] \<Rightarrow> None)
          else if b = CHR ''>'' then Some ([], False, r)
          else (case x_attr s1 of
                  None \<Rightarrow> None
                | Some (a, r1) \<Rightarrow>
                    (case x_attrs r1 of
                       None \<Rightarrow> None
                     | Some (as, closed, r2) \<Rightarrow> Some (a # as, closed, r2))))"
  by pat_completeness auto
termination
  by (relation "measure length")
    (auto dest!: x_attr_shorter intro: less_le_trans [OF _ x_space_le])

declare x_attrs.simps [simp del]

definition x_start :: "string \<Rightarrow> (rawtok list \<times> string) option" where
  "x_start s =
     (case x_nsname s of
        None \<Rightarrow> None
      | Some (n, r) \<Rightarrow>
          (case x_attrs r of
             None \<Rightarrow> None
           | Some (as, closed, r1) \<Rightarrow>
               Some (RStart n as # (if closed then [REnd n] else []), r1)))"

definition x_end :: "string \<Rightarrow> (rawtok list \<times> string) option" where
  "x_end s =
     (case x_nsname s of
        None \<Rightarrow> None
      | Some (n, r) \<Rightarrow>
          (case x_space r of
             b # r1 \<Rightarrow> if b = CHR ''>'' then Some ([REnd n], r1) else None
           | [] \<Rightarrow> None))"

fun x_until2 :: "char \<Rightarrow> char \<Rightarrow> string \<Rightarrow> (string \<times> string) option" where
  "x_until2 a b [] = None"
| "x_until2 a b [c] = None"
| "x_until2 a b (c # d # cs) =
     (if c = a \<and> d = b then Some ([], cs)
      else (case x_until2 a b (d # cs) of
              None \<Rightarrow> None
            | Some (t, rest) \<Rightarrow> Some (c # t, rest)))"

lemma x_until2_shorter: "x_until2 a b s = Some (t, rest) \<Longrightarrow> length rest < length s"
  by (induction a b s arbitrary: t rule: x_until2.induct)
    (auto split: if_splits option.splits simp: less_Suc_eq)

text \<open>\<open>procInst\<close>: the quoted value after \<open>param=\<close>, or the closed string.\<close>

definition is_quote :: "char \<Rightarrow> bool" where
  "is_quote c \<longleftrightarrow> c = CHR ''\"'' \<or> c = CHR 0x27"

function procInst :: "string \<Rightarrow> string \<Rightarrow> string" where
  "procInst p s =
     (if s = [] then []
      else if p = take (length p) s then
        (case drop (length p) s of
           [] \<Rightarrow> []
         | c # rest \<Rightarrow>
             if is_quote c then
               (if c \<in> set rest then takeWhile (\<lambda>x. x \<noteq> c) rest else [])
             else procInst p rest)
      else procInst p (tl s))"
  by pat_completeness auto
termination
proof (relation "measure (\<lambda>(p, s). length s)", goal_cases)
  case (2 p s c rest)
  then have "length (c # rest) \<le> length s" by (metis length_drop diff_le_self)
  then show ?case by simp
qed auto

declare procInst.simps [simp del]

definition lower :: "char \<Rightarrow> char" where
  "lower c = (if 65 \<le> code c \<and> code c \<le> 90 then char_of (code c + 32) else c)"

definition xml_decl_ok :: "string \<Rightarrow> bool" where
  "xml_decl_ok content =
     ((let ver = procInst ''version='' content in ver = [] \<or> ver = ''1.0'') \<and>
      (let enc = procInst ''encoding='' content in enc = [] \<or> map lower enc = ''utf-8''))"

definition x_pi :: "string \<Rightarrow> (rawtok list \<times> string) option" where
  "x_pi s =
     (case x_name s of
        None \<Rightarrow> None
      | Some (target, r) \<Rightarrow>
          (case x_until2 (CHR ''?'') (CHR ''>'') (x_space r) of
             None \<Rightarrow> None
           | Some (content, rest) \<Rightarrow>
               if target = ''xml'' \<and> \<not> xml_decl_ok content then None else Some ([], rest)))"

fun x_comment :: "char \<Rightarrow> char \<Rightarrow> string \<Rightarrow> string option" where
  "x_comment b0 b1 [] = None"
| "x_comment b0 b1 (b # s) =
     (if b0 = CHR ''-'' \<and> b1 = CHR ''-'' then (if b = CHR ''>'' then Some s else None)
      else x_comment b1 b s)"

lemma x_comment_shorter: "x_comment b0 b1 s = Some rest \<Longrightarrow> length rest < length s"
  by (induction b0 b1 s rule: x_comment.induct) (auto split: if_splits)

fun x_dir_comment :: "char \<Rightarrow> char \<Rightarrow> string \<Rightarrow> string option" where
  "x_dir_comment b0 b1 [] = None"
| "x_dir_comment b0 b1 (b # s) =
     (if b0 = CHR ''-'' \<and> b1 = CHR ''-'' \<and> b = CHR ''>'' then Some s else x_dir_comment b1 b s)"

lemma x_dir_comment_shorter: "x_dir_comment b0 b1 s = Some rest \<Longrightarrow> length rest < length s"
  by (induction b0 b1 s rule: x_dir_comment.induct) (auto split: if_splits)

text \<open>A directive after its first character: quotes, nested angle brackets and comments.\<close>

function x_directive :: "char option \<Rightarrow> nat \<Rightarrow> string \<Rightarrow> string option" where
  "x_directive inquote depth s =
     (case s of
        [] \<Rightarrow> None
      | b # r \<Rightarrow>
          if inquote = None \<and> b = CHR ''>'' \<and> depth = 0 then Some r
          else if inquote = Some b then x_directive None depth r
          else if inquote \<noteq> None then x_directive inquote depth r
          else if is_quote b then x_directive (Some b) depth r
          else if b = CHR ''>'' then x_directive None (depth - 1) r
          else if b = CHR ''<'' then
            (if take 3 r = ''!--'' then
               (case x_dir_comment (CHR 0x00) (CHR 0x00) (drop 3 r) of
                  None \<Rightarrow> None
                | Some rest \<Rightarrow> x_directive None depth rest)
             else x_directive None (depth + 1) r)
          else x_directive None depth r)"
  by pat_completeness auto
termination
  by (relation "measure (\<lambda>(q, d, s). length s)") (auto dest!: x_dir_comment_shorter)

declare x_directive.simps [simp del]

definition x_bang :: "string \<Rightarrow> (rawtok list \<times> string) option" where
  "x_bang s =
     (case s of
        [] \<Rightarrow> None
      | b # r \<Rightarrow>
          if b = CHR ''-'' then
            (case r of
               c # r1 \<Rightarrow>
                 if c = CHR ''-'' then
                   map_option (\<lambda>rest. ([], rest)) (x_comment (CHR 0x00) (CHR 0x00) r1)
                 else None
             | [] \<Rightarrow> None)
          else if b = CHR ''['' then
            (if take 6 r = ''CDATA['' then
               map_option (\<lambda>(t, rest). ([RText t], rest)) (x_checked_text None True (drop 6 r))
             else None)
          else map_option (\<lambda>rest. ([], rest)) (x_directive None 0 r))"

definition rawToken :: "string \<Rightarrow> (rawtok list \<times> string) option" where
  "rawToken s =
     (case s of
        [] \<Rightarrow> None
      | b # r \<Rightarrow>
          if b \<noteq> CHR ''<'' then
            map_option (\<lambda>(t, rest). ([RText t], rest)) (x_checked_text None False s)
          else (case r of
                  [] \<Rightarrow> None
                | c # r1 \<Rightarrow>
                    if c = CHR ''/'' then x_end r1
                    else if c = CHR ''?'' then x_pi r1
                    else if c = CHR ''!'' then x_bang r1
                    else x_start r))"

lemma x_attrs_shorter: "x_attrs s = Some (as, closed, rest) \<Longrightarrow> length rest < length s"
proof (induction s arbitrary: as rule: x_attrs.induct)
  case (1 s)
  show ?case
  proof (cases "x_space s")
    case Nil
    then show ?thesis using 1(2) by (subst (asm) x_attrs.simps) simp
  next
    case (Cons b r)
    have r: "length r < length s" using x_space_Cons [OF Cons] .
    have A: "length rest < length s"
      if "x_attr (b # r) = Some (a, r1)" and "x_attrs r1 = Some (as', closed, rest)"
        and "b \<noteq> CHR ''/''" and "b \<noteq> CHR ''>''" for a r1 as'
    proof -
      have "length r1 < length (b # r)" using x_attr_shorter [OF that(1)] .
      moreover have "length (b # r) \<le> length s" using x_space_le [of s] Cons by simp
      moreover have "length rest < length r1"
        by (rule 1(1) [OF refl Cons that(3,4) _ refl that(2)])
          (use Cons that(1) in simp)
      ultimately show ?thesis by linarith
    qed
    show ?thesis
      using 1(2) Cons r
      by (subst (asm) x_attrs.simps) (auto split: if_splits option.splits list.splits intro: A)
  qed
qed

lemma x_start_shorter: "x_start s = Some (ts, rest) \<Longrightarrow> length rest < length s"
  by (fastforce simp: x_start_def split: option.splits dest: x_nsname_shorter x_attrs_shorter)

lemma x_end_shorter: "x_end s = Some (ts, rest) \<Longrightarrow> length rest < length s"
  by (fastforce simp: x_end_def split: option.splits list.splits if_splits
      dest: x_nsname_shorter x_space_Cons)

lemma x_pi_shorter:
  assumes "x_pi s = Some (ts, rest)"
  shows "length rest < length s"
proof -
  obtain n r c where n: "x_name s = Some (n, r)"
    and c: "x_until2 (CHR ''?'') (CHR ''>'') (x_space r) = Some (c, rest)"
    using assms by (auto simp: x_pi_def split: option.splits if_splits)
  show ?thesis
    using x_name_shorter [OF n] x_until2_shorter [OF c] x_space_le [of r] by linarith
qed

lemma x_directive_shorter: "x_directive q d s = Some rest \<Longrightarrow> length rest < length s"
proof (induction s arbitrary: q d rule: measure_induct_rule [where f = length])
  case (less s)
  show ?case
  proof (cases s)
    case Nil
    then show ?thesis using less.prems by (subst (asm) x_directive.simps) simp
  next
    case (Cons b r)
    have S: "length rest < Suc (length r)" if "x_directive q' d' r = Some rest" for q' d'
      using less.IH [OF _ that] Cons by simp
    have C: "length rest < Suc (length r)"
      if "x_dir_comment x y (drop 3 r) = Some u" and "x_directive q' d' u = Some rest" for x y u q' d'
    proof -
      have "length u < length r" using x_dir_comment_shorter [OF that(1)] by simp
      then show ?thesis using less.IH [OF _ that(2)] Cons by simp
    qed
    show ?thesis
      using less.prems Cons
      by (subst (asm) x_directive.simps) (auto split: if_splits option.splits intro: S C)
  qed
qed

lemma x_bang_shorter: "x_bang s = Some (ts, rest) \<Longrightarrow> length rest < length s"
  by (fastforce simp: x_bang_def split: list.splits if_splits
      dest: x_comment_shorter x_directive_shorter x_checked_text_le)

lemma x_text_shorter:
  assumes "x_checked_text None False (b # r) = Some (t, rest)" and "b \<noteq> CHR ''<''"
  shows "length rest < length (b # r)"
proof -
  have E: "length rest < Suc (length r)"
    if "x_entity r = Some (u, v)" and "x_text q cd b0 b1 acc v = Some (t, rest)" for u v q cd b0 b1 acc
    using x_entity_shorter [OF that(1)] x_text_le [OF that(2)] by simp
  have S: "length rest < Suc (length r)" if "x_text q cd b0 b1 acc r = Some (t, rest)"
    for q cd b0 b1 acc
    using x_text_le [OF that] by simp
  show ?thesis using assms
    unfolding x_checked_text_def x_text.simps [of _ _ _ _ _ "b # r"]
    by (auto split: if_splits option.splits intro: E S)
qed

lemma rawToken_shorter: "rawToken s = Some (ts, rest) \<Longrightarrow> length rest < length s"
  by (auto simp: rawToken_def split: list.splits if_splits
      dest!: x_text_shorter x_end_shorter x_pi_shorter x_bang_shorter x_start_shorter)

section \<open>Tokens\<close>

text \<open>The stack of open elements; an end element must match the innermost one.\<close>

fun x_nest :: "xname list \<Rightarrow> rawtok list \<Rightarrow> xname list option" where
  "x_nest stk [] = Some stk"
| "x_nest stk (RStart n as # ts) = x_nest (n # stk) ts"
| "x_nest stk (REnd n # ts) =
     (case stk of [] \<Rightarrow> None | m # stk1 \<Rightarrow> if m = n then x_nest stk1 ts else None)"
| "x_nest stk (RText t # ts) = x_nest stk ts"

fun x_tok :: "rawtok \<Rightarrow> xtok" where
  "x_tok (RStart n as) = XStart (snd n) as"
| "x_tok (REnd n) = XEnd (snd n)"
| "x_tok (RText t) = XText t"

definition syntax_error :: gerr where
  "syntax_error = EMsg ''XML syntax error''"

text \<open>All tokens of a document, and the error that \<open>Token\<close> returns after the last one.\<close>

function x_tokens :: "xname list \<Rightarrow> string \<Rightarrow> xtok list \<times> gerr" where
  "x_tokens stk s =
     (if s = [] then ([], if stk = [] then EIs IoEOF else syntax_error)
      else case rawToken s of
        None \<Rightarrow> ([], syntax_error)
      | Some (ts, rest) \<Rightarrow>
          (case x_nest stk ts of
             None \<Rightarrow> ([], syntax_error)
           | Some stk1 \<Rightarrow> let (us, e) = x_tokens stk1 rest in (map x_tok ts @ us, e)))"
  by pat_completeness auto
termination
  by (relation "measure (\<lambda>(stk, s). length s)") (auto dest: rawToken_shorter)

declare x_tokens.simps [simp del]

definition xml_tokens :: "string \<Rightarrow> xtok list \<times> gerr" where
  "xml_tokens s = x_tokens [] s"

section \<open>EscapeText\<close>

definition escape_one :: "nat \<Rightarrow> nat \<Rightarrow> string \<Rightarrow> string" where
  "escape_one r width raw =
     (if r = 34 then ''&#34;'' else if r = 39 then ''&#39;'' else if r = 38 then ''&amp;''
      else if r = 60 then ''&lt;'' else if r = 62 then ''&gt;'' else if r = 9 then ''&#x9;''
      else if r = 10 then ''&#xA;'' else if r = 13 then ''&#xD;''
      else if \<not> isInCharacterRange r \<or> (r = RuneError \<and> width = 1) then encode_rune RuneError
      else raw)"

function xml_EscapeText :: "string \<Rightarrow> string" where
  "xml_EscapeText s =
     (if s = [] then []
      else let (r, size) = decode_rune s in
        escape_one r size (take size s) @ xml_EscapeText (drop size s))"
  by pat_completeness auto
termination
  by (relation "measure length") (auto dest: decode_rune_less)

declare xml_EscapeText.simps [simp del]

end
