(* ===== verification/Clixml_Serialize.thy ===== *)
theory Clixml_Serialize
  imports Values Clixml_String Xml Base64 "HOL-Library.Char_ord"
begin

text \<open>
  The CLIXML serializer (\<open>serialization/clixml.go\<close>). Its state is the buffer, the counter of
  reference ids, the references to the \<open>PSObject\<close> pointers written so far and those to the lists
  of type names. Every operation returns the state also when it fails, as the Go code leaves it.
\<close>

section \<open>Termination\<close>

fun weight :: "goval \<Rightarrow> nat" where
  "weight VNil = 0"
| "weight (VSlice xs) = Suc (sum_list (map weight xs))"
| "weight (VTyped tns xs) = Suc (sum_list (map weight xs))"
| "weight (VMap m) = Suc (sum_list (map (\<lambda>(k, v). weight v) m))"
| "weight (VGMap m) = Suc (sum_list (map (\<lambda>(k, v). weight k + weight v) m))"
| "weight (VObject (PSObject tns ps ms ks s v)) =
     Suc (Suc (sum_list (map (\<lambda>(k, v). weight v) ps) + sum_list (map (\<lambda>(k, v). weight v) ms)))"
| "weight (VError (ErrorRecord ex t fq iv ca dt it st)) = 30 + weight t"
| "weight (VProgress r) = 20"
| "weight (VPowerShell (PowerShell cs n ni ap ro ah hi rd)) =
     40 + sum_list (map (\<lambda>c. case c of Command nm sc ls mr ps \<Rightarrow>
       30 + sum_list (map (\<lambda>(k, v). 5 + weight v) ps)) cs)"
| "weight (VCommand (Command nm sc ls mr ps)) = 30 + sum_list (map (\<lambda>(k, v). 5 + weight v) ps)"
| "weight (VParam n v) = 10 + weight v"
| "weight _ = 1"

lemma sum_list_member: "x \<in> set xs \<Longrightarrow> f x \<le> (sum_list (map f xs) :: nat)"
  by (rule member_le_sum_list) auto

lemma weight_params:
  "sum_list (map weight (param_objects ps)) \<le> sum_list (map (\<lambda>(k, v). 5 + weight v) ps)"
  by (induction ps) (auto simp: param_objects_def members_object_def)

lemma weight_command: "weight (VObject (CommandToPSObject c)) \<le> weight (VCommand c) - 5"
proof (cases c)
  case (Command nm sc ls mr ps)
  then show ?thesis
    using weight_params [of ps] by (simp add: CommandToPSObject_def members_object_def noneEnum_def)
qed

lemma weight_commands:
  "sum_list (map (\<lambda>c. weight (VObject (CommandToPSObject c))) cs) \<le>
   sum_list (map (\<lambda>c. case c of Command nm sc ls mr ps \<Rightarrow>
       30 + sum_list (map (\<lambda>(k, v). 5 + weight v) ps)) cs)"
proof (induction cs)
  case (Cons c cs)
  then show ?case using weight_command [of c] by (cases c) auto
qed simp

lemma weight_powershell: "weight (VObject (PowerShellToPSObject p)) < weight (VPowerShell p)"
proof (cases p)
  case (PowerShell cs n ni ap ro ah hi rd)
  then show ?thesis
    using weight_commands [of cs]
    by (simp add: PowerShellToPSObject_def members_object_def comp_def)
qed

lemma weight_str_entry: "sum_list (map (\<lambda>(k, v). weight v) (str_entry k s)) \<le> 1"
  by (simp add: str_entry_def)

lemma weight_error: "weight (VObject (ErrorRecordToPSObject e)) < weight (VError e)"
proof -
  note str_entry_def [simp]
  have x: "weight (VObject (exception_object x)) \<le> 5" for x
    by (simp add: exception_object_def props_object_def)
  have i: "weight (VObject (invocation_object i)) \<le> 5" for i
    by (simp add: invocation_object_def props_object_def)
  have c: "weight (VObject (category_object c)) \<le> 5" for c
    by (simp add: category_object_def props_object_def)
  obtain ex t fq iv ca dt it st where e: "e = ErrorRecord ex t fq iv ca dt it st" by (cases e)
  show ?thesis
    using x [of ex] c [of ca] i [of "the iv"]
    by (cases iv) (simp_all add: e ErrorRecordToPSObject_def props_object_def)
qed

lemma weight_progress: "weight (VObject (ProgressRecordToPSObject r)) < weight (VProgress r)"
  by (simp add: ProgressRecordToPSObject_def props_object_def)

section \<open>State and environment\<close>

type_synonym heap = "(nat, goval psobject) fmap"

text \<open>
  What the serializers use and this development does not define: the text of floating point
  numbers and times, the third-party \<open>uuid\<close> package, \<open>fmt\<close>'s \<open>%v\<close>, the creation of a
  \<open>SecureString\<close> (random key) and the user's encryption provider.
\<close>

record codec_env =
  format_float :: "uint64 \<Rightarrow> string"
  parse_float :: "string \<Rightarrow> uint64 option"
  format_time :: "int \<Rightarrow> string"
  parse_time :: "string \<Rightarrow> int option"
  uuid_String :: "uuid \<Rightarrow> string"
  uuid_Parse :: "string \<Rightarrow> uuid option"
  sprint_v :: "goval \<Rightarrow> string"
  NewSecureString :: "bytes \<Rightarrow> bytes outcome"

text \<open>\<open>PSObject.String\<close>; \<open>None\<close> is the nil pointer. A property that is a \<open>PSObject\<close> is \<open>VObject\<close>.\<close>

definition exception_message :: "codec_env \<Rightarrow> (string \<times> goval) list \<Rightarrow> string option" where
  "exception_message E props =
     (case map_of props ''Exception'' of
        Some (VObject ex) \<Rightarrow> map_option (sprint_v E) (map_of (Properties ex) ''Message'')
      | _ \<Rightarrow> None)"

definition PSObject_String :: "codec_env \<Rightarrow> goval psobject option \<Rightarrow> string" where
  "PSObject_String E x =
     (case x of
        None \<Rightarrow> ''<nil>''
      | Some ob \<Rightarrow>
          if ObjToString ob \<noteq> [] then ObjToString ob
          else if ObjValue ob \<noteq> VNil then sprint_v E (ObjValue ob)
          else case exception_message E (Properties ob) of
            Some m \<Rightarrow> m
          | None \<Rightarrow>
              let fallback = (if TypeNames ob \<noteq> [] then hd (TypeNames ob) else ''PSObject'') in
              case map_of (Properties ob) ''ExceptionAsErrorRecord'' of
                Some (VObject ex) \<Rightarrow>
                  (case exception_message E (Properties ex) of
                     Some m \<Rightarrow> m
                   | None \<Rightarrow> if ObjToString ex \<noteq> [] then ObjToString ex else fallback)
              | _ \<Rightarrow> fallback)"

record serializer =
  buf :: string
  refCounter :: int
  objRefs :: "(nat, int) fmap"
  tnRefs :: "(string, int) fmap"
  encryptor :: "(bytes \<Rightarrow> bytes outcome) option"

definition NewSerializerWithEncryption :: "(bytes \<Rightarrow> bytes outcome) option \<Rightarrow> serializer" where
  "NewSerializerWithEncryption e =
     \<lparr>buf = [], refCounter = 0, objRefs = fmempty, tnRefs = fmempty, encryptor = e\<rparr>"

definition NewSerializer :: serializer where
  "NewSerializer = NewSerializerWithEncryption None"

definition Serializer_Reset :: "serializer \<Rightarrow> serializer" where
  "Serializer_Reset s =
     s\<lparr>buf := [], refCounter := 0, objRefs := fmempty, tnRefs := fmempty, encryptor := None\<rparr>"

definition wr :: "string \<Rightarrow> serializer \<Rightarrow> serializer" where
  "wr t s = s\<lparr>buf := buf s @ t\<rparr>"

section \<open>Scalars\<close>

definition attr_N :: "string \<Rightarrow> string" where
  "attr_N name = (if name = [] then [] else '' N=\"'' @ name @ ''\"'')"

definition open_tag :: "string \<Rightarrow> string \<Rightarrow> string" where
  "open_tag tag name = ''<'' @ tag @ attr_N name @ ''>''"

definition close_tag :: "string \<Rightarrow> string" where
  "close_tag tag = ''</'' @ tag @ ''>''"

definition element :: "string \<Rightarrow> string \<Rightarrow> string \<Rightarrow> string" where
  "element tag name body = open_tag tag name @ body @ close_tag tag"

definition needsXMLEscape :: "string \<Rightarrow> bool" where
  "needsXMLEscape s =
     list_ex (\<lambda>c. c = CHR ''<'' \<or> c = CHR ''>'' \<or> c = CHR ''&'' \<or> c = CHR 0x27 \<or> c = CHR ''\"'') s"

definition string_body :: "string \<Rightarrow> string" where
  "string_body val =
     (let encoded = encodeCLIXMLString val in
      if needsXMLEscape encoded then xml_EscapeText encoded else encoded)"

definition serializeNil :: "string \<Rightarrow> serializer \<Rightarrow> serializer" where
  "serializeNil name s = wr (''<Nil'' @ attr_N name @ ''/>'') s"

definition serializeStringFast :: "string \<Rightarrow> string \<Rightarrow> serializer \<Rightarrow> serializer" where
  "serializeStringFast val name s = wr (element ''S'' name (string_body val)) s"

definition serializeInt32Fast :: "int \<Rightarrow> string \<Rightarrow> serializer \<Rightarrow> serializer" where
  "serializeInt32Fast val name s = wr (element ''I32'' name (itoa val)) s"

definition serializeInt64Fast :: "int \<Rightarrow> string \<Rightarrow> serializer \<Rightarrow> serializer" where
  "serializeInt64Fast val name s = wr (element ''I64'' name (itoa val)) s"

definition serializeBoolFast :: "bool \<Rightarrow> string \<Rightarrow> serializer \<Rightarrow> serializer" where
  "serializeBoolFast val name s =
     wr (element ''B'' name (if val then ''true'' else ''false'')) s"

definition serializeFloat64Fast ::
  "codec_env \<Rightarrow> uint64 \<Rightarrow> string \<Rightarrow> serializer \<Rightarrow> serializer" where
  "serializeFloat64Fast E val name s = wr (element ''Db'' name (format_float E val)) s"

definition serializeByteArrayFast :: "bytes \<Rightarrow> string \<Rightarrow> serializer \<Rightarrow> serializer" where
  "serializeByteArrayFast val name s = wr (element ''BA'' name (b64_encode val)) s"

definition serializeTimeFast ::
  "codec_env \<Rightarrow> int \<Rightarrow> string \<Rightarrow> serializer \<Rightarrow> serializer" where
  "serializeTimeFast E val name s = wr (element ''DT'' name (format_time E val)) s"

definition serializeUUIDFast ::
  "codec_env \<Rightarrow> uuid \<Rightarrow> string \<Rightarrow> serializer \<Rightarrow> serializer" where
  "serializeUUIDFast E val name s = wr (element ''G'' name (uuid_String E val)) s"

definition serializeVersionFast ::
  "int \<Rightarrow> int \<Rightarrow> int \<Rightarrow> int \<Rightarrow> string \<Rightarrow> serializer \<Rightarrow> serializer" where
  "serializeVersionFast a b c d name s =
     wr (element ''Version'' name (Version_String a b c d)) s"

definition serializeSecureStringFast ::
  "bytes \<Rightarrow> string \<Rightarrow> serializer \<Rightarrow> serializer \<times> unit outcome" where
  "serializeSecureStringFast val name s =
     (let s1 = wr (open_tag ''SS'' name) s in
      case (case encryptor s of
              None \<Rightarrow> Ret val
            | Some enc \<Rightarrow> wrap_err ''encrypt secure string'' (enc val)) of
        Ret d \<Rightarrow> ok (wr (b64_encode d @ close_tag ''SS'') s1)
      | Fail e \<Rightarrow> (s1, Fail e)
      | Panic p \<Rightarrow> (s1, Panic p))"

definition serializeScriptBlockFast :: "string \<Rightarrow> string \<Rightarrow> serializer \<Rightarrow> serializer" where
  "serializeScriptBlockFast val name s =
     wr (element ''SB'' name (xml_EscapeText (encodeCLIXMLString val))) s"

section \<open>References and type names\<close>

definition writeObjRef :: "int \<Rightarrow> string \<Rightarrow> serializer \<Rightarrow> serializer" where
  "writeObjRef refID name s =
     wr (''<Ref'' @ attr_N name @ '' RefId=\"'' @ itoa refID @ ''\"/>'') s"

definition open_obj :: "string \<Rightarrow> serializer \<Rightarrow> serializer" where
  "open_obj name s =
     wr (''<Obj'' @ attr_N name @ '' RefId=\"'' @ itoa (refCounter s) @ ''\">'')
       (s\<lparr>refCounter := refCounter s + 1\<rparr>)"

definition addObjRef :: "nat option \<Rightarrow> int \<Rightarrow> serializer \<Rightarrow> serializer" where
  "addObjRef a refID s =
     (case a of None \<Rightarrow> s | Some p \<Rightarrow> s\<lparr>objRefs := fmupd p refID (objRefs s)\<rparr>)"

fun join :: "string \<Rightarrow> string list \<Rightarrow> string" where
  "join sep [] = []"
| "join sep [x] = x"
| "join sep (x # y # zs) = x @ sep @ join sep (y # zs)"

text \<open>
  The type names of an object: a reference if the same key was written before, the list (whose
  elements are \<open>body\<close>) otherwise.
\<close>

definition write_typenames :: "string \<Rightarrow> string \<Rightarrow> serializer \<Rightarrow> serializer" where
  "write_typenames tnKey body s =
     (case fmlookup (tnRefs s) tnKey of
        Some r \<Rightarrow> wr (''<TNRef RefId=\"'' @ itoa r @ ''\"/>'') s
      | None \<Rightarrow>
          let r = int (fmsize (tnRefs s)) in
          wr (''<TN RefId=\"'' @ itoa r @ ''\">'' @ body @ ''</TN>'')
            (s\<lparr>tnRefs := fmupd tnKey r (tnRefs s)\<rparr>))"

definition tn_body :: "(string \<Rightarrow> string) \<Rightarrow> string list \<Rightarrow> string" where
  "tn_body esc tns = concat (map (\<lambda>t. ''<T>'' @ esc t @ ''</T>'') tns)"

definition array_types :: "string list" where
  "array_types = [''System.Object[]'', ''System.Array'', ''System.Object'']"

definition typeNameHashtable :: string where
  "typeNameHashtable = ''System.Collections.Hashtable''"

definition hashtable_types :: "string list" where
  "hashtable_types = [typeNameHashtable, ''System.Object'']"

definition serializePSRPEnumFast ::
  "string \<Rightarrow> int \<Rightarrow> string \<Rightarrow> string \<Rightarrow> serializer \<Rightarrow> serializer" where
  "serializePSRPEnumFast ty val str name s =
     (let tnKey = ty @ ''|System.Enum|System.ValueType|System.Object'';
          s1 = write_typenames tnKey
                 (tn_body id [ty, ''System.Enum'', ''System.ValueType'', ''System.Object''])
                 (open_obj name s) in
      wr (''<ToString>'' @ xml_EscapeText (encodeCLIXMLString str) @ ''</ToString>'' @
          ''<I32>'' @ itoa val @ ''</I32>'' @ ''</Obj>'') s1)"

section \<open>Composite values\<close>

text \<open>The start of a list or a hashtable, up to its first element.\<close>

definition array_open :: "string \<Rightarrow> serializer \<Rightarrow> serializer" where
  [simp]: "array_open name s =
     wr ''<LST>'' (write_typenames (join ''|'' array_types) (tn_body id array_types) (open_obj name s))"

definition typed_list_open :: "string list \<Rightarrow> string \<Rightarrow> serializer \<Rightarrow> serializer" where
  [simp]: "typed_list_open tns name s =
     wr ''<LST>''
       (if tns \<noteq> [] then write_typenames (join ''|'' tns) (tn_body id tns) (open_obj name s)
        else open_obj name s)"

definition hashtable_open :: "string \<Rightarrow> serializer \<Rightarrow> serializer" where
  [simp]: "hashtable_open name s =
     wr ''<DCT>'' (write_typenames typeNameHashtable (tn_body id hashtable_types) (open_obj name s))"

definition generic_map_open :: "string \<Rightarrow> serializer \<Rightarrow> serializer" where
  [simp]: "generic_map_open name s =
     wr ''<DCT>''
       (write_typenames (join ''|'' hashtable_types) (tn_body id hashtable_types) (open_obj name s))"

definition lookup_or_nil :: "(string \<times> goval) list \<Rightarrow> string \<Rightarrow> goval" where
  "lookup_or_nil m k = (case map_of m k of None \<Rightarrow> VNil | Some v \<Rightarrow> v)"

definition map_keys :: "(string \<times> goval) list \<Rightarrow> string list" where
  "map_keys m = sort (remdups (map fst m))"

definition member_keys :: "goval psobject \<Rightarrow> string list" where
  "member_keys ob =
     (if OrderedMemberKeys ob \<noteq> [] then OrderedMemberKeys ob else map_keys (Members ob))"

text \<open>An object up to its members: start tag, type names and string form.\<close>

definition obj_head :: "nat option \<Rightarrow> goval psobject \<Rightarrow> string \<Rightarrow> serializer \<Rightarrow> serializer" where
  "obj_head a ob name s =
     (let s1 = addObjRef a (refCounter s) (open_obj name s);
          s2 = (if TypeNames ob \<noteq> [] then
                  write_typenames (join ''|'' (TypeNames ob))
                    (tn_body xml_EscapeText (TypeNames ob)) s1
                else s1) in
      if ObjToString ob \<noteq> [] then
        wr (''<ToString>'' @ xml_EscapeText (encodeCLIXMLString (ObjToString ob)) @
            ''</ToString>'') s2
      else s2)"

abbreviation map_weight :: "(string \<times> goval) list \<Rightarrow> nat" where
  "map_weight m \<equiv> sum_list (map (\<lambda>(k, v). weight v) m)"

lemma weight_lookup: "weight (lookup_or_nil m k) \<le> map_weight m"
proof (cases "map_of m k")
  case None
  then show ?thesis by (simp add: lookup_or_nil_def)
next
  case (Some v)
  then have "(k, v) \<in> set m" by (rule map_of_SomeD)
  from sum_list_member [OF this, of "\<lambda>(k, v). weight v"] Some show ?thesis
    by (simp add: lookup_or_nil_def)
qed

lemma weight_object: "weight (VObject ob) = Suc (Suc (map_weight (Properties ob) + map_weight (Members ob)))"
  by (cases ob) simp

lemma weight_members_less: "map_weight (Members ob) < weight (VObject ob)"
  and weight_properties_less: "map_weight (Properties ob) < weight (VObject ob)"
  by (simp_all add: weight_object)

lemma weight_command_less: "weight (VObject (CommandToPSObject c)) < weight (VCommand c)"
  using weight_command [of c] by (cases c) simp

lemma weight_parameter_less: "weight (VObject (CommandParameterToPSObject n v)) < weight (VParam n v)"
  by (simp add: CommandParameterToPSObject_def)

lemma sum_list_insort: "sum_list (map f (insort_key g x xs)) = (f x + sum_list (map f xs) :: nat)"
  by (induction xs) auto

lemma sum_list_sort_key: "sum_list (map f (sort_key g xs)) = (sum_list (map f xs) :: nat)"
  by (induction xs) (auto simp: sum_list_insort)

lemma weight_sorted_pairs:
  "sum_list (map (\<lambda>(k, v). weight k + weight v) (sort_key g m)) =
   sum_list (map (\<lambda>(k, v). weight k + weight v) m)"
  by (rule sum_list_sort_key)

text \<open>
  The values, as \<open>serializeValueWithName\<close> dispatches on them. A pointer that was written before
  becomes a reference. While the object behind a pointer is written its address is taken out of
  the store: it is in \<open>objRefs\<close> by then, so it is not looked up again. A pointer into nowhere is
  a nil pointer, which Go dereferences.
\<close>

function ser_value ::
    "codec_env \<Rightarrow> heap \<Rightarrow> goval \<Rightarrow> string \<Rightarrow> serializer \<Rightarrow> serializer \<times> unit outcome"
  and ser_obj ::
    "codec_env \<Rightarrow> heap \<Rightarrow> nat option \<Rightarrow> goval psobject \<Rightarrow> string \<Rightarrow> serializer \<Rightarrow>
      serializer \<times> unit outcome"
  and ser_keys ::
    "codec_env \<Rightarrow> heap \<Rightarrow> string \<Rightarrow> (string \<times> goval) list \<Rightarrow> string list \<Rightarrow> serializer \<Rightarrow>
      serializer \<times> unit outcome"
  and ser_list ::
    "codec_env \<Rightarrow> heap \<Rightarrow> string \<Rightarrow> goval list \<Rightarrow> serializer \<Rightarrow> serializer \<times> unit outcome"
  and ser_dct ::
    "codec_env \<Rightarrow> heap \<Rightarrow> (string \<times> goval) list \<Rightarrow> string list \<Rightarrow> serializer \<Rightarrow>
      serializer \<times> unit outcome"
  and ser_pairs ::
    "codec_env \<Rightarrow> heap \<Rightarrow> (goval \<times> goval) list \<Rightarrow> serializer \<Rightarrow> serializer \<times> unit outcome"
  where
  "ser_value E h VNil name s = ok (serializeNil name s)"
| "ser_value E h (VString t) name s = ok (serializeStringFast t name s)"
| "ser_value E h (VInt i) name s = ok (serializeInt32Fast (safeInt32 i) name s)"
| "ser_value E h (VInt32 i) name s = ok (serializeInt32Fast i name s)"
| "ser_value E h (VInt64 i) name s = ok (serializeInt64Fast i name s)"
| "ser_value E h (VBool b) name s = ok (serializeBoolFast b name s)"
| "ser_value E h (VFloat f) name s = ok (serializeFloat64Fast E f name s)"
| "ser_value E h (VBytes b) name s = ok (serializeByteArrayFast b name s)"
| "ser_value E h (VTime t) name s = ok (serializeTimeFast E t name s)"
| "ser_value E h (VUUID u) name s = ok (serializeUUIDFast E u name s)"
| "ser_value E h (VEnum ty val str) name s = ok (serializePSRPEnumFast ty val str name s)"
| "ser_value E h (VSecure b) name s = serializeSecureStringFast b name s"
| "ser_value E h (VScript t) name s = ok (serializeScriptBlockFast t name s)"
| "ser_value E h (VVersion a b c d) name s = ok (serializeVersionFast a b c d name s)"
| "ser_value E h (VSlice xs) name s =
     then_do (ser_list E h ''serialize array element'' xs
        (array_open name s))
      (\<lambda>s1. ok (wr ''</LST></Obj>'' s1))"
| "ser_value E h (VTyped tns xs) name s =
     then_do (ser_list E h ''serialize typed list element'' xs
        (typed_list_open tns name s))
      (\<lambda>s1. ok (wr ''</LST></Obj>'' s1))"
| "ser_value E h (VMap m) name s =
     then_do (ser_dct E h m (map_keys m)
        (hashtable_open name s))
      (\<lambda>s1. ok (wr ''</DCT></Obj>'' s1))"
| "ser_value E h (VGMap m) name s =
     then_do (ser_pairs E h (sort_key (\<lambda>(k, v). sprint_v E k) m)
        (generic_map_open name s))
      (\<lambda>s1. ok (wr ''</DCT></Obj>'' s1))"
| "ser_value E h (VPtr a) name s =
     (case fmlookup (objRefs s) a of
        Some r \<Rightarrow> ok (writeObjRef r name s)
      | None \<Rightarrow>
          (case fmlookup h a of
             None \<Rightarrow> (s, Panic PanicNil)
           | Some ob \<Rightarrow> ser_obj E (fmdrop a h) (Some a) ob name s))"
| "ser_value E h (VObject ob) name s = ser_obj E h None ob name s"
| "ser_value E h (VError e) name s = ser_obj E h None (ErrorRecordToPSObject e) name s"
| "ser_value E h (VProgress r) name s = ser_obj E h None (ProgressRecordToPSObject r) name s"
| "ser_value E h (VPowerShell p) name s = ser_obj E h None (PowerShellToPSObject p) name s"
| "ser_value E h (VCommand c) name s = ser_obj E h None (CommandToPSObject c) name s"
| "ser_value E h (VParam n v) name s = ser_obj E h None (CommandParameterToPSObject n v) name s"
| "ser_value E h (VOther t) name s = (s, Fail (EWrap t (EIs ErrUnsupportedType)))"
| "ser_obj E h a ob name s =
     then_do
       (if Members ob = [] then ok (obj_head a ob name s)
        else then_do (ser_keys E h ''serialize member'' (Members ob) (member_keys ob)
               (wr ''<MS>'' (obj_head a ob name s)))
             (\<lambda>s1. ok (wr ''</MS>'' s1)))
       (\<lambda>s2. then_do
         (if Properties ob = [] then ok s2
          else then_do (ser_keys E h ''serialize property'' (Properties ob)
                 (map_keys (Properties ob)) (wr ''<Props>'' s2))
               (\<lambda>s3. ok (wr ''</Props>'' s3)))
         (\<lambda>s4. ok (wr ''</Obj>'' s4)))"
| "ser_keys E h msg m [] s = ok s"
| "ser_keys E h msg m (k # ks) s =
     then_do (wrap_st msg (ser_value E h (lookup_or_nil m k) k s)) (\<lambda>s1. ser_keys E h msg m ks s1)"
| "ser_list E h msg [] s = ok s"
| "ser_list E h msg (x # xs) s =
     then_do (wrap_st msg (ser_value E h x [] s)) (\<lambda>s1. ser_list E h msg xs s1)"
| "ser_dct E h m [] s = ok s"
| "ser_dct E h m (k # ks) s =
     then_do (wrap_st ''serialize dict value'' (ser_value E h (lookup_or_nil m k) ''Value''
        (wr (''<En><S N=\"Key\">'' @ xml_EscapeText k @ ''</S>'') s)))
      (\<lambda>s1. ser_dct E h m ks (wr ''</En>'' s1))"
| "ser_pairs E h [] s = ok s"
| "ser_pairs E h ((k, v) # ps) s =
     then_do (wrap_st ''serialize map key'' (ser_value E h k ''Key'' (wr ''<En>'' s)))
      (\<lambda>s1. then_do (wrap_st ''serialize map value'' (ser_value E h v ''Value'' s1))
        (\<lambda>s2. ser_pairs E h ps (wr ''</En>'' s2)))"
  by pat_completeness auto
termination
proof (relation "inv_image (less_than <*lex*> less_than <*lex*> less_than)
    (case_sum
      (case_sum
        (\<lambda>(E, h, v, name, s). (fmsize h, weight v, 1 :: nat))
        (case_sum
          (\<lambda>(E, h, a, ob, name, s). (fmsize h, weight (VObject ob), 0))
          (\<lambda>(E, h, msg, m, ks, s). (fmsize h, map_weight m, Suc (length ks)))))
      (case_sum
        (\<lambda>(E, h, msg, xs, s). (fmsize h, sum_list (map weight xs), Suc (length xs)))
        (case_sum
          (\<lambda>(E, h, m, ks, s). (fmsize h, map_weight m, Suc (length ks)))
          (\<lambda>(E, h, ps, s).
            (fmsize h, sum_list (map (\<lambda>(k, v). weight k + weight v) ps), Suc (length ps))))))",
    goal_cases)
qed (auto simp: fmsize_drop_less weight_powershell weight_error weight_progress weight_sorted_pairs
  weight_command_less weight_parameter_less [simplified] weight_progress [simplified]
  weight_members_less weight_properties_less
  le_neq_implies_less [OF weight_lookup] )

declare
  ser_value.simps [simp] ser_obj.simps [simp del] ser_keys.simps [simp] ser_list.simps [simp]
  ser_dct.simps [simp] ser_pairs.simps [simp]

section \<open>Entry points\<close>

text \<open>
  \<open>Serialize\<close> and its variants empty the buffer, but keep the counter and both tables. The
  unsafe variants return the buffer itself, which the callers copy at once.
\<close>

definition CLIXMLNamespace :: string where
  "CLIXMLNamespace = ''http://schemas.microsoft.com/powershell/2004/04''"

definition CLIXMLVersion :: string where
  "CLIXMLVersion = ''1.1.0.1''"

definition objs_open :: string where
  "objs_open = ''<Objs Version=\"'' @ CLIXMLVersion @ ''\" xmlns=\"'' @ CLIXMLNamespace @ ''\">''"

definition returning_buf :: "serializer \<times> unit outcome \<Rightarrow> serializer \<times> bytes outcome" where
  "returning_buf r = then_do r (\<lambda>s. (s, Ret (bytes_of_string (buf s))))"

definition Serialize ::
  "codec_env \<Rightarrow> heap \<Rightarrow> goval \<Rightarrow> serializer \<Rightarrow> serializer \<times> bytes outcome" where
  "Serialize E h v s =
     returning_buf
       (then_do (wrap_st ''serialize value'' (ser_value E h v [] (wr objs_open (s\<lparr>buf := []\<rparr>))))
         (\<lambda>s1. ok (wr ''</Objs>'' s1)))"

definition SerializeUnsafe ::
  "codec_env \<Rightarrow> heap \<Rightarrow> goval \<Rightarrow> serializer \<Rightarrow> serializer \<times> bytes outcome" where
  "SerializeUnsafe E h v s =
     returning_buf
       (then_do (wrap_st ''serialize value'' (ser_value E h v [] (wr objs_open (s\<lparr>buf := []\<rparr>))))
         (\<lambda>s1. ok (wr ''</Objs>'' s1)))"

definition SerializeRaw ::
  "codec_env \<Rightarrow> heap \<Rightarrow> goval \<Rightarrow> serializer \<Rightarrow> serializer \<times> bytes outcome" where
  "SerializeRaw E h v s =
     returning_buf (wrap_st ''serialize value'' (ser_value E h v [] (s\<lparr>buf := []\<rparr>)))"

definition SerializeRawUnsafe ::
  "codec_env \<Rightarrow> heap \<Rightarrow> goval \<Rightarrow> serializer \<Rightarrow> serializer \<times> bytes outcome" where
  "SerializeRawUnsafe E h v s =
     returning_buf (wrap_st ''serialize value'' (ser_value E h v [] (s\<lparr>buf := []\<rparr>)))"

fun ser_all ::
  "codec_env \<Rightarrow> heap \<Rightarrow> goval list \<Rightarrow> serializer \<Rightarrow> serializer \<times> unit outcome" where
  "ser_all E h [] s = ok s"
| "ser_all E h (v # vs) s =
     then_do (wrap_st ''serialize value'' (ser_value E h v [] s)) (\<lambda>s1. ser_all E h vs s1)"

definition SerializeMultipleRaw ::
  "codec_env \<Rightarrow> heap \<Rightarrow> goval list \<Rightarrow> serializer \<Rightarrow> serializer \<times> bytes outcome" where
  "SerializeMultipleRaw E h vs s = returning_buf (ser_all E h vs (s\<lparr>buf := []\<rparr>))"

text \<open>One value with a serializer of its own, as every caller in the program does it.\<close>

definition marshal :: "codec_env \<Rightarrow> heap \<Rightarrow> goval \<Rightarrow> bytes outcome" where
  "marshal E h v = snd (SerializeRaw E h v NewSerializer)"

end
