(* ===== verification/Out_Of_Proc.thy ===== *)
theory Out_Of_Proc
  imports Go_Lines Go_Chan Base64 Clixml_Serialize
begin

text \<open>
  The out-of-process transport (\<open>outofproc/transport.go\<close>) and its adapter (\<open>outofproc/adapter.go\<close>):
  fragments travel as lines of XML with base64 data. The texts of GUIDs are those of the \<open>uuid\<close>
  package, which the parameter of the codecs provides. Buffer pools, locks and the short sleeps
  before a write are left out.
\<close>

section \<open>The transport\<close>

definition StreamDefault :: string where
  "StreamDefault = ''Default''"

definition StreamPromptResponse :: string where
  "StreamPromptResponse = ''PromptResponse''"

definition NullGUID :: uuid where
  "NullGUID = uuid_Nil"

definition PacketTypeData :: string where "PacketTypeData = ''Data''"
definition PacketTypeDataAck :: string where "PacketTypeDataAck = ''DataAck''"
definition PacketTypeCommand :: string where "PacketTypeCommand = ''Command''"
definition PacketTypeCommandAck :: string where "PacketTypeCommandAck = ''CommandAck''"
definition PacketTypeClose :: string where "PacketTypeClose = ''Close''"
definition PacketTypeCloseAck :: string where "PacketTypeCloseAck = ''CloseAck''"
definition PacketTypeSignal :: string where "PacketTypeSignal = ''Signal''"
definition PacketTypeSignalAck :: string where "PacketTypeSignalAck = ''SignalAck''"

lemmas packet_type_defs =
  PacketTypeData_def PacketTypeDataAck_def PacketTypeCommand_def PacketTypeCommandAck_def
  PacketTypeClose_def PacketTypeCloseAck_def PacketTypeSignal_def PacketTypeSignalAck_def

record packet =
  pkType :: string
  pkGuid :: uuid
  pkStream :: string
  pkData :: bytes

record 'w oop =
  oopReader :: "'w reader"
  oopBuf :: bufio
  oopWriter :: "bytes \<Rightarrow> 'w \<Rightarrow> 'w \<times> unit outcome"

definition NewTransport :: "'w reader \<Rightarrow> (bytes \<Rightarrow> 'w \<Rightarrow> 'w \<times> unit outcome) \<Rightarrow> 'w oop" where
  "NewTransport rd wtr = \<lparr>oopReader = rd, oopBuf = NewReader, oopWriter = wtr\<rparr>"

definition NewTransportFromReadWriter :: "'w readWriter \<Rightarrow> 'w oop" where
  "NewTransportFromReadWriter rw = NewTransport (rwRead rw) (rwWrite rw)"

definition formatGUID :: "codec_env \<Rightarrow> uuid \<Rightarrow> string" where
  "formatGUID E i = strings_ToLower (uuid_String E i)"

definition IsSessionGUID :: "uuid \<Rightarrow> bool" where
  "IsSessionGUID i \<longleftrightarrow> i = NullGUID"

definition data_line :: "codec_env \<Rightarrow> uuid \<Rightarrow> string \<Rightarrow> bytes \<Rightarrow> string" where
  "data_line E i stream data =
     ''<Data Stream='' @ [CHR 0x27] @ stream @ [CHR 0x27] @ '' PSGuid='' @ [CHR 0x27] @ formatGUID E i @
     [CHR 0x27] @ ''>'' @ b64_encode data @ ''</Data>'' @ [CHR 0x0A]"

text \<open>The lines of the packets without data.\<close>

definition tag_line :: "codec_env \<Rightarrow> string \<Rightarrow> uuid \<Rightarrow> string" where
  "tag_line E name i =
     ''<'' @ name @ '' PSGuid='' @ [CHR 0x27] @ formatGUID E i @ [CHR 0x27] @ '' />'' @ [CHR 0x0A]"

definition oop_write :: "'w oop \<Rightarrow> string \<Rightarrow> 'w \<Rightarrow> 'w \<times> unit outcome" where
  "oop_write t line w = oopWriter t (bytes_of_string line) w"

definition SendDataWithStream ::
  "codec_env \<Rightarrow> 'w oop \<Rightarrow> uuid \<Rightarrow> string \<Rightarrow> bytes \<Rightarrow> 'w \<Rightarrow> 'w \<times> unit outcome" where
  "SendDataWithStream E t i stream data w = oop_write t (data_line E i stream data) w"

definition SendData :: "codec_env \<Rightarrow> 'w oop \<Rightarrow> uuid \<Rightarrow> bytes \<Rightarrow> 'w \<Rightarrow> 'w \<times> unit outcome" where
  "SendData E t i data w = SendDataWithStream E t i StreamDefault data w"

definition SendCommand :: "codec_env \<Rightarrow> 'w oop \<Rightarrow> uuid \<Rightarrow> 'w \<Rightarrow> 'w \<times> unit outcome" where
  "SendCommand E t i w = oop_write t (tag_line E ''Command'' i) w"

definition SendClose :: "codec_env \<Rightarrow> 'w oop \<Rightarrow> uuid \<Rightarrow> 'w \<Rightarrow> 'w \<times> unit outcome" where
  "SendClose E t i w = oop_write t (tag_line E ''Close'' i) w"

definition SendSignal :: "codec_env \<Rightarrow> 'w oop \<Rightarrow> uuid \<Rightarrow> 'w \<Rightarrow> 'w \<times> unit outcome" where
  "SendSignal E t i w = oop_write t (tag_line E ''Signal'' i) w"

definition SendDataAck :: "codec_env \<Rightarrow> 'w oop \<Rightarrow> uuid \<Rightarrow> 'w \<Rightarrow> 'w \<times> unit outcome" where
  "SendDataAck E t i w = oop_write t (tag_line E ''DataAck'' i) w"

definition SendCloseAck :: "codec_env \<Rightarrow> 'w oop \<Rightarrow> uuid \<Rightarrow> 'w \<Rightarrow> 'w \<times> unit outcome" where
  "SendCloseAck E t i w = oop_write t (tag_line E ''CloseAck'' i) w"

definition SendSignalAck :: "codec_env \<Rightarrow> 'w oop \<Rightarrow> uuid \<Rightarrow> 'w \<Rightarrow> 'w \<times> unit outcome" where
  "SendSignalAck E t i w = oop_write t (tag_line E ''SignalAck'' i) w"

section \<open>Parsing a line\<close>

definition utf8_bom :: string where
  "utf8_bom = [CHR 0xEF, CHR 0xBB, CHR 0xBF]"

text \<open>The value of an attribute: the text between the quotes, if both are there.\<close>

definition attribute_value :: "string \<Rightarrow> string \<Rightarrow> string option" where
  "attribute_value line name =
     (case strings_Index line (name @ ''='' @ [CHR 0x27]) of
        None \<Rightarrow> None
      | Some idx \<Rightarrow>
          let start = idx + length name + 2 in
          if \<not> start < length line then None
          else case strings_IndexByte (drop start line) (CHR 0x27) of
              None \<Rightarrow> None
            | Some e \<Rightarrow> Some (take e (drop start line)))"

text \<open>The earliest of three optional positions.\<close>

definition earliest :: "nat option \<Rightarrow> nat option \<Rightarrow> nat option" where
  "earliest a b =
     (case (a, b) of
        (None, _) \<Rightarrow> b
      | (_, None) \<Rightarrow> a
      | (Some i, Some j) \<Rightarrow> Some (if j < i then j else i))"

definition element_end :: "string \<Rightarrow> nat option" where
  "element_end line =
     earliest (earliest (strings_IndexByte line (CHR '' '')) (strings_IndexByte line (CHR ''>'')))
       (strings_IndexByte line (CHR ''/''))"

text \<open>The content of a data packet.\<close>

definition packet_data :: "string \<Rightarrow> string \<Rightarrow> bytes outcome" where
  "packet_data line name =
     (case strings_IndexByte line (CHR ''>'') of
        None \<Rightarrow> Fail (EMsg ''malformed data packet start'')
      | Some gt \<Rightarrow>
          let start = gt + 1 in
          case strings_LastIndex line (''</'' @ name @ ''>'') of
            None \<Rightarrow> Ret []
          | Some e \<Rightarrow>
              if \<not> start < e then Ret []
              else case b64_decode (slice line start e) of
                  None \<Rightarrow> Fail (EWrap ''decode base64'' (EMsg ''illegal base64 data''))
                | Some d \<Rightarrow> Ret d)"

definition packet_guid :: "codec_env \<Rightarrow> string \<Rightarrow> uuid outcome" where
  "packet_guid E line =
     (case attribute_value line ''PSGuid'' of
        None \<Rightarrow> Ret uuid_Nil
      | Some g \<Rightarrow>
          (case uuid_Parse E g of
             None \<Rightarrow> Fail (EWrap ''parse PSGuid'' (EMsg ''invalid UUID''))
           | Some i \<Rightarrow> Ret i))"

definition parsePacket :: "codec_env \<Rightarrow> string \<Rightarrow> packet outcome" where
  "parsePacket E text =
     (let trimmed = strings_TrimPrefix (strings_TrimSpace text) utf8_bom in
      if length trimmed < 5 then Fail (EMsg ''line too short'')
      else if hd trimmed \<noteq> CHR ''<'' then Fail (EMsg ''no opening < found'')
      else
        let line = tl trimmed in
        case element_end line of
          None \<Rightarrow> Fail (EMsg ''malformed element name'')
        | Some k \<Rightarrow>
            let name = take k line in
            and_then (packet_guid E line) (\<lambda>guid.
              let stream = (case attribute_value line ''Stream'' of None \<Rightarrow> StreamDefault | Some s \<Rightarrow> s) in
              if name = PacketTypeData then
                and_then (packet_data line name) (\<lambda>d.
                  Ret \<lparr>pkType = name, pkGuid = guid, pkStream = stream, pkData = d\<rparr>)
              else Ret \<lparr>pkType = name, pkGuid = guid, pkStream = stream, pkData = []\<rparr>))"

text \<open>What \<open>ReceivePacket\<close> hands to \<open>parsePacket\<close>; nothing for a line without an element.\<close>

definition element_of_line :: "string \<Rightarrow> string option" where
  "element_of_line line =
     (let l = strings_TrimSpace line in
      if l = [] then None
      else
        let s = strings_TrimPrefix l utf8_bom in
        case strings_Index s ''<'' of
          None \<Rightarrow> None
        | Some k \<Rightarrow> Some (drop k s))"

partial_function (option) ReceivePacket ::
  "codec_env \<Rightarrow> 'w oop \<Rightarrow> 'w \<Rightarrow> (('w oop \<times> 'w) \<times> packet outcome) option" where
  "ReceivePacket E t w =
     (case bufio_ReadString (oopReader t) (oopBuf t) w of
        None \<Rightarrow> None
      | Some ((b, w1), Panic x) \<Rightarrow> Some ((t\<lparr>oopBuf := b\<rparr>, w1), Panic x)
      | Some ((b, w1), Fail e) \<Rightarrow> Some ((t\<lparr>oopBuf := b\<rparr>, w1), Fail e)
      | Some ((b, w1), Ret line) \<Rightarrow>
          (case element_of_line (string_of_bytes line) of
             None \<Rightarrow> ReceivePacket E (t\<lparr>oopBuf := b\<rparr>) w1
           | Some s \<Rightarrow> Some ((t\<lparr>oopBuf := b\<rparr>, w1), wrap_err ''parse packet'' (parsePacket E s))))"

section \<open>The adapter\<close>

text \<open>
  A handler of acknowledgements is the client's, or that of a call of \<open>ClosePipeline\<close>, which puts a
  token into its own channel and calls the handler that it replaced.
\<close>

datatype 'w ack_handler =
    ClientHandler "uuid \<Rightarrow> 'w \<Rightarrow> 'w"
  | ClosingHandler uuid nat "'w ack_handler option"

record 'w adapter =
  adTransport :: "'w oop"
  adWorld :: 'w
  adRunspace :: uuid
  adNotify :: "unit chan"
  adPending :: "bytes list"
  adClosed :: bool
  adReadErr :: "gerr option"
  adCtx :: context_state
  readLoopDone :: bool
  onCommandAck :: "'w ack_handler option"
  onCloseAck :: "'w ack_handler option"
  onSignalAck :: "'w ack_handler option"
  closeAcks :: "unit chan list"

definition NewAdapterWithContext ::
  "context_state \<Rightarrow> 'w oop \<Rightarrow> uuid \<Rightarrow> 'w \<Rightarrow> 'w adapter" where
  "NewAdapterWithContext ctx t i w =
     \<lparr>adTransport = t, adWorld = w, adRunspace = i, adNotify = make_chan 1, adPending = [],
      adClosed = False, adReadErr = None, adCtx = ctx, readLoopDone = False, onCommandAck = None,
      onCloseAck = None, onSignalAck = None, closeAcks = []\<rparr>"

definition NewAdapter :: "'w oop \<Rightarrow> uuid \<Rightarrow> 'w \<Rightarrow> 'w adapter" where
  "NewAdapter t i w = NewAdapterWithContext None t i w"

definition SetCommandAckHandler :: "'w ack_handler option \<Rightarrow> 'w adapter \<Rightarrow> 'w adapter" where
  "SetCommandAckHandler hnd a = a\<lparr>onCommandAck := hnd\<rparr>"

definition SetCloseAckHandler :: "'w ack_handler option \<Rightarrow> 'w adapter \<Rightarrow> 'w adapter" where
  "SetCloseAckHandler hnd a = a\<lparr>onCloseAck := hnd\<rparr>"

definition SetSignalAckHandler :: "'w ack_handler option \<Rightarrow> 'w adapter \<Rightarrow> 'w adapter" where
  "SetSignalAckHandler hnd a = a\<lparr>onSignalAck := hnd\<rparr>"

text \<open>A send that drops its token when the channel is full.\<close>

definition poke :: "unit chan \<Rightarrow> unit chan" where
  "poke c = (case chan_offer () c of Ret (Some d) \<Rightarrow> d | _ \<Rightarrow> c)"

definition wake_reader :: "'w adapter \<Rightarrow> 'w adapter" where
  "wake_reader a = a\<lparr>adNotify := poke (adNotify a)\<rparr>"

fun run_handler :: "'w ack_handler option \<Rightarrow> uuid \<Rightarrow> 'w adapter \<Rightarrow> 'w adapter" where
  "run_handler None i a = a"
| "run_handler (Some (ClientHandler f)) i a = a\<lparr>adWorld := f i (adWorld a)\<rparr>"
| "run_handler (Some (ClosingHandler j k orig)) i a =
     run_handler orig i
       (if i = j then a\<lparr>closeAcks := (closeAcks a)[k := poke (closeAcks a ! k)]\<rparr> else a)"

text \<open>An acknowledgement is sent at best: its error is ignored.\<close>

definition best_effort :: "('w oop \<Rightarrow> 'w \<Rightarrow> 'w \<times> unit outcome) \<Rightarrow> 'w adapter \<Rightarrow> 'w adapter" where
  "best_effort send a = a\<lparr>adWorld := fst (send (adTransport a) (adWorld a))\<rparr>"

definition on_packet :: "codec_env \<Rightarrow> packet \<Rightarrow> 'w adapter \<Rightarrow> 'w adapter" where
  "on_packet E pk a =
     (if pkType pk = PacketTypeData then
        (let a1 = best_effort (\<lambda>t. SendDataAck E t (pkGuid pk)) a in
         wake_reader (a1\<lparr>adPending := adPending a1 @ [pkData pk]\<rparr>))
      else if pkType pk = PacketTypeCommandAck then run_handler (onCommandAck a) (pkGuid pk) a
      else if pkType pk = PacketTypeCloseAck then run_handler (onCloseAck a) (pkGuid pk) a
      else if pkType pk = PacketTypeSignalAck then run_handler (onSignalAck a) (pkGuid pk) a
      else if pkType pk = PacketTypeClose then best_effort (\<lambda>t. SendCloseAck E t (pkGuid pk)) a
      else if pkType pk = PacketTypeSignal then best_effort (\<lambda>t. SendSignalAck E t (pkGuid pk)) a
      else a)"

definition readLoop_exit :: "'w adapter \<Rightarrow> 'w adapter" where
  "readLoop_exit a = wake_reader (a\<lparr>readLoopDone := True, adClosed := True\<rparr>)"

text \<open>
  One iteration of the read loop, and whether it goes on; \<open>None\<close> when the receive does not return.
\<close>

definition readLoop_once :: "codec_env \<Rightarrow> 'w adapter \<Rightarrow> ('w adapter \<times> bool outcome) option" where
  "readLoop_once E a =
     (if adCtx a \<noteq> None then Some (readLoop_exit a, Ret False)
      else case ReceivePacket E (adTransport a) (adWorld a) of
          None \<Rightarrow> None
        | Some ((t, w), Panic x) \<Rightarrow> Some (a\<lparr>adTransport := t, adWorld := w\<rparr>, Panic x)
        | Some ((t, w), Fail e) \<Rightarrow>
            Some (readLoop_exit (wake_reader
              (a\<lparr>adTransport := t, adWorld := w, adReadErr := Some e\<rparr>)), Ret False)
        | Some ((t, w), Ret pk) \<Rightarrow>
            Some (on_packet E pk (a\<lparr>adTransport := t, adWorld := w\<rparr>), Ret True))"

text \<open>\<open>Read\<close> of at most \<open>n\<close> bytes, when it does not wait.\<close>

definition adapter_ready :: "nat \<Rightarrow> 'w adapter \<Rightarrow> ('w adapter \<times> bytes \<times> gerr option) option" where
  "adapter_ready n a =
     (case adPending a of
        p # ps \<Rightarrow>
          if length p \<le> n then Some (a\<lparr>adPending := ps\<rparr>, p, None)
          else Some (a\<lparr>adPending := drop n p # ps\<rparr>, take n p, None)
      | [] \<Rightarrow>
          (case adReadErr a of
             Some e \<Rightarrow> Some (a, [], Some e)
           | None \<Rightarrow> if adClosed a then Some (a, [], Some (EIs IoEOF)) else None))"

text \<open>
  The wait of \<open>Read\<close>, which is entered when nothing is ready: woken by the loop or the timer, the end
  of the context, or the deadline of 30 seconds.
\<close>

datatype read_event = ReadWoken | ReadCtxDone | ReadDeadline

definition read_timeout :: gerr where
  "read_timeout = EMsg ''read timeout: no data received in 30s''"

fun adapter_read ::
  "read_event \<Rightarrow> nat \<Rightarrow> 'w adapter \<Rightarrow> ('w adapter \<times> bytes \<times> gerr option) option" where
  "adapter_read ReadWoken n a = adapter_ready n a"
| "adapter_read ReadCtxDone n a =
     (case adCtx a of None \<Rightarrow> None | Some e \<Rightarrow> Some (a, [], Some (EIs e)))"
| "adapter_read ReadDeadline n a =
     (case adapter_ready n a of Some r \<Rightarrow> Some r | None \<Rightarrow> Some (a, [], Some read_timeout))"

section \<open>Sending through the adapter\<close>

definition through :: "('w oop \<Rightarrow> 'w \<Rightarrow> 'w \<times> unit outcome) \<Rightarrow> 'w adapter \<Rightarrow> 'w adapter \<times> unit outcome" where
  "through send a = (case send (adTransport a) (adWorld a) of (w, r) \<Rightarrow> (a\<lparr>adWorld := w\<rparr>, r))"

definition adapter_write :: "codec_env \<Rightarrow> bytes \<Rightarrow> 'w adapter \<Rightarrow> 'w adapter \<times> unit outcome" where
  "adapter_write E data = through (\<lambda>t. SendData E t NullGUID data)"

definition adapter_SendCommand :: "codec_env \<Rightarrow> uuid \<Rightarrow> 'w adapter \<Rightarrow> 'w adapter \<times> unit outcome" where
  "adapter_SendCommand E i = through (\<lambda>t. SendCommand E t i)"

definition SendPipelineData :: "codec_env \<Rightarrow> uuid \<Rightarrow> bytes \<Rightarrow> 'w adapter \<Rightarrow> 'w adapter \<times> unit outcome" where
  "SendPipelineData E i data = through (\<lambda>t. SendData E t i data)"

definition adapter_SendSignal :: "codec_env \<Rightarrow> uuid \<Rightarrow> 'w adapter \<Rightarrow> 'w adapter \<times> unit outcome" where
  "adapter_SendSignal E i = through (\<lambda>t. SendSignal E t i)"

text \<open>\<open>Close\<close> cancels the context and waits, at most 300 milliseconds, for the loop.\<close>

definition adapter_Close :: "'w adapter \<Rightarrow> 'w adapter \<times> unit outcome" where
  "adapter_Close a = ok (a\<lparr>adCtx := ctx_cancel CtxCanceled (adCtx a)\<rparr>)"

text \<open>
  \<open>ClosePipeline\<close> up to its wait, with the number of its channel; the wait ends with a token in it,
  after two seconds, or with the context. Then the handler is put back that was there before.
\<close>

definition ClosePipeline :: "codec_env \<Rightarrow> uuid \<Rightarrow> 'w adapter \<Rightarrow> 'w adapter \<times> nat outcome" where
  "ClosePipeline E i a =
     (let k = length (closeAcks a);
          orig = onCloseAck a;
          a1 = SetCloseAckHandler (Some (ClosingHandler i k orig))
                 (a\<lparr>closeAcks := closeAcks a @ [make_chan 1]\<rparr>) in
      case through (\<lambda>t. SendClose E t i) a1 of
        (a2, Ret _) \<Rightarrow> (a2, Ret k)
      | (a2, Fail e) \<Rightarrow> (SetCloseAckHandler orig a2, Fail (EWrap ''send pipeline close'' e))
      | (a2, Panic x) \<Rightarrow> (a2, Panic x))"

datatype close_wait = CloseAcked | CloseWaitTimeout | CloseCtxDone

definition ClosePipeline_ends ::
  "close_wait \<Rightarrow> nat \<Rightarrow> 'w ack_handler option \<Rightarrow> 'w adapter \<Rightarrow> ('w adapter \<times> unit outcome) option" where
  "ClosePipeline_ends ev k orig a =
     (case ev of
        CloseAcked \<Rightarrow>
          (case chan_take (closeAcks a ! k) of
             None \<Rightarrow> None
           | Some (_, c) \<Rightarrow> Some (ok (SetCloseAckHandler orig (a\<lparr>closeAcks := (closeAcks a)[k := c]\<rparr>))))
      | CloseWaitTimeout \<Rightarrow> Some (ok (SetCloseAckHandler orig a))
      | CloseCtxDone \<Rightarrow> if adCtx a = None then None else Some (ok (SetCloseAckHandler orig a)))"

text \<open>The adapter as the transport of a pool; its reads end at the deadline at the latest.\<close>

definition adapter_transport :: "codec_env \<Rightarrow> 'w adapter readWriter" where
  "adapter_transport E =
     \<lparr>rwRead = (\<lambda>n a. case adapter_read ReadDeadline n a of Some r \<Rightarrow> r | None \<Rightarrow> (a, [], None)),
      rwWrite = adapter_write E, rwClose = Some adapter_Close,
      rwMux = Some \<lparr>muxSendCommand = adapter_SendCommand E, muxSendPipelineData = SendPipelineData E\<rparr>\<rparr>"

end
