(* ===== verification/Clixml_Deserialize.thy ===== *)
theory Clixml_Deserialize
  imports Clixml_Serialize "HOL-Library.AList"
begin

text \<open>
  The CLIXML deserializer (\<open>serialization/clixml.go\<close>). It reads the tokens of the XML decoder;
  its state is the remaining tokens with the error that follows them, the objects and type names
  by reference id, and the nesting depth. The recursive functions take fuel, one unit per token
  and level; \<open>fuel_for\<close> is always enough (theory \<open>Clixml_Correct\<close>).
\<close>

section \<open>State\<close>

record deserializer =
  dtoks :: "xtok list"
  derr :: gerr
  dobjs :: "(int, goval) fmap"
  dtns :: "(int, string list) fmap"
  ddepth :: int
  maxDepth :: int
  decryptor :: "(bytes \<Rightarrow> bytes outcome) option"

definition DefaultMaxRecursionDepth :: int where
  "DefaultMaxRecursionDepth = 100"

definition NewDeserializerWithMaxDepthAndEncryption ::
  "int \<Rightarrow> (bytes \<Rightarrow> bytes outcome) option \<Rightarrow> deserializer" where
  "NewDeserializerWithMaxDepthAndEncryption m dec =
     \<lparr>dtoks = [], derr = EIs IoEOF, dobjs = fmempty, dtns = fmempty, ddepth = 0, maxDepth = m,
      decryptor = dec\<rparr>"

definition NewDeserializerWithMaxDepth :: "int \<Rightarrow> deserializer" where
  "NewDeserializerWithMaxDepth m = NewDeserializerWithMaxDepthAndEncryption m None"

definition NewDeserializerWithEncryption ::
  "(bytes \<Rightarrow> bytes outcome) option \<Rightarrow> deserializer" where
  "NewDeserializerWithEncryption dec =
     NewDeserializerWithMaxDepthAndEncryption DefaultMaxRecursionDepth dec"

definition NewDeserializer :: deserializer where
  "NewDeserializer = NewDeserializerWithEncryption None"

definition Deserializer_Reset :: "deserializer \<Rightarrow> deserializer" where
  "Deserializer_Reset d =
     d\<lparr>dtoks := [], derr := EIs IoEOF, dobjs := fmempty, dtns := fmempty, ddepth := 0,
       maxDepth := 0, decryptor := None\<rparr>"

section \<open>The decoder's operations\<close>

text \<open>\<open>Token\<close>, \<open>Skip\<close> and \<open>DecodeElement\<close> into a string, on the remaining tokens.\<close>

definition next_token :: "deserializer \<Rightarrow> deserializer \<times> xtok outcome" where
  "next_token d =
     (case dtoks d of
        [] \<Rightarrow> (d, Fail (derr d))
      | t # ts \<Rightarrow> (d\<lparr>dtoks := ts\<rparr>, Ret t))"

fun skip_toks :: "nat \<Rightarrow> xtok list \<Rightarrow> xtok list option" where
  "skip_toks n [] = None"
| "skip_toks n (XStart t a # ts) = skip_toks (Suc n) ts"
| "skip_toks n (XEnd t # ts) = (case n of 0 \<Rightarrow> Some ts | Suc m \<Rightarrow> skip_toks m ts)"
| "skip_toks n (XText t # ts) = skip_toks n ts"

definition Skip :: "deserializer \<Rightarrow> deserializer \<times> unit outcome" where
  "Skip d =
     (case skip_toks 0 (dtoks d) of
        None \<Rightarrow> (d\<lparr>dtoks := []\<rparr>, Fail (derr d))
      | Some ts \<Rightarrow> (d\<lparr>dtoks := ts\<rparr>, Ret ()))"

text \<open>The text directly inside the element; nested elements are skipped.\<close>

fun text_toks :: "nat \<Rightarrow> xtok list \<Rightarrow> (string \<times> xtok list) option" where
  "text_toks n [] = None"
| "text_toks n (XStart t a # ts) = text_toks (Suc n) ts"
| "text_toks n (XEnd t # ts) = (case n of 0 \<Rightarrow> Some ([], ts) | Suc m \<Rightarrow> text_toks m ts)"
| "text_toks n (XText t # ts) =
     (case text_toks n ts of
        None \<Rightarrow> None
      | Some (u, r) \<Rightarrow> Some (if n = 0 then t @ u else u, r))"

definition DecodeElement :: "deserializer \<Rightarrow> deserializer \<times> string outcome" where
  "DecodeElement d =
     (case text_toks 0 (dtoks d) of
        None \<Rightarrow> (d\<lparr>dtoks := []\<rparr>, Fail (derr d))
      | Some (t, ts) \<Rightarrow> (d\<lparr>dtoks := ts\<rparr>, Ret t))"

text \<open>The value of the last and of the first attribute of a name.\<close>

fun attr_last :: "string \<Rightarrow> (string \<times> string) list \<Rightarrow> string option" where
  "attr_last n [] = None"
| "attr_last n ((k, v) # as) =
     (case attr_last n as of Some w \<Rightarrow> Some w | None \<Rightarrow> if k = n then Some v else None)"

definition attr_first :: "string \<Rightarrow> (string \<times> string) list \<Rightarrow> string" where
  "attr_first n as = (case map_of as n of None \<Rightarrow> [] | Some v \<Rightarrow> v)"

text \<open>\<open>strconv.Atoi\<close>.\<close>

definition Atoi :: "string \<Rightarrow> int option" where
  "Atoi s = ParseInt 64 s"

definition ref_ids :: "(string \<times> string) list \<Rightarrow> int list" where
  "ref_ids as = List.map_filter (\<lambda>(k, v). if k = ''RefId'' then Atoi v else None) as"

lemma text_toks_shorter: "text_toks n ts = Some (t, r) \<Longrightarrow> length r < length ts"
  by (induction n ts arbitrary: t rule: text_toks.induct) (fastforce split: nat.splits option.splits)+

lemma skip_toks_shorter: "skip_toks n ts = Some r \<Longrightarrow> length r < length ts"
  by (induction n ts rule: skip_toks.induct) (fastforce split: nat.splits)+

text \<open>\<open>deserializeTypeNames\<close>: elements other than \<open>T\<close> are entered, not skipped.\<close>

function tn_toks :: "xtok list \<Rightarrow> (string list \<times> xtok list) option" where
  "tn_toks [] = None"
| "tn_toks (XStart n as # ts) =
     (if n = ''T'' then
        (case text_toks 0 ts of
           None \<Rightarrow> None
         | Some (t, r) \<Rightarrow> (case tn_toks r of None \<Rightarrow> None | Some (tns, r1) \<Rightarrow> Some (t # tns, r1)))
      else tn_toks ts)"
| "tn_toks (XEnd n # ts) = (if n = ''TN'' then Some ([], ts) else tn_toks ts)"
| "tn_toks (XText t # ts) = tn_toks ts"
  by pat_completeness auto
termination
  by (relation "measure length") (auto dest: text_toks_shorter)

definition deserializeTypeNames :: "deserializer \<Rightarrow> deserializer \<times> string list outcome" where
  "deserializeTypeNames d =
     (case tn_toks (dtoks d) of
        None \<Rightarrow> (d\<lparr>dtoks := []\<rparr>, Fail (derr d))
      | Some (tns, ts) \<Rightarrow> (d\<lparr>dtoks := ts\<rparr>, Ret tns))"

section \<open>Elements\<close>

type_synonym 'a run = "(deserializer \<times> 'a outcome) option"

fun bind_run :: "'a run \<Rightarrow> (deserializer \<Rightarrow> 'a \<Rightarrow> 'b run) \<Rightarrow> 'b run" where
  "bind_run None f = None"
| "bind_run (Some (d, Ret x)) f = f d x"
| "bind_run (Some (d, Fail e)) f = Some (d, Fail e)"
| "bind_run (Some (d, Panic p)) f = Some (d, Panic p)"

lemma bind_run_unfold [code_unfold]:
  "bind_run r f = (case r of None \<Rightarrow> None | Some (d, y) \<Rightarrow>
     (case y of Ret x \<Rightarrow> f d x | Fail e \<Rightarrow> Some (d, Fail e) | Panic p \<Rightarrow> Some (d, Panic p)))"
  by (cases "(r, f)" rule: bind_run.cases) auto

definition enter :: "deserializer \<Rightarrow> deserializer" where
  "enter d = d\<lparr>ddepth := ddepth d + 1\<rparr>"

definition leave :: "'a run \<Rightarrow> 'a run" where
  "leave r = map_option (\<lambda>(d, x). (d\<lparr>ddepth := ddepth d - 1\<rparr>, x)) r"

text \<open>An element whose text is converted: \<open>conv\<close> gives the value or the error.\<close>

definition text_elem :: "string \<Rightarrow> (string \<Rightarrow> 'a outcome) \<Rightarrow> deserializer \<Rightarrow> 'a run" where
  "text_elem msg conv d =
     (case DecodeElement d of (d1, r) \<Rightarrow> Some (d1, and_then (wrap_err msg r) conv))"

definition of_option :: "string \<Rightarrow> ('a \<Rightarrow> 'b) \<Rightarrow> 'a option \<Rightarrow> 'b outcome" where
  "of_option msg f r = (case r of None \<Rightarrow> Fail (EMsg msg) | Some x \<Rightarrow> Ret (f x))"

definition secure_value :: "codec_env \<Rightarrow> deserializer \<Rightarrow> string \<Rightarrow> goval outcome" where
  "secure_value E d s =
     and_then (wrap_err ''invalid base64 in SecureString'' (of_option ''illegal base64'' id (b64_decode s)))
       (\<lambda>data. case decryptor d of
          None \<Rightarrow> Ret (VSecure data)
        | Some dec \<Rightarrow>
            and_then (wrap_err ''failed to decrypt SecureString'' (dec data))
              (\<lambda>plain. and_then (NewSecureString E plain) (\<lambda>b. Ret (VSecure b))))"

definition deserializeRef :: "(string \<times> string) list \<Rightarrow> deserializer \<Rightarrow> goval run" where
  "deserializeRef as d =
     (case map_of as ''RefId'' of
        None \<Rightarrow>
          bind_run (Some (Skip d)) (\<lambda>d1 _. Some (d1, Fail (EMsg ''ref element missing RefId attribute'')))
      | Some v \<Rightarrow>
          (case Atoi v of
             None \<Rightarrow> Some (d, Fail (EMsg ''strconv.Atoi''))
           | Some r \<Rightarrow>
               bind_run (Some (Skip d)) (\<lambda>d1 _.
                 (case fmlookup (dobjs d) r of
                    Some v \<Rightarrow> Some (d1, Ret v)
                  | None \<Rightarrow> Some (d1, Fail (EMsg ''reference to unknown object''))))))"

definition is_hashtable :: "string list \<Rightarrow> bool" where
  "is_hashtable tns \<longleftrightarrow> tns \<noteq> [] \<and> hd tns = typeNameHashtable"

definition store_ref :: "int option \<Rightarrow> goval \<Rightarrow> deserializer \<Rightarrow> deserializer" where
  "store_ref r v d = (case r of None \<Rightarrow> d | Some i \<Rightarrow> d\<lparr>dobjs := fmupd i v (dobjs d)\<rparr>)"

definition store_tns :: "int list \<Rightarrow> string list \<Rightarrow> deserializer \<Rightarrow> deserializer" where
  "store_tns is tns d = d\<lparr>dtns := fold (\<lambda>i m. fmupd i tns m) is (dtns d)\<rparr>"

definition find_tns :: "int list \<Rightarrow> deserializer \<Rightarrow> string list \<Rightarrow> string list" where
  "find_tns is d tns =
     fold (\<lambda>i t. case fmlookup (dtns d) i of Some u \<Rightarrow> u | None \<Rightarrow> t) is tns"

definition has_N :: "string \<Rightarrow> (string \<times> string) list \<Rightarrow> bool" where
  "has_N v as = list_ex (\<lambda>(k, w). k = ''N'' \<and> w = v) as"

text \<open>
  The loops over the content of an element, one step per token. They take the function that
  reads an element (\<open>deserializeElement\<close>) as an argument, so that its recursion is in one place.
\<close>

type_synonym reader = "string \<Rightarrow> (string \<times> string) list \<Rightarrow> deserializer \<Rightarrow> goval run"

primrec des_list :: "nat \<Rightarrow> reader \<Rightarrow> deserializer \<Rightarrow> goval list run" where
  "des_list 0 el d = None"
| "des_list (Suc f) el d =
     bind_run (Some (next_token d)) (\<lambda>d1 t.
       case t of
         XStart n as \<Rightarrow>
           bind_run (el n as d1) (\<lambda>d2 v.
             bind_run (des_list f el d2) (\<lambda>d3 vs. Some (d3, Ret (v # vs))))
       | XEnd n \<Rightarrow> if n = ''LST'' then Some (d1, Ret []) else des_list f el d1
       | XText u \<Rightarrow> des_list f el d1)"

primrec des_entry :: "nat \<Rightarrow> reader \<Rightarrow> string \<Rightarrow> goval \<Rightarrow> deserializer \<Rightarrow> (string \<times> goval) run" where
  "des_entry 0 el k v d = None"
| "des_entry (Suc f) el k v d =
     bind_run (Some (next_token d)) (\<lambda>d1 t.
       case t of
         XStart n as \<Rightarrow>
           bind_run (el n as d1) (\<lambda>d2 x.
             if has_N ''Key'' as then
               des_entry f el (case x of VString s \<Rightarrow> s | _ \<Rightarrow> k) v d2
             else if has_N ''Value'' as then des_entry f el k x d2
             else des_entry f el k v d2)
       | XEnd n \<Rightarrow> if n = ''En'' then Some (d1, Ret (k, v)) else des_entry f el k v d1
       | XText u \<Rightarrow> des_entry f el k v d1)"

primrec des_dict ::
  "nat \<Rightarrow> reader \<Rightarrow> (string \<times> goval) list \<Rightarrow> deserializer \<Rightarrow> (string \<times> goval) list run" where
  "des_dict 0 el m d = None"
| "des_dict (Suc f) el m d =
     bind_run (Some (next_token d)) (\<lambda>d1 t.
       case t of
         XStart n as \<Rightarrow>
           if n = ''En'' then
             bind_run (des_entry f el [] VNil d1)
               (\<lambda>d2 kv. des_dict f el (AList.update (fst kv) (snd kv) m) d2)
           else bind_run (Some (Skip d1)) (\<lambda>d2 _. des_dict f el m d2)
       | XEnd n \<Rightarrow> if n = ''DCT'' then Some (d1, Ret m) else des_dict f el m d1
       | XText u \<Rightarrow> des_dict f el m d1)"

primrec des_props ::
  "nat \<Rightarrow> reader \<Rightarrow> (string \<times> goval) list \<Rightarrow> deserializer \<Rightarrow> (string \<times> goval) list run" where
  "des_props 0 el m d = None"
| "des_props (Suc f) el m d =
     bind_run (Some (next_token d)) (\<lambda>d1 t.
       case t of
         XStart n as \<Rightarrow>
           bind_run (el n as d1) (\<lambda>d2 x.
             des_props f el
               (if attr_first ''N'' as \<noteq> [] then AList.update (attr_first ''N'' as) x m else m) d2)
       | XEnd n \<Rightarrow>
           if n = ''Props'' \<or> n = ''MS'' then Some (d1, Ret m) else des_props f el m d1
       | XText u \<Rightarrow> des_props f el m d1)"

primrec des_obj ::
  "nat \<Rightarrow> reader \<Rightarrow> int option \<Rightarrow> string list \<Rightarrow> (string \<times> goval) list \<Rightarrow> string \<Rightarrow> goval \<Rightarrow> bool \<Rightarrow>
    deserializer \<Rightarrow> goval run" where
  "des_obj 0 el r tns m ts v hasD d = None"
| "des_obj (Suc f) el r tns m ts v hasD d =
     bind_run (Some (next_token d)) (\<lambda>d1 t.
       case t of
         XStart n as \<Rightarrow>
           if n = ''TN'' then
             bind_run (Some (deserializeTypeNames d1)) (\<lambda>d2 names.
               des_obj f el r names m ts v hasD
                 (if r \<noteq> None then store_tns (ref_ids as) names d2 else d2))
           else if n = ''TNRef'' then
             bind_run (Some (Skip d1)) (\<lambda>d2 _.
               des_obj f el r (find_tns (ref_ids as) d1 tns) m ts v hasD d2)
           else if n = ''ToString'' then
             bind_run (Some (DecodeElement d1)) (\<lambda>d2 s.
               des_obj f el r tns m (decodeCLIXMLString s) v hasD d2)
           else if n = ''Props'' \<or> n = ''MS'' then
             bind_run (des_props f el [] d1) (\<lambda>d2 props. des_obj f el r tns props ts v hasD d2)
           else if n = ''DCT'' then
             bind_run (des_dict f el [] d1) (\<lambda>d2 dict.
               if is_hashtable tns then Some (store_ref r (VMap dict) d2, Ret (VMap dict))
               else des_obj f el r tns (AList.updates (map fst dict) (map snd dict) m) ts v True d2)
           else if n = ''LST'' then
             bind_run (des_list f el d1) (\<lambda>d2 vs.
               Some (store_ref r (VSlice vs) d2, Ret (VSlice vs)))
           else
             bind_run (el n as d1) (\<lambda>d2 x.
               if x = VNil then des_obj f el r tns m ts v hasD d2
               else if attr_first ''N'' as \<noteq> [] then
                 des_obj f el r tns (AList.update (attr_first ''N'' as) x m) ts v hasD d2
               else des_obj f el r tns m ts x hasD d2)
       | XEnd n \<Rightarrow>
           if n = ''Obj'' then
             (let ob = VObject (PSObject tns m [] [] ts v) in
              Some (if hasD \<and> is_hashtable tns then d1 else store_ref r ob d1, Ret ob))
           else des_obj f el r tns m ts v hasD d1
       | XText u \<Rightarrow> des_obj f el r tns m ts v hasD d1)"

text \<open>\<open>deserializeElement\<close>, with its recursive calls through \<open>el\<close>.\<close>

definition elem_step :: "codec_env \<Rightarrow> nat \<Rightarrow> reader \<Rightarrow> reader" where
  "elem_step E f el n as d =
     (if maxDepth d \<le> ddepth d then Some (d, Fail (EWrap ''depth'' (EIs ErrMaxRecursionDepth)))
      else if n = ''Nil'' then
        bind_run (Some (wrap_st ''skip nil'' (Skip d))) (\<lambda>d1 _. Some (d1, Ret VNil))
      else if n = ''S'' then
        text_elem ''decode string'' (\<lambda>t. Ret (VString (decodeCLIXMLString t))) d
      else if n = ''I32'' then
        text_elem ''decode int32'' (\<lambda>t. of_option ''strconv.ParseInt'' VInt32 (ParseInt 32 t)) d
      else if n = ''I64'' then
        text_elem ''decode int64'' (\<lambda>t. of_option ''strconv.ParseInt'' VInt64 (ParseInt 64 t)) d
      else if n = ''B'' then text_elem ''decode bool'' (\<lambda>t. Ret (VBool (t = ''true''))) d
      else if n = ''Db'' then
        text_elem ''decode double'' (\<lambda>t. of_option ''strconv.ParseFloat'' VFloat (parse_float E t)) d
      else if n = ''BA'' then
        text_elem ''decode byte array'' (\<lambda>t. of_option ''illegal base64'' VBytes (b64_decode t)) d
      else if n = ''G'' then
        text_elem ''decode guid'' (\<lambda>t. of_option ''invalid UUID'' VUUID (uuid_Parse E t)) d
      else if n = ''DT'' then
        text_elem ''decode datetime'' (\<lambda>t. of_option ''parsing time'' VTime (parse_time E t)) d
      else if n = ''LST'' then
        leave (bind_run (des_list f el (enter d)) (\<lambda>d1 vs. Some (d1, Ret (VSlice vs))))
      else if n = ''DCT'' then
        leave (bind_run (des_dict f el [] (enter d)) (\<lambda>d1 m. Some (d1, Ret (VMap m))))
      else if n = ''Obj'' then
        leave (des_obj f el (if ref_ids as = [] then None else Some (last (ref_ids as)))
          [] [] [] VNil False (enter d))
      else if n = ''Ref'' then deserializeRef as d
      else if n = ''SS'' then text_elem ''decode secure string'' (secure_value E d) d
      else if n = ''SB'' then
        text_elem ''decode script block'' (\<lambda>t. Ret (VScript (decodeCLIXMLString t))) d
      else if n = ''Version'' then text_elem ''decode version'' (\<lambda>t. Ret (VString t)) d
      else bind_run (Some (wrap_st ''skip unknown'' (Skip d))) (\<lambda>d1 _. Some (d1, Ret VNil)))"

primrec des_elem :: "nat \<Rightarrow> codec_env \<Rightarrow> reader" where
  "des_elem 0 E = (\<lambda>n as d. None)"
| "des_elem (Suc f) E = elem_step E f (des_elem f E)"

lemma des_elem_code [code]:
  "des_elem 0 E n as d = None"
  "des_elem (Suc f) E n as d = elem_step E f (des_elem f E) n as d"
  by simp_all

declare des_list.simps(2) [simp del] des_dict.simps(2) [simp del] des_entry.simps(2) [simp del]
  des_props.simps(2) [simp del] des_obj.simps(2) [simp del] des_elem.simps(2) [simp del]

section \<open>Documents\<close>

primrec des_objs :: "nat \<Rightarrow> reader \<Rightarrow> deserializer \<Rightarrow> goval list run" where
  "des_objs 0 el d = None"
| "des_objs (Suc f) el d =
     (case next_token d of
        (d1, Ret (XStart n as)) \<Rightarrow>
          bind_run (el n as d1) (\<lambda>d2 v.
            bind_run (des_objs f el d2) (\<lambda>d3 vs. Some (d3, Ret (v # vs))))
      | (d1, Ret (XEnd n)) \<Rightarrow> if n = ''Objs'' then Some (d1, Ret []) else des_objs f el d1
      | (d1, Ret (XText t)) \<Rightarrow> des_objs f el d1
      | (d1, _) \<Rightarrow> Some (d1, Fail (EWrap ''read token'' (EIs ErrInvalidCLIXML))))"

declare des_objs.simps(2) [simp del]

fun find_root :: "xtok list \<Rightarrow> (string \<times> (string \<times> string) list \<times> xtok list) option" where
  "find_root [] = None"
| "find_root (XStart n as # ts) = Some (n, as, ts)"
| "find_root (_ # ts) = find_root ts"

definition strip_bom :: "bytes \<Rightarrow> bytes" where
  "strip_bom data = (if take 3 data = [0xEF, 0xBB, 0xBF] then drop 3 data else data)"

definition fuel_for :: "xtok list \<Rightarrow> nat" where
  "fuel_for ts = length ts + 2"

definition Deserialize_run :: "nat \<Rightarrow> codec_env \<Rightarrow> xtok list \<times> gerr \<Rightarrow> deserializer \<Rightarrow> goval list run"
  where
  "Deserialize_run f E toks d =
     (case find_root (fst toks) of
        None \<Rightarrow>
          Some (d\<lparr>dtoks := [], derr := snd toks\<rparr>, Fail (EWrap ''no root'' (EIs ErrInvalidCLIXML)))
      | Some (n, as, ts) \<Rightarrow>
          let d1 = d\<lparr>dtoks := ts, derr := snd toks\<rparr> in
          if n = ''Objs'' then des_objs f (des_elem f E) d1
          else bind_run (des_elem f E n as d1) (\<lambda>d2 v. Some (d2, Ret [v])))"

definition Deserialize :: "codec_env \<Rightarrow> bytes \<Rightarrow> deserializer \<Rightarrow> deserializer \<times> goval list outcome"
  where
  "Deserialize E data d =
     (let toks = xml_tokens (string_of_bytes (strip_bom data)) in
      case Deserialize_run (fuel_for (fst toks)) E toks d of
        Some r \<Rightarrow> r
      | None \<Rightarrow> (d, Fail (EIs ErrInvalidCLIXML)))"

text \<open>A document with a deserializer of its own, as every caller in the program reads it.\<close>

definition unmarshal :: "codec_env \<Rightarrow> bytes \<Rightarrow> goval list outcome" where
  "unmarshal E data = snd (Deserialize E data NewDeserializer)"

end
