(* ===== verification/Xml_Lex.thy ===== *)
theory Xml_Lex
  imports Xml
begin

text \<open>
  How the XML decoder reads the pieces that the serializer writes: start, end and self-closing
  tags with clean attribute values, raw text, and text that went through \<open>EscapeText\<close>. Each
  lemma lets \<open>x_tokens\<close> step over one piece, whatever follows it.
\<close>

definition lex_cons :: "xtok list \<Rightarrow> xtok list \<times> gerr \<Rightarrow> xtok list \<times> gerr" where
  "lex_cons ts p = (ts @ fst p, snd p)"

lemma lex_cons_cons [simp]: "lex_cons xs (lex_cons ys p) = lex_cons (xs @ ys) p"
  by (simp add: lex_cons_def)

lemma lex_cons_Nil [simp]: "lex_cons [] p = p"
  by (simp add: lex_cons_def)

section \<open>Names\<close>

definition simple_name :: "string \<Rightarrow> bool" where
  "simple_name n \<longleftrightarrow>
     list_all (\<lambda>c. is_letter c \<or> is_digit c) n \<and> (case n of [] \<Rightarrow> False | c # _ \<Rightarrow> is_letter c)"

lemma letter_not:
  assumes "is_letter c"
  shows "\<not> is_space c" "c \<noteq> CHR ''/''" "c \<noteq> CHR ''>''" "c \<noteq> CHR ''?''" "c \<noteq> CHR ''!''"
proof -
  show "\<not> is_space c" using assms by (auto simp: is_letter_def is_space_def)
  have "\<not> is_letter (CHR ''/'')" "\<not> is_letter (CHR ''>'')" "\<not> is_letter (CHR ''?'')"
    "\<not> is_letter (CHR ''!'')" by (simp_all add: is_letter_def of_char_def)
  with assms show "c \<noteq> CHR ''/''" "c \<noteq> CHR ''>''" "c \<noteq> CHR ''?''" "c \<noteq> CHR ''!''" by metis+
qed

lemma letter_name_part: "is_letter c \<or> is_digit c \<Longrightarrow> is_name_part c \<and> c \<noteq> CHR '':'' \<and> isNameByte c"
proof -
  assume a: "is_letter c \<or> is_digit c"
  have "\<not> (is_letter (CHR '':'') \<or> is_digit (CHR '':''))"
    by (simp add: is_letter_def is_digit_def of_char_def)
  with a have "c \<noteq> CHR '':''" by metis
  with a show ?thesis by (auto simp: is_name_part_def isNameByte_def)
qed

lemma takeWhile_append_stop:
  "list_all P xs \<Longrightarrow> \<not> P c \<Longrightarrow> takeWhile P (xs @ c # ys) = xs \<and> dropWhile P (xs @ c # ys) = c # ys"
  by (induction xs) auto

lemma x_name_simple:
  assumes "simple_name n" and "\<not> is_name_part c"
  shows "x_name (n @ c # rest) = Some (n, c # rest)"
proof -
  have l: "list_all is_name_part n" and b: "list_all isNameByte n"
    using assms(1) letter_name_part unfolding simple_name_def list_all_iff by blast+
  have a: "ascii_name n"
    using assms(1) b by (auto simp: simple_name_def ascii_name_def split: list.splits)
  show ?thesis
    using takeWhile_append_stop [OF l assms(2), of rest] a by (simp add: x_name_def)
qed

lemma simple_no_colon: "simple_name n \<Longrightarrow> CHR '':'' \<notin> set n"
  using letter_name_part by (auto simp: simple_name_def list_all_iff)

lemma split_simple: "simple_name n \<Longrightarrow> split_name n = ([], n)"
proof -
  assume "simple_name n"
  then have "\<forall>c\<in>set n. c \<noteq> CHR '':''" using simple_no_colon by blast
  then have "dropWhile (\<lambda>c. c \<noteq> CHR '':'') n = []" by (simp add: dropWhile_eq_Nil_conv)
  then show ?thesis by (simp add: split_name_def)
qed

lemma x_nsname_simple:
  assumes "simple_name n" and "\<not> is_name_part c"
  shows "x_nsname (n @ c # rest) = Some (([], n), c # rest)"
proof -
  have "count_list n (CHR '':'') = 0" using simple_no_colon [OF assms(1)] by (simp add: count_list_0_iff)
  then show ?thesis
    using x_name_simple [OF assms, of rest] by (simp add: x_nsname_def split_simple [OF assms(1)])
qed

section \<open>Attributes\<close>

text \<open>An attribute value that is written and read as it is.\<close>

definition clean_value :: "string \<Rightarrow> bool" where
  "clean_value v \<longleftrightarrow>
     x_valid v \<and>
     list_all (\<lambda>c. c \<noteq> CHR ''\"'' \<and> c \<noteq> CHR ''<'' \<and> c \<noteq> CHR ''&'' \<and> c \<noteq> CHR 0x0D) v"

lemma x_text_quoted:
  "list_all (\<lambda>c. c \<noteq> CHR ''\"'' \<and> c \<noteq> CHR ''<'' \<and> c \<noteq> CHR ''&'' \<and> c \<noteq> CHR 0x0D) v \<Longrightarrow>
    b1 \<noteq> CHR 0x0D \<Longrightarrow>
    x_text (Some (CHR ''\"'')) False b0 b1 acc (v @ CHR ''\"'' # rest) = Some (rev acc @ v, rest)"
  by (induction v arbitrary: b0 b1 acc) (subst x_text.simps, force)+

lemma x_checked_quoted:
  "clean_value v \<Longrightarrow> x_checked_text (Some (CHR ''\"'')) False (v @ CHR ''\"'' # rest) = Some (v, rest)"
  by (simp add: x_checked_text_def clean_value_def x_text_quoted)

definition attr_text :: "(string \<times> string) list \<Rightarrow> string" where
  "attr_text as = concat (map (\<lambda>(k, v). '' '' @ k @ ''=\"'' @ v @ ''\"'') as)"

definition clean_attrs :: "(string \<times> string) list \<Rightarrow> bool" where
  "clean_attrs as \<longleftrightarrow> list_all (\<lambda>(k, v). simple_name k \<and> clean_value v) as"

lemma space_facts:
  "\<not> is_name_part (CHR '' '')" "\<not> is_name_part (CHR ''='')" "\<not> is_name_part (CHR ''>'')"
  "\<not> is_name_part (CHR ''/'')" "\<not> is_space (CHR ''='')" "\<not> is_space (CHR ''\"'')"
  "\<not> is_space (CHR ''>'')" "\<not> is_space (CHR ''/'')" "is_space (CHR '' '')"
  by (simp_all add: is_name_part_def isNameByte_def is_letter_def is_digit_def is_space_def
      of_char_def)

lemma simple_not_space: "simple_name (c # n) \<Longrightarrow> \<not> is_space c \<and> c \<noteq> CHR ''/'' \<and> c \<noteq> CHR ''>''"
  by (auto simp: simple_name_def dest: letter_not)

lemma x_attr_clean:
  assumes "simple_name k" and "clean_value v"
  shows "x_attr (k @ ''=\"'' @ v @ CHR ''\"'' # rest) = Some ((k, v), rest)"
  using x_nsname_simple [OF assms(1) space_facts(2), of "CHR ''\"'' # v @ CHR ''\"'' # rest"]
    x_checked_quoted [OF assms(2), of rest]
  by (simp add: x_attr_def x_space_def space_facts)

lemma x_attrs_clean:
  assumes "clean_attrs as"
  shows "x_attrs (attr_text as @ CHR ''>'' # rest) = Some (as, False, rest)"
    and "x_attrs (attr_text as @ ''/>'' @ rest) = Some (as, True, rest)"
proof -
  have "x_attrs (attr_text as @ tl) = Some (as, closed, rest)"
    if end_: "x_attrs tl = Some ([], closed, rest)" for tl closed
    using assms
  proof (induction as)
    case Nil
    then show ?case using end_ by (simp add: attr_text_def)
  next
    case (Cons a as)
    obtain k v where a: "a = (k, v)" by (cases a)
    with Cons.prems have kv: "simple_name k" "clean_value v" and as: "clean_attrs as"
      by (auto simp: clean_attrs_def)
    obtain c n where k: "k = c # n" using kv(1) by (cases k) (auto simp: simple_name_def)
    have sp: "x_space (CHR '' '' # k @ r) = k @ r" for r
      using simple_not_space [of c n] kv(1) k by (simp add: x_space_def space_facts)
    have at: "attr_text (a # as) @ tl =
        CHR '' '' # k @ (''=\"'' @ v @ CHR ''\"'' # attr_text as @ tl)"
      by (simp add: attr_text_def a)
    have "x_attrs (attr_text as @ tl) = Some (as, closed, rest)" by (rule Cons.IH [OF as])
    moreover have "x_attr (k @ ''=\"'' @ v @ CHR ''\"'' # attr_text as @ tl) =
        Some ((k, v), attr_text as @ tl)"
      by (rule x_attr_clean [OF kv])
    ultimately show ?case
      unfolding at using simple_not_space [of c n] kv(1)
      by (subst x_attrs.simps) (simp add: sp [unfolded k, simplified] Let_def k a)
  qed
  note gen = this
  show "x_attrs (attr_text as @ CHR ''>'' # rest) = Some (as, False, rest)"
    by (rule gen, subst x_attrs.simps) (simp add: x_space_def space_facts)
  show "x_attrs (attr_text as @ ''/>'' @ rest) = Some (as, True, rest)"
    by (rule gen, subst x_attrs.simps) (simp add: x_space_def space_facts)
qed

section \<open>Tags\<close>

lemma x_tokens_step:
  assumes "rawToken s = Some (ts, rest)" and "x_nest stk ts = Some stk1"
  shows "x_tokens stk s = lex_cons (map x_tok ts) (x_tokens stk1 rest)"
proof -
  have "s \<noteq> []" using assms(1) by (auto simp: rawToken_def)
  then show ?thesis using assms
    by (subst x_tokens.simps) (simp add: lex_cons_def case_prod_unfold Let_def)
qed

lemma attr_text_head: "attr_text as @ CHR ''>'' # rest = c # r \<Longrightarrow> \<not> is_name_part c"
  "attr_text as @ ''/>'' @ rest = c # r \<Longrightarrow> \<not> is_name_part c"
  by (cases as; auto simp: attr_text_def space_facts)+

lemma x_start_clean:
  assumes "simple_name n" and "clean_attrs as"
  shows "x_start (n @ attr_text as @ CHR ''>'' # rest) = Some ([RStart ([], n) as], rest)"
    and "x_start (n @ attr_text as @ ''/>'' @ rest) = Some ([RStart ([], n) as, REnd ([], n)], rest)"
proof -
  obtain c r where c: "attr_text as @ CHR ''>'' # rest = c # r" by (cases "attr_text as @ CHR ''>'' # rest") auto
  show "x_start (n @ attr_text as @ CHR ''>'' # rest) = Some ([RStart ([], n) as], rest)"
    unfolding c
    using x_nsname_simple [OF assms(1) attr_text_head(1) [OF c], of r] x_attrs_clean(1) [OF assms(2), of rest]
    unfolding c by (simp add: x_start_def)
next
  obtain c r where c: "attr_text as @ ''/>'' @ rest = c # r" by (cases "attr_text as @ ''/>'' @ rest") auto
  show "x_start (n @ attr_text as @ ''/>'' @ rest) = Some ([RStart ([], n) as, REnd ([], n)], rest)"
    unfolding c
    using x_nsname_simple [OF assms(1) attr_text_head(2) [OF c], of r] x_attrs_clean(2) [OF assms(2), of rest]
    unfolding c by (simp add: x_start_def)
qed

lemma rawToken_tag:
  assumes "simple_name n"
  shows "rawToken (CHR ''<'' # n @ s) = x_start (n @ s)"
proof -
  obtain c m where n: "n = c # m" using assms by (cases n) (auto simp: simple_name_def)
  then have "c \<noteq> CHR ''/''" "c \<noteq> CHR ''?''" "c \<noteq> CHR ''!''"
    using assms by (auto simp: simple_name_def dest: letter_not)
  then show ?thesis by (simp add: rawToken_def n)
qed

lemma lex_start:
  assumes "simple_name n" and "clean_attrs as"
  shows "x_tokens stk (''<'' @ n @ attr_text as @ ''>'' @ rest) =
    lex_cons [XStart n as] (x_tokens (([], n) # stk) rest)"
  using x_tokens_step [of "''<'' @ n @ attr_text as @ ''>'' @ rest" "[RStart ([], n) as]" rest stk]
  by (simp add: rawToken_tag [OF assms(1)] x_start_clean(1) [OF assms])

lemma lex_closed:
  assumes "simple_name n" and "clean_attrs as"
  shows "x_tokens stk (''<'' @ n @ attr_text as @ ''/>'' @ rest) =
    lex_cons [XStart n as, XEnd n] (x_tokens stk rest)"
  using x_tokens_step [of "''<'' @ n @ attr_text as @ ''/>'' @ rest"
      "[RStart ([], n) as, REnd ([], n)]" rest stk]
  using x_start_clean(2) [OF assms, of rest]
  by (simp add: rawToken_tag [OF assms(1)])

lemma lex_end:
  assumes "simple_name n"
  shows "x_tokens (([], n) # stk) (''</'' @ n @ ''>'' @ rest) = lex_cons [XEnd n] (x_tokens stk rest)"
proof -
  have "x_end (n @ CHR ''>'' # rest) = Some ([REnd ([], n)], rest)"
    using x_nsname_simple [OF assms space_facts(3), of rest]
    by (simp add: x_end_def x_space_def space_facts)
  then have "rawToken (''</'' @ n @ ''>'' @ rest) = Some ([REnd ([], n)], rest)"
    by (simp add: rawToken_def)
  from x_tokens_step [OF this, of "([], n) # stk" stk] show ?thesis by simp
qed

section \<open>Text\<close>

text \<open>\<open>reads s t\<close>: the text \<open>s\<close> between two tags is read as \<open>t\<close>.\<close>

inductive reads :: "string \<Rightarrow> string \<Rightarrow> bool" where
  reads_Nil: "reads [] []"
| reads_plain:
    "c \<noteq> CHR ''<'' \<Longrightarrow> c \<noteq> CHR ''&'' \<Longrightarrow> c \<noteq> CHR ''>'' \<Longrightarrow> c \<noteq> CHR 0x0D \<Longrightarrow> reads s t \<Longrightarrow>
      reads (c # s) (c # t)"
| reads_entity:
    "(\<And>r. x_entity (e @ r) = Some (u, r)) \<Longrightarrow> reads s t \<Longrightarrow> reads (CHR ''&'' # e @ s) (u @ t)"

lemma x_text_reads:
  "reads s t \<Longrightarrow> b1 \<noteq> CHR 0x0D \<Longrightarrow>
    x_text None False b0 b1 acc (s @ CHR ''<'' # rest) = Some (rev acc @ t, CHR ''<'' # rest)"
proof (induction s t arbitrary: b0 b1 acc rule: reads.induct)
  case reads_Nil
  then show ?case by (subst x_text.simps) simp
next
  case (reads_plain c s t)
  then show ?case by (subst x_text.simps) auto
next
  case (reads_entity e u s t)
  then show ?case by (subst x_text.simps) simp
qed

lemma lex_text:
  assumes "reads s t" and "x_valid t" and "s \<noteq> []"
  shows "x_tokens stk (s @ CHR ''<'' # rest) = lex_cons [XText t] (x_tokens stk (CHR ''<'' # rest))"
proof -
  obtain c r where c: "s = c # r" using assms(3) by (cases s) auto
  then have "c \<noteq> CHR ''<''" using assms(1) by (auto elim: reads.cases)
  moreover have "x_checked_text None False (s @ CHR ''<'' # rest) = Some (t, CHR ''<'' # rest)"
    using assms(1,2) by (simp add: x_checked_text_def x_text_reads)
  ultimately have "rawToken (s @ CHR ''<'' # rest) = Some ([RText t], CHR ''<'' # rest)"
    by (simp add: rawToken_def c)
  from x_tokens_step [OF this, of stk stk] show ?thesis by simp
qed

definition texts :: "string \<Rightarrow> string \<Rightarrow> xtok list" where
  "texts s t = (if s = [] then [] else [XText t])"

lemma lex_texts:
  assumes "reads s t" and "x_valid t"
  shows "x_tokens stk (s @ CHR ''<'' # rest) = lex_cons (texts s t) (x_tokens stk (CHR ''<'' # rest))"
  using lex_text [OF assms] by (simp add: texts_def)

lemma reads_append: "reads s t \<Longrightarrow> reads s' t' \<Longrightarrow> reads (s @ s') (t @ t')"
  by (induction s t rule: reads.induct) (auto intro: reads.intros)

lemma reads_raw:
  "list_all (\<lambda>c. c \<noteq> CHR ''<'' \<and> c \<noteq> CHR ''&'' \<and> c \<noteq> CHR ''>'' \<and> c \<noteq> CHR 0x0D) s \<Longrightarrow> reads s s"
  by (induction s) (auto intro: reads.intros)

section \<open>Clean text\<close>

text \<open>Valid UTF-8 whose runes XML allows.\<close>

definition clean :: "string \<Rightarrow> bool" where
  "clean s \<longleftrightarrow> (\<exists>rs. s = utf8 rs \<and> (\<forall>r\<in>set rs. valid_rune r \<and> isInCharacterRange r))"

lemma clean_Nil [simp]: "clean []"
  unfolding clean_def by (rule exI [of _ "[]"]) simp

lemma clean_append: "clean s \<Longrightarrow> clean t \<Longrightarrow> clean (s @ t)"
proof -
  assume "clean s" "clean t"
  then obtain xs ys where "s = utf8 xs" "\<forall>r\<in>set xs. valid_rune r \<and> isInCharacterRange r"
    "t = utf8 ys" "\<forall>r\<in>set ys. valid_rune r \<and> isInCharacterRange r" by (auto simp: clean_def)
  then show ?thesis unfolding clean_def by (intro exI [of _ "xs @ ys"]) auto
qed

lemma encode_valid_code: "code c < 128 \<Longrightarrow> encode_valid (code c) = [c]"
  by (simp add: encode_valid_def)

lemma clean_ascii: "list_all (\<lambda>c. 32 \<le> code c \<and> code c < 127) s \<Longrightarrow> clean s"
proof (induction s)
  case (Cons c s)
  have "clean [c]" unfolding clean_def
    using Cons.prems
    by (intro exI [of _ "[code c]"])
      (simp add: encode_valid_code valid_rune_def isInCharacterRange_def)
  from clean_append [OF this, of s] Cons show ?case by simp
qed simp

lemma x_valid_utf8:
  "\<forall>r\<in>set rs. valid_rune r \<and> isInCharacterRange r \<Longrightarrow> x_valid (utf8 rs)"
proof (induction rs)
  case Nil
  show ?case by (subst x_valid.simps) simp
next
  case (Cons r rs)
  have "r = RuneError \<Longrightarrow> length (encode_valid r) \<noteq> 1" by (simp add: RuneError_def encode_valid_def)
  with Cons show ?case
    by (subst x_valid.simps) (auto simp: decode_encode_valid)
qed

lemma x_valid_clean: "clean s \<Longrightarrow> x_valid s"
  by (auto simp: clean_def x_valid_utf8)

text \<open>\<open>EscapeText\<close> of clean text is read as that text.\<close>

lemma x_named_entity:
  assumes "list_all is_name_part n" and "entity_text n = Some t" and "hd n \<noteq> CHR ''#''" and "n \<noteq> []"
  shows "x_entity (n @ CHR '';'' # r) = Some (t, r)"
proof -
  have "\<not> is_name_part (CHR '';'')" by code_simp
  from takeWhile_append_stop [OF assms(1) this, of r] assms(2-) show ?thesis
    by (cases n) (auto simp: x_entity_def x_named_def)
qed

lemma x_decimal_entity:
  assumes "list_all is_digit n" and "number_in 10 n = Some k" and "hd n \<noteq> CHR ''x''"
  shows "x_entity (CHR ''#'' # n @ CHR '';'' # r) = Some (encode_rune k, r)"
proof -
  have "\<not> is_digit (CHR '';'')" by code_simp
  from takeWhile_append_stop [OF assms(1) this, of r] assms(2-) show ?thesis
    by (cases n) (auto simp: x_entity_def x_charref_def number_in_def)
qed

lemma x_hex_entity:
  assumes "list_all is_hex n" and "number_in 16 n = Some k"
  shows "x_entity (CHR ''#'' # CHR ''x'' # n @ CHR '';'' # r) = Some (encode_rune k, r)"
proof -
  have "\<not> is_hex (CHR '';'')" by code_simp
  from takeWhile_append_stop [OF assms(1) this, of r] assms(2-) show ?thesis
    by (simp add: x_entity_def x_charref_def)
qed

lemma reads_escaped:
  assumes "\<And>r. x_entity (e @ r) = Some (u, r)"
  shows "reads (CHR ''&'' # e) u"
  using reads_entity [OF assms reads_Nil] by simp

lemma reads_entities:
  "reads ''&lt;'' ''<''" "reads ''&gt;'' ''>''" "reads ''&amp;'' ''&''"
  "reads ''&#34;'' (encode_rune 34)" "reads ''&#39;'' (encode_rune 39)"
  "reads ''&#x9;'' (encode_rune 9)" "reads ''&#xA;'' (encode_rune 10)"
  "reads ''&#xD;'' (encode_rune 13)"
proof -
  have a: "list_all is_name_part ''lt'' \<and> entity_text ''lt'' = Some ''<''"
    "list_all is_name_part ''gt'' \<and> entity_text ''gt'' = Some ''>''"
    "list_all is_name_part ''amp'' \<and> entity_text ''amp'' = Some ''&''"
    by code_simp+
  have b: "list_all is_digit ''34'' \<and> number_in 10 ''34'' = Some 34"
    "list_all is_digit ''39'' \<and> number_in 10 ''39'' = Some 39"
    "list_all is_hex ''9'' \<and> number_in 16 ''9'' = Some 9"
    "list_all is_hex ''A'' \<and> number_in 16 ''A'' = Some 10"
    "list_all is_hex ''D'' \<and> number_in 16 ''D'' = Some 13"
    by (simp_all add: number_in_def hex_nat_def is_hex_def is_digit_def of_char_def MaxRune_def)
  show "reads ''&lt;'' ''<''" "reads ''&gt;'' ''>''" "reads ''&amp;'' ''&''"
    using a x_named_entity [of "''lt''" "''<''"] x_named_entity [of "''gt''" "''>''"]
      x_named_entity [of "''amp''" "''&''"]
    by (intro reads_escaped; simp)+
  show "reads ''&#34;'' (encode_rune 34)" "reads ''&#39;'' (encode_rune 39)"
    "reads ''&#x9;'' (encode_rune 9)" "reads ''&#xA;'' (encode_rune 10)"
    "reads ''&#xD;'' (encode_rune 13)"
    using b x_decimal_entity [of "''34''" 34] x_decimal_entity [of "''39''" 39]
      x_hex_entity [of "''9''" 9] x_hex_entity [of "''A''" 10] x_hex_entity [of "''D''" 13]
    by (intro reads_escaped; simp)+
qed

lemma encode_marks:
  "encode_valid 60 = ''<''" "encode_valid 62 = ''>''" "encode_valid 38 = ''&''"
  by code_simp+

lemma reads_plain_rune:
  assumes "valid_rune r" and "r \<noteq> 60" and "r \<noteq> 38" and "r \<noteq> 62" and "r \<noteq> 13"
  shows "reads (encode_valid r) (encode_valid r)"
proof (rule reads_raw, unfold list_all_iff, rule ballI)
  fix c
  assume "c \<in> set (encode_valid r)"
  from encode_valid_codes [OF assms(1) this] assms(2-)
  have "code c \<noteq> 60" "code c \<noteq> 38" "code c \<noteq> 62" "code c \<noteq> 13" by auto
  then show "c \<noteq> CHR ''<'' \<and> c \<noteq> CHR ''&'' \<and> c \<noteq> CHR ''>'' \<and> c \<noteq> CHR 0x0D"
    by (auto simp: of_char_def)
qed

lemma reads_escape_one:
  assumes "valid_rune r" and "isInCharacterRange r"
  shows "reads (escape_one r (length (encode_valid r)) (encode_valid r)) (encode_valid r)"
proof -
  have e: "r = RuneError \<Longrightarrow> length (encode_valid r) \<noteq> Suc 0"
    by (simp add: RuneError_def encode_valid_def)
  have v: "encode_rune r = encode_valid r" using assms(1) by simp
  consider "r \<in> {34, 39, 38, 60, 62, 9, 10, 13}" | "r \<notin> {34, 39, 38, 60, 62, 9, 10, 13}" by blast
  then show ?thesis
  proof cases
    case 1
    then show ?thesis
      using reads_entities v by (auto simp: escape_one_def encode_marks)
  next
    case 2
    then have "escape_one r (length (encode_valid r)) (encode_valid r) = encode_valid r"
      using assms(2) e by (auto simp: escape_one_def)
    with 2 reads_plain_rune [OF assms(1)] show ?thesis by simp
  qed
qed

lemma reads_EscapeText:
  "\<forall>r\<in>set rs. valid_rune r \<and> isInCharacterRange r \<Longrightarrow> reads (xml_EscapeText (utf8 rs)) (utf8 rs)"
proof (induction rs)
  case Nil
  show ?case by (subst xml_EscapeText.simps) (simp add: reads_Nil)
next
  case (Cons r rs)
  then show ?case
    by (subst xml_EscapeText.simps)
      (simp add: decode_encode_valid reads_append reads_escape_one)
qed

end
