(* ===== verification/Clixml_Roundtrip.thy ===== *)
theory Clixml_Roundtrip
  imports Clixml_Correct Xml_Lex
begin

text \<open>
  What the serializer writes is read back by the deserializer. \<open>norm\<close> is the value that comes
  back (the Go type of some values changes, a \<open>PSObject\<close> comes back with its members among its
  properties), \<open>plain\<close> says which values round trip. The relation \<open>emits\<close> joins the two sides:
  what one serializer step appends to the buffer, the tokens that the XML decoder makes of it,
  and the value that the deserializer makes of the tokens.
\<close>

section \<open>Strings\<close>

text \<open>Valid UTF-8 without the two noncharacters that XML excludes.\<close>

definition good_string :: "string \<Rightarrow> bool" where
  "good_string s \<longleftrightarrow>
     (\<exists>rs. s = utf8 rs \<and> (\<forall>r\<in>set rs. valid_rune r \<and> r \<noteq> 65534 \<and> r \<noteq> 65535))"

lemma hex_digits_ascii: "n < 16 \<Longrightarrow> 32 \<le> code (hexDigits ! n) \<and> code (hexDigits ! n) < 127"
  using hex_digit_of [of n] by (auto simp: isHexDigit_def)

lemma writeHex4_ascii: "list_all (\<lambda>c. 32 \<le> code c \<and> code c < 127) (writeHex4 v)"
proof -
  have "unat v div 4096 < 16" using unat_lt_2p [of v] by simp
  then show ?thesis
    by (simp add: writeHex4_eq hex4_def hex_digits_ascii)
qed

definition no_CR :: "string \<Rightarrow> bool" where
  "no_CR s \<longleftrightarrow> list_all (\<lambda>c. c \<noteq> CHR 0x0D) s"

lemma no_CR_append [simp]: "no_CR (s @ t) \<longleftrightarrow> no_CR s \<and> no_CR t"
  by (simp add: no_CR_def)

lemma ascii_no_CR: "list_all (\<lambda>c. 32 \<le> code c \<and> code c < 127) s \<Longrightarrow> no_CR s"
  by (auto simp: no_CR_def list_all_iff of_char_def)

lemma clean_encode_valid: "valid_rune r \<Longrightarrow> isInCharacterRange r \<Longrightarrow> clean (encode_valid r)"
  unfolding clean_def by (rule exI [of _ "[r]"]) simp

lemma escaped_rune_clean:
  assumes "valid_rune r" and "r \<noteq> 65534" and "r \<noteq> 65535"
  shows "clean (escaped_rune r) \<and> no_CR (escaped_rune r)"
proof (cases "needsCLIXMLCharEscape r")
  case True
  then show ?thesis
    using clean_append clean_ascii writeHex4_ascii ascii_no_CR
    by (auto simp: escaped_rune_def split: prod.splits)
next
  case False
  then have "isInCharacterRange r" and r: "31 < r"
    using assms by (auto simp: needsCLIXMLCharEscape_def isInCharacterRange_def valid_rune_def)
  moreover have "no_CR (encode_valid r)"
  proof -
    have "code (CHR 0x0D) = 13" by (simp add: of_char_def)
    then show ?thesis
      using encode_valid_codes [OF assms(1), of "CHR 0x0D"] r
      by (auto simp: no_CR_def list_all_iff)
  qed
  ultimately show ?thesis
    using False assms by (simp add: escaped_rune_def clean_encode_valid)
qed

lemma enc_runes_clean:
  "\<forall>r\<in>set rs. valid_rune r \<and> r \<noteq> 65534 \<and> r \<noteq> 65535 \<Longrightarrow>
    clean (enc_runes rs) \<and> no_CR (enc_runes rs)"
proof (induction rs)
  case (Cons r rs)
  have a: "list_all (\<lambda>c. 32 \<le> code c \<and> code c < 127) ''_x005F_''" by (simp add: of_char_def)
  have "clean ''_x005F_''" "no_CR ''_x005F_''" by (rule clean_ascii [OF a], rule ascii_no_CR [OF a])
  with Cons escaped_rune_clean [of r] show ?case
    by (auto simp del: append.simps(2) intro: clean_append)
qed (simp add: no_CR_def)

lemma good_string_encoded:
  assumes "good_string s"
  shows "clean (encodeCLIXMLString s)" and "no_CR (encodeCLIXMLString s)"
    and "decodeCLIXMLString (encodeCLIXMLString s) = s"
  using assms enc_runes_clean
  by (auto simp: good_string_def encodeCLIXMLString_utf8 decodeCLIXMLString_eq decode_enc_runes)

lemma reads_escaped_clean: "clean s \<Longrightarrow> reads (xml_EscapeText s) s"
  by (auto simp: clean_def reads_EscapeText)

lemma reads_string_body:
  assumes "good_string s"
  shows "reads (string_body s) (encodeCLIXMLString s)"
proof (cases "needsXMLEscape (encodeCLIXMLString s)")
  case True
  then show ?thesis
    using reads_escaped_clean good_string_encoded(1) [OF assms] by (simp add: string_body_def)
next
  case False
  have "reads (encodeCLIXMLString s) (encodeCLIXMLString s)"
    using False good_string_encoded(2) [OF assms]
    by (intro reads_raw) (auto simp: needsXMLEscape_def no_CR_def list_all_iff list_ex_iff)
  with False show ?thesis by (simp add: string_body_def)
qed

section \<open>The pieces of the output\<close>

definition lexes :: "string \<Rightarrow> xtok list \<Rightarrow> bool" where
  "lexes str ts \<longleftrightarrow> (\<forall>stk rest. x_tokens stk (str @ rest) = lex_cons ts (x_tokens stk rest))"

lemma lexes_Nil [simp]: "lexes [] []"
  by (simp add: lexes_def)

lemma lexes_append: "lexes s ts \<Longrightarrow> lexes t us \<Longrightarrow> lexes (s @ t) (ts @ us)"
  by (simp add: lexes_def)

definition name_attrs :: "string \<Rightarrow> (string \<times> string) list" where
  "name_attrs name = (if name = [] then [] else [(''N'', name)])"

definition name_ok :: "string \<Rightarrow> bool" where
  "name_ok name \<longleftrightarrow> name = [] \<or> clean_value name"

lemma attr_N_eq: "attr_N name = attr_text (name_attrs name)"
  by (simp add: attr_N_def attr_text_def name_attrs_def)

lemma simple_names [simp]: "simple_name ''N''" "simple_name ''RefId''"
  by code_simp+

lemma clean_name_attrs: "name_ok name \<Longrightarrow> clean_attrs (name_attrs name)"
  by (auto simp: name_ok_def name_attrs_def clean_attrs_def)

lemma lexes_element:
  assumes "simple_name tag" and "name_ok name" and "reads body t" and "x_valid t"
  shows "lexes (element tag name body)
    (XStart tag (name_attrs name) # texts body t @ [XEnd tag])"
proof (unfold lexes_def, intro allI)
  fix stk rest
  have c: "clean_attrs (name_attrs name)" by (rule clean_name_attrs [OF assms(2)])
  have "x_tokens stk (element tag name body @ rest) =
      x_tokens stk (''<'' @ tag @ attr_text (name_attrs name) @ ''>'' @
        (body @ CHR ''<'' # ''/'' @ tag @ ''>'' @ rest))"
    by (simp add: element_def open_tag_def close_tag_def attr_N_eq)
  also have "\<dots> = lex_cons [XStart tag (name_attrs name)]
      (x_tokens (([], tag) # stk) (body @ CHR ''<'' # ''/'' @ tag @ ''>'' @ rest))"
    by (rule lex_start [OF assms(1) c])
  also have "\<dots> = lex_cons (XStart tag (name_attrs name) # texts body t)
      (x_tokens (([], tag) # stk) (''</'' @ tag @ ''>'' @ rest))"
    by (simp add: lex_texts [OF assms(3,4)])
  also have "\<dots> = lex_cons (XStart tag (name_attrs name) # texts body t @ [XEnd tag])
      (x_tokens stk rest)"
    using lex_end [OF assms(1), of stk rest] by simp
  finally show "x_tokens stk (element tag name body @ rest) =
    lex_cons (XStart tag (name_attrs name) # texts body t @ [XEnd tag]) (x_tokens stk rest)" .
qed

lemma reads_Nil_iff: "reads [] t \<longleftrightarrow> t = []"
  by (auto elim: reads.cases intro: reads.intros)

lemma text_toks_element: "reads body t \<Longrightarrow> text_toks 0 (texts body t @ XEnd tag # us) = Some (t, us)"
  by (auto simp: texts_def reads_Nil_iff)

section \<open>One element\<close>

fun height :: "goval \<Rightarrow> nat" where
  "height (VSlice xs) = Suc (foldr (\<lambda>x. max (height x)) xs 0)"
| "height (VMap m) = Suc (foldr (\<lambda>(k, v). max (height v)) m 0)"
| "height (VObject (PSObject tns ps ms ks s v)) =
     Suc (max (if v = VNil then 0 else height v) (foldr (\<lambda>(k, v). max (height v)) ps 0))"
| "height _ = 1"

fun split_bar :: "string \<Rightarrow> string list" where
  "split_bar [] = [[]]"
| "split_bar (c # cs) =
     (if c = CHR ''|'' then [] # split_bar cs
      else case split_bar cs of [] \<Rightarrow> [[c]] | t # ts \<Rightarrow> (c # t) # ts)"

text \<open>The type names that a key of \<open>tnRefs\<close> stands for.\<close>

definition key_names :: "string \<Rightarrow> string list" where
  "key_names k = (if k = typeNameHashtable then hashtable_types else split_bar k)"

definition tn_rel :: "(string, int) fmap \<Rightarrow> (int, string list) fmap \<Rightarrow> bool" where
  "tn_rel R X \<longleftrightarrow>
     (\<forall>k i. fmlookup R k = Some i \<longrightarrow>
        0 \<le> i \<and> i < int (fmsize R) \<and> fmlookup X i = Some (key_names k))"

text \<open>The deserializer \<open>d\<close> with other tokens and references.\<close>

definition at ::
  "deserializer \<Rightarrow> xtok list \<Rightarrow> (int, string list) fmap \<Rightarrow> (int, goval) fmap \<Rightarrow> deserializer" where
  "at d ts X Y = d\<lparr>dtoks := ts, dtns := X, dobjs := Y\<rparr>"

lemma at_simps [simp]:
  "dtoks (at d ts X Y) = ts" "dtns (at d ts X Y) = X" "dobjs (at d ts X Y) = Y"
  "ddepth (at d ts X Y) = ddepth d" "maxDepth (at d ts X Y) = maxDepth d"
  "decryptor (at d ts X Y) = decryptor d" "derr (at d ts X Y) = derr d"
  "(at d ts X Y)\<lparr>dtoks := us\<rparr> = at d us X Y"
  "(at d ts X Y)\<lparr>dtns := X'\<rparr> = at d ts X' Y"
  "(at d ts X Y)\<lparr>dobjs := Y'\<rparr> = at d ts X Y'"
  "enter (at d ts X Y) = at (enter d) ts X Y"
  by (simp_all add: at_def enter_def)

lemma enter_simps [simp]:
  "ddepth (enter d) = ddepth d + 1" "maxDepth (enter d) = maxDepth d"
  "decryptor (enter d) = decryptor d"
  by (simp_all add: enter_def)

lemma leave_at [simp]: "leave (Some (at (enter d) ts X Y, r)) = Some (at d ts X Y, r)"
  by (simp add: leave_def at_def enter_def)

lemma next_token_at [simp]: "next_token (at d (t # ts) X Y) = (at d ts X Y, Ret t)"
  by (simp add: next_token_def)

text \<open>
  An element is read as \<open>w\<close>. A list or a hashtable is returned before the end of its \<open>Obj\<close>, which
  is then still among the tokens; the loops around it pass over it.
\<close>

definition reads_elem ::
  "codec_env \<Rightarrow> string \<Rightarrow> (string \<times> string) list \<Rightarrow> xtok list \<Rightarrow> goval \<Rightarrow> (string, int) fmap \<Rightarrow>
    (string, int) fmap \<Rightarrow> bool" where
  "reads_elem E n as ts w R R' \<longleftrightarrow>
     (\<forall>f (d :: deserializer) us X Y. length ts + 2 \<le> f \<longrightarrow> decryptor d = None \<longrightarrow>
        ddepth d + int (height w) \<le> maxDepth d \<longrightarrow> tn_rel R X \<longrightarrow>
        (\<exists>X' Y' left. des_elem f E n as (at d (ts @ us) X Y) = Some (at d (left @ us) X' Y', Ret w) \<and>
           tn_rel R' X' \<and> set left \<subseteq> {XEnd ''Obj''} \<and> length left \<le> length ts))"

text \<open>What every serializer step keeps, and what the numbers of references must allow.\<close>

definition keeps :: "serializer \<Rightarrow> serializer \<Rightarrow> bool" where
  "keeps s s' \<longleftrightarrow>
     refCounter s \<le> refCounter s' \<and> encryptor s' = encryptor s \<and>
     refCounter s' + int (length (buf s)) \<le> refCounter s + int (length (buf s')) \<and>
     (int (fmsize (tnRefs s)) \<le> refCounter s \<longrightarrow> int (fmsize (tnRefs s')) \<le> refCounter s')"

definition counts_ok :: "serializer \<Rightarrow> serializer \<Rightarrow> bool" where
  "counts_ok s s' \<longleftrightarrow>
     encryptor s = None \<and> 0 \<le> refCounter s \<and> int (fmsize (tnRefs s)) \<le> refCounter s \<and>
     refCounter s' \<le> MaxInt"

lemma keeps_refl [simp]: "keeps s s"
  by (simp add: keeps_def)

lemma keeps_trans: "keeps s s1 \<Longrightarrow> keeps s1 s2 \<Longrightarrow> keeps s s2"
  by (auto simp: keeps_def)

lemma keeps_wr [simp]: "keeps s (wr t s)"
  by (simp add: keeps_def wr_def)

lemma counts_split:
  "counts_ok s s2 \<Longrightarrow> keeps s s1 \<Longrightarrow> keeps s1 s2 \<Longrightarrow> counts_ok s s1 \<and> counts_ok s1 s2"
  by (auto simp: counts_ok_def keeps_def)

definition attrs_for :: "string \<Rightarrow> (string \<times> string) list \<Rightarrow> bool" where
  "attrs_for name as \<longleftrightarrow>
     attr_first ''N'' as = name \<and> has_N ''Key'' as = (name = ''Key'') \<and>
     has_N ''Value'' as = (name = ''Value'')"

definition emits :: "codec_env \<Rightarrow> goval \<Rightarrow> string \<Rightarrow> serializer \<Rightarrow> serializer \<Rightarrow> bool" where
  "emits E w name s s' \<longleftrightarrow>
     keeps s s' \<and>
     (\<exists>str n as ts. buf s' = buf s @ str \<and> take 1 str = ''<'' \<and> n \<noteq> ''Objs'' \<and>
        lexes str (XStart n as # ts) \<and> attrs_for name as \<and>
        (counts_ok s s' \<longrightarrow> reads_elem E n as ts w (tnRefs s) (tnRefs s')))"

lemma emitsI:
  assumes "keeps s s'" and "buf s' = buf s @ str" and "lexes str (XStart n as # ts)"
    and "attrs_for name as" and "counts_ok s s' \<Longrightarrow> reads_elem E n as ts w (tnRefs s) (tnRefs s')"
    and "take 1 str = ''<''" and "n \<noteq> ''Objs''"
  shows "emits E w name s s'"
  unfolding emits_def using assms by blast

lemma attrs_for_name: "attrs_for name (name_attrs name @ as)" if "\<forall>v. (''N'', v) \<notin> set as"
  using that
  by (cases "map_of as ''N''")
    (auto simp: attrs_for_def name_attrs_def attr_first_def has_N_def list_ex_iff dest: map_of_SomeD)

lemma attrs_for_name_attrs: "attrs_for name (name_attrs name)"
  using attrs_for_name [of "[]" name] by simp

lemma wr_simps [simp]:
  "buf (wr t s) = buf s @ t" "tnRefs (wr t s) = tnRefs s" "refCounter (wr t s) = refCounter s"
  "objRefs (wr t s) = objRefs s" "encryptor (wr t s) = encryptor s"
  by (simp_all add: wr_def)

lemma tn_rel_frame: "tn_rel R X \<Longrightarrow> \<exists>X' Y'. at d us X Y = at d us X' Y' \<and> tn_rel R X'"
  by blast

lemma reads_elemI:
  assumes "\<And>f us X Y (d :: deserializer). length ts + 2 \<le> Suc f \<Longrightarrow> decryptor d = None \<Longrightarrow>
    ddepth d + int (height w) \<le> maxDepth d \<Longrightarrow> tn_rel R X \<Longrightarrow>
    \<exists>X' Y' left. elem_step E f (des_elem f E) n as (at d (ts @ us) X Y) =
        Some (at d (left @ us) X' Y', Ret w) \<and> tn_rel R' X' \<and> set left \<subseteq> {XEnd ''Obj''} \<and>
        length left \<le> length ts"
  shows "reads_elem E n as ts w R R'"
  unfolding reads_elem_def
proof (intro allI impI)
  fix f us X Y and d :: deserializer
  assume "length ts + 2 \<le> f" and a: "decryptor d = None" "ddepth d + int (height w) \<le> maxDepth d"
    "tn_rel R X"
  then obtain g where "f = Suc g" "length ts + 2 \<le> Suc g" by (cases f) auto
  then show "\<exists>X' Y' left. des_elem f E n as (at d (ts @ us) X Y) =
      Some (at d (left @ us) X' Y', Ret w) \<and> tn_rel R' X' \<and> set left \<subseteq> {XEnd ''Obj''} \<and>
      length left \<le> length ts"
    using assms [OF _ a] by (simp add: des_elem.simps(2))
qed

text \<open>An element whose text is converted to the value.\<close>

lemma emits_scalar:
  assumes tag: "simple_name tag" and name: "name_ok name"
    and body: "reads body t" "x_valid t"
    and step: "\<And>f el (d :: deserializer). elem_step E f el tag (name_attrs name) d =
      (if maxDepth d \<le> ddepth d then Some (d, Fail (EWrap ''depth'' (EIs ErrMaxRecursionDepth)))
       else text_elem msg (conv d) d)"
    and conv: "\<And>d :: deserializer. decryptor d = None \<Longrightarrow> conv d t = Ret w" and "height w = 1"
    and "tag \<noteq> ''Objs''"
  shows "emits E w name s (wr (element tag name body) s)"
proof -
  have "reads_elem E tag (name_attrs name) (texts body t @ [XEnd tag]) w R R" for R
  proof (rule reads_elemI)
    fix f us X Y and d :: deserializer
    assume dec: "decryptor d = None" and h: "ddepth d + int (height w) \<le> maxDepth d"
      and R: "tn_rel R X"
    have "elem_step E f (des_elem f E) tag (name_attrs name) (at d ((texts body t @ [XEnd tag]) @ us) X Y) =
        Some (at d us X Y, Ret w)"
      using h assms(7) dec text_toks_element [OF body(1), of tag us]
      by (simp add: step text_elem_def DecodeElement_def conv)
    then show "\<exists>X' Y' left. elem_step E f (des_elem f E) tag (name_attrs name)
          (at d ((texts body t @ [XEnd tag]) @ us) X Y) = Some (at d (left @ us) X' Y', Ret w) \<and>
        tn_rel R X' \<and> set left \<subseteq> {XEnd ''Obj''} \<and> length left \<le> length (texts body t @ [XEnd tag])"
      using R by (intro exI [of _ X] exI [of _ Y] exI [of _ "[]"]) simp
  qed
  moreover have "lexes (element tag name body)
      (XStart tag (name_attrs name) # (texts body t @ [XEnd tag]))"
    using lexes_element [OF tag name body] by simp
  ultimately show ?thesis
    using assms(8)
    by (intro emitsI [OF _ _ _ attrs_for_name_attrs, where n = tag and str = "element tag name body"])
      (simp_all add: element_def open_tag_def)
qed

lemma emits_Nil:
  assumes "name_ok name"
  shows "emits E VNil name s (serializeNil name s)"
proof -
  have "reads_elem E ''Nil'' (name_attrs name) [XEnd ''Nil''] VNil R R" for R
  proof (rule reads_elemI)
    fix f us X Y and d :: deserializer
    assume h: "ddepth d + int (height VNil) \<le> maxDepth d" and R: "tn_rel R X"
    have "elem_step E f (des_elem f E) ''Nil'' (name_attrs name) (at d ([XEnd ''Nil''] @ us) X Y) =
        Some (at d us X Y, Ret VNil)"
      using h by (simp add: elem_step_def Skip_def)
    then show "\<exists>X' Y' left. elem_step E f (des_elem f E) ''Nil'' (name_attrs name)
          (at d ([XEnd ''Nil''] @ us) X Y) = Some (at d (left @ us) X' Y', Ret VNil) \<and>
        tn_rel R X' \<and> set left \<subseteq> {XEnd ''Obj''} \<and> length left \<le> length [XEnd ''Nil'']"
      using R by (intro exI [of _ X] exI [of _ Y] exI [of _ "[]"]) simp
  qed
  moreover have "lexes (''<Nil'' @ attr_N name @ ''/>'') [XStart ''Nil'' (name_attrs name), XEnd ''Nil'']"
  proof (unfold lexes_def, intro allI)
    fix stk rest
    have "simple_name ''Nil''" by code_simp
    from lex_closed [OF this clean_name_attrs [OF assms], of stk rest]
    show "x_tokens stk ((''<Nil'' @ attr_N name @ ''/>'') @ rest) =
      lex_cons [XStart ''Nil'' (name_attrs name), XEnd ''Nil''] (x_tokens stk rest)"
      by (simp add: attr_N_eq)
  qed
  ultimately show ?thesis
    unfolding serializeNil_def
    by (intro emitsI [OF _ _ _ attrs_for_name_attrs, where n = "''Nil''" and
          str = "''<Nil'' @ attr_N name @ ''/>''"]) simp_all
qed

text \<open>Text that needs no escaping in XML.\<close>

definition raw_text :: "string \<Rightarrow> bool" where
  "raw_text t \<longleftrightarrow> x_valid t \<and> reads t t"

lemma raw_ascii:
  assumes "list_all (\<lambda>c. 32 \<le> code c \<and> code c < 127 \<and> c \<noteq> CHR ''<'' \<and> c \<noteq> CHR ''&'' \<and> c \<noteq> CHR ''>'') t"
  shows "raw_text t"
proof -
  have "list_all (\<lambda>c. 32 \<le> code c \<and> code c < 127) t" using assms by (simp add: list_all_iff)
  moreover have "reads t t"
    using ascii_no_CR [OF calculation] assms by (intro reads_raw) (simp add: list_all_iff no_CR_def)
  ultimately show ?thesis using x_valid_clean clean_ascii by (simp add: raw_text_def)
qed

lemma digit_ascii: "d < 10 \<Longrightarrow> 48 \<le> code (digit d) \<and> code (digit d) \<le> 57"
  by simp

lemma nat_digits_ascii: "list_all (\<lambda>c. 48 \<le> code c \<and> code c \<le> 57) (nat_digits n)"
proof (induction n rule: nat_digits.induct)
  case (1 n)
  have "n mod 10 \<le> 9" using mod_less_divisor [of 10 n] by linarith
  with 1 show ?case by (subst nat_digits.simps) simp
qed

lemma itoa_ascii: "list_all (\<lambda>c. (48 \<le> code c \<and> code c \<le> 57) \<or> code c = 45) (itoa i)"
  using nat_digits_ascii by (auto simp: itoa_def list_all_iff)

lemma raw_itoa: "raw_text (itoa i)"
proof (rule raw_ascii, unfold list_all_iff, intro ballI)
  fix c
  assume "c \<in> set (itoa i)"
  then have "(48 \<le> code c \<and> code c \<le> 57) \<or> code c = 45" using itoa_ascii by (auto simp: list_all_iff)
  moreover have "code (CHR ''<'') = 60" "code (CHR ''&'') = 38" "code (CHR ''>'') = 62"
    by (simp_all add: of_char_def)
  ultimately show "32 \<le> code c \<and> code c < 127 \<and> c \<noteq> CHR ''<'' \<and> c \<noteq> CHR ''&'' \<and> c \<noteq> CHR ''>''"
    by auto
qed

lemma raw_b64: "raw_text (b64_encode bs)"
  using b64_encode_chars by (intro raw_ascii) (auto simp: list_all_iff)

lemma raw_bool: "raw_text (if b then ''true'' else ''false'')"
  by (rule raw_ascii) (simp add: of_char_def)

lemma raw_version: "raw_text (Version_String a b c d)"
proof -
  have "raw_text ''.''" by (rule raw_ascii) (simp add: of_char_def)
  then have dot: "reads ''.'' ''.''" by (simp add: raw_text_def)
  have num: "reads (itoa i) (itoa i)" for i using raw_itoa [of i] by (simp add: raw_text_def)
  have "reads (Version_String a b c d) (Version_String a b c d)"
    unfolding Version_String_def by (intro reads_append dot num)
  moreover have "clean (Version_String a b c d)"
  proof -
    have "clean (itoa i)" for i
      using itoa_ascii [of i] by (intro clean_ascii) (fastforce simp: list_all_iff)
    moreover have "clean ''.''" by (rule clean_ascii) (simp add: of_char_def)
    ultimately show ?thesis unfolding Version_String_def by (intro clean_append)
  qed
  ultimately show ?thesis by (simp add: raw_text_def x_valid_clean)
qed

section \<open>The scalars\<close>

lemma tags [simp]:
  "simple_name ''S''" "simple_name ''I32''" "simple_name ''I64''" "simple_name ''B''"
  "simple_name ''Db''" "simple_name ''BA''" "simple_name ''DT''" "simple_name ''G''"
  "simple_name ''SS''" "simple_name ''SB''" "simple_name ''Version''" "simple_name ''Obj''"
  "simple_name ''TN''" "simple_name ''TNRef''" "simple_name ''T''" "simple_name ''LST''"
  "simple_name ''DCT''" "simple_name ''En''" "simple_name ''MS''" "simple_name ''Props''"
  "simple_name ''ToString''" "simple_name ''Objs''"
  by code_simp+

lemma emits_String:
  assumes "good_string t" and "name_ok name"
  shows "emits E (VString t) name s (serializeStringFast t name s)"
  unfolding serializeStringFast_def
  by (rule emits_scalar [OF _ assms(2) reads_string_body [OF assms(1)], where msg = "''decode string''"
        and conv = "\<lambda>d t. Ret (VString (decodeCLIXMLString t))"])
    (simp_all add: elem_step_def good_string_encoded [OF assms(1)] x_valid_clean)

lemma emits_Script:
  assumes "good_string t" and "name_ok name"
  shows "emits E (VScript t) name s (serializeScriptBlockFast t name s)"
  unfolding serializeScriptBlockFast_def
  by (rule emits_scalar [OF _ assms(2) reads_escaped_clean [OF good_string_encoded(1) [OF assms(1)]],
        where msg = "''decode script block''" and conv = "\<lambda>d t. Ret (VScript (decodeCLIXMLString t))"])
    (simp_all add: elem_step_def good_string_encoded [OF assms(1)] x_valid_clean)

text \<open>The scalars that are written and read as they are.\<close>

lemma emits_raw:
  assumes "raw_text t" and "simple_name tag" and "name_ok name"
    and "\<And>f el (d :: deserializer). elem_step E f el tag (name_attrs name) d =
      (if maxDepth d \<le> ddepth d then Some (d, Fail (EWrap ''depth'' (EIs ErrMaxRecursionDepth)))
       else text_elem msg (conv d) d)"
    and "\<And>d :: deserializer. decryptor d = None \<Longrightarrow> conv d t = Ret w" and "height w = 1"
    and "tag \<noteq> ''Objs''"
  shows "emits E w name s (wr (element tag name t) s)"
  using assms emits_scalar [of tag name t t E msg conv w s] by (simp add: raw_text_def)

lemma emits_Int32:
  assumes "in_signed 32 i" and "name_ok name"
  shows "emits E (VInt32 i) name s (serializeInt32Fast i name s)"
  unfolding serializeInt32Fast_def
  by (rule emits_raw [where msg = "''decode int32''" and conv = "\<lambda>d t. of_option ''strconv.ParseInt'' VInt32 (ParseInt 32 t)"])
    (simp_all add: raw_itoa assms elem_step_def of_option_def)

lemma emits_Int64:
  assumes "in_signed 64 i" and "name_ok name"
  shows "emits E (VInt64 i) name s (serializeInt64Fast i name s)"
  unfolding serializeInt64Fast_def
  by (rule emits_raw [where msg = "''decode int64''" and conv = "\<lambda>d t. of_option ''strconv.ParseInt'' VInt64 (ParseInt 64 t)"])
    (simp_all add: raw_itoa assms elem_step_def of_option_def)

lemma emits_Bool:
  assumes "name_ok name"
  shows "emits E (VBool b) name s (serializeBoolFast b name s)"
  unfolding serializeBoolFast_def
  by (rule emits_raw [where msg = "''decode bool''" and conv = "\<lambda>d t. Ret (VBool (t = ''true''))", OF raw_bool])
    (simp_all add: assms elem_step_def)

lemma emits_Float:
  assumes "parse_float E (format_float E x) = Some x" and "raw_text (format_float E x)"
    and "name_ok name"
  shows "emits E (VFloat x) name s (serializeFloat64Fast E x name s)"
  unfolding serializeFloat64Fast_def
  by (rule emits_raw [where msg = "''decode double''" and conv = "\<lambda>d t. of_option ''strconv.ParseFloat'' VFloat (parse_float E t)"])
    (simp_all add: assms elem_step_def of_option_def)

lemma emits_Bytes:
  assumes "name_ok name"
  shows "emits E (VBytes b) name s (serializeByteArrayFast b name s)"
  unfolding serializeByteArrayFast_def
  by (rule emits_raw [where msg = "''decode byte array''" and conv = "\<lambda>d t. of_option ''illegal base64'' VBytes (b64_decode t)"])
    (simp_all add: raw_b64 assms elem_step_def of_option_def)

lemma emits_Time:
  assumes "parse_time E (format_time E x) = Some x" and "raw_text (format_time E x)"
    and "name_ok name"
  shows "emits E (VTime x) name s (serializeTimeFast E x name s)"
  unfolding serializeTimeFast_def
  by (rule emits_raw [where msg = "''decode datetime''" and conv = "\<lambda>d t. of_option ''parsing time'' VTime (parse_time E t)"])
    (simp_all add: assms elem_step_def of_option_def)

lemma emits_UUID:
  assumes "uuid_Parse E (uuid_String E u) = Some u" and "raw_text (uuid_String E u)"
    and "name_ok name"
  shows "emits E (VUUID u) name s (serializeUUIDFast E u name s)"
  unfolding serializeUUIDFast_def
  by (rule emits_raw [where msg = "''decode guid''" and conv = "\<lambda>d t. of_option ''invalid UUID'' VUUID (uuid_Parse E t)"])
    (simp_all add: assms elem_step_def of_option_def)

lemma emits_Version:
  assumes "name_ok name"
  shows "emits E (VString (Version_String a b c d)) name s (serializeVersionFast a b c d name s)"
  unfolding serializeVersionFast_def
  by (rule emits_raw [where msg = "''decode version''" and conv = "\<lambda>d t. Ret (VString t)", OF raw_version])
    (simp_all add: assms elem_step_def)

lemma emits_Secure:
  assumes "name_ok name"
  shows "emits E (VSecure b) name s (wr (element ''SS'' name (b64_encode b)) s)"
  by (rule emits_raw [where msg = "''decode secure string''" and conv = "secure_value E"])
    (simp_all add: raw_b64 assms elem_step_def secure_value_def of_option_def)

section \<open>Sequences of elements\<close>

fun emits_seq :: "codec_env \<Rightarrow> (string \<times> goval) list \<Rightarrow> serializer \<Rightarrow> serializer \<Rightarrow> bool" where
  "emits_seq E [] s s' \<longleftrightarrow> s' = s"
| "emits_seq E ((nm, w) # items) s s' \<longleftrightarrow> (\<exists>s1. emits E w nm s s1 \<and> emits_seq E items s1 s')"

text \<open>The end of an \<open>Obj\<close> that an element left behind is passed over by every loop.\<close>

lemma skip_left:
  assumes "set left \<subseteq> {XEnd ''Obj''}"
  shows "des_list (length left + f) el (at d (left @ us) X Y) = des_list f el (at d us X Y)"
    and "des_props (length left + f) el m (at d (left @ us) X Y) = des_props f el m (at d us X Y)"
    and "des_entry (length left + f) el k v (at d (left @ us) X Y) = des_entry f el k v (at d us X Y)"
  using assms
  by (induction left)
    (auto simp: des_list.simps(2) des_props.simps(2) des_entry.simps(2))

definition reads_list ::
  "codec_env \<Rightarrow> xtok list \<Rightarrow> goval list \<Rightarrow> (string, int) fmap \<Rightarrow> (string, int) fmap \<Rightarrow> bool" where
  "reads_list E ts ws R R' \<longleftrightarrow>
     (\<forall>f g us X Y (d :: deserializer). length ts + 1 \<le> f \<longrightarrow> length ts + 1 \<le> g \<longrightarrow>
        decryptor d = None \<longrightarrow> (\<forall>w\<in>set ws. ddepth d + int (height w) \<le> maxDepth d) \<longrightarrow>
        tn_rel R X \<longrightarrow>
        (\<exists>X' Y'. des_list f (des_elem g E) (at d (ts @ XEnd ''LST'' # us) X Y) =
           Some (at d us X' Y', Ret ws) \<and> tn_rel R' X'))"

lemma reads_list_Nil: "reads_list E [] [] R R"
  unfolding reads_list_def
proof (intro allI impI)
  fix f g us X Y and d :: deserializer
  assume f: "length [] + 1 \<le> f" and "tn_rel R X"
  moreover obtain f1 where "f = Suc f1" using f by (cases f) auto
  ultimately show "\<exists>X' Y'. des_list f (des_elem g E) (at d ([] @ XEnd ''LST'' # us) X Y) =
      Some (at d us X' Y', Ret []) \<and> tn_rel R X'"
    by (intro exI [of _ X] exI [of _ Y]) (simp add: des_list.simps(2))
qed

text \<open>A loop that reads an element goes on behind it, with the fuel that is left.\<close>

lemma reads_elemD:
  assumes "reads_elem E n as ts1 w R R1" and "length ((XStart n as # ts1) @ ts2) + 1 \<le> Suc f"
    and "length ((XStart n as # ts1) @ ts2) + 1 \<le> g" and "decryptor d = None"
    and "ddepth d + int (height w) \<le> maxDepth d" and "tn_rel R X"
  obtains X1 Y1 left f2 where
    "des_elem g E n as (at d (ts1 @ us) X Y) = Some (at d (left @ us) X1 Y1, Ret w)"
    "tn_rel R1 X1" "set left \<subseteq> {XEnd ''Obj''}" "f = length left + f2" "length ts2 + 1 \<le> f2"
proof -
  obtain X1 Y1 left where l: "des_elem g E n as (at d (ts1 @ us) X Y) = Some (at d (left @ us) X1 Y1, Ret w)"
    "tn_rel R1 X1" "set left \<subseteq> {XEnd ''Obj''}" "length left \<le> length ts1"
    using assms(1) [unfolded reads_elem_def, rule_format, of g d X us Y] assms(3-6) by auto
  from l(4) assms(2) have "f = length left + (f - length left)" "length ts2 + 1 \<le> f - length left" by auto
  from that [OF l(1-3) this] show thesis .
qed

lemma reads_list_Cons:
  assumes "reads_elem E n as ts1 w R R1" and "reads_list E ts2 ws R1 R2"
  shows "reads_list E ((XStart n as # ts1) @ ts2) (w # ws) R R2"
  unfolding reads_list_def
proof (intro allI impI)
  fix f g us X Y and d :: deserializer
  assume f: "length ((XStart n as # ts1) @ ts2) + 1 \<le> f"
    and g: "length ((XStart n as # ts1) @ ts2) + 1 \<le> g" and dec: "decryptor d = None"
    and h: "\<forall>w\<in>set (w # ws). ddepth d + int (height w) \<le> maxDepth d" and R: "tn_rel R X"
  obtain f1 where f1: "f = Suc f1" using f by (cases f) auto
  have hw: "ddepth d + int (height w) \<le> maxDepth d" using h by simp
  obtain X1 Y1 left f2 where
    l: "des_elem g E n as (at d (ts1 @ ts2 @ XEnd ''LST'' # us) X Y) =
        Some (at d (left @ ts2 @ XEnd ''LST'' # us) X1 Y1, Ret w)" "tn_rel R1 X1"
      "set left \<subseteq> {XEnd ''Obj''}" and f2: "f1 = length left + f2" "length ts2 + 1 \<le> f2"
    by (rule reads_elemD [OF assms(1) f [unfolded f1] g dec hw R])
  obtain X2 Y2 where r2: "des_list f2 (des_elem g E) (at d (ts2 @ XEnd ''LST'' # us) X1 Y1) =
      Some (at d us X2 Y2, Ret ws)" "tn_rel R2 X2"
    using assms(2) [unfolded reads_list_def, rule_format, of f2 g d X1 us Y1] f2(2) g dec h l(2) by auto
  show "\<exists>X' Y'. des_list f (des_elem g E) (at d (((XStart n as # ts1) @ ts2) @ XEnd ''LST'' # us) X Y) =
      Some (at d us X' Y', Ret (w # ws)) \<and> tn_rel R2 X'"
    using l(1) r2 f2(1)
    by (intro exI [of _ X2] exI [of _ Y2]) (simp add: f1 des_list.simps(2) skip_left(1) [OF l(3)])
qed

lemma emits_seq_list:
  assumes "emits_seq E items s s'"
  shows "keeps s s' \<and> (\<exists>str ts. buf s' = buf s @ str \<and> lexes str ts \<and>
    (counts_ok s s' \<longrightarrow> reads_list E ts (map snd items) (tnRefs s) (tnRefs s')))"
  using assms
proof (induction items arbitrary: s)
  case Nil
  with reads_list_Nil show ?case by (auto intro!: exI [of _ "[]"])
next
  case (Cons a items)
  obtain nm w where a: "a = (nm, w)" by (cases a)
  with Cons.prems obtain s1 where e: "emits E w nm s s1" and r: "emits_seq E items s1 s'" by auto
  from e obtain str1 n as ts1 where 1: "keeps s s1" "buf s1 = buf s @ str1"
    "lexes str1 (XStart n as # ts1)"
    "counts_ok s s1 \<Longrightarrow> reads_elem E n as ts1 w (tnRefs s) (tnRefs s1)"
    by (auto simp: emits_def)
  from Cons.IH [OF r] obtain str2 ts2 where 2: "keeps s1 s'" "buf s' = buf s1 @ str2" "lexes str2 ts2"
    "counts_ok s1 s' \<Longrightarrow> reads_list E ts2 (map snd items) (tnRefs s1) (tnRefs s')"
    by auto
  have "reads_list E ((XStart n as # ts1) @ ts2) (w # map snd items) (tnRefs s) (tnRefs s')"
    if c: "counts_ok s s'"
    using counts_split [OF c 1(1) 2(1)] 1(4) 2(4) by (intro reads_list_Cons) auto
  with lexes_append [OF 1(3) 2(3)] show ?case
    using 1(1,2) 2(1,2) a by (auto intro: keeps_trans)
qed

definition put_all :: "(string \<times> goval) list \<Rightarrow> (string \<times> goval) list \<Rightarrow> (string \<times> goval) list" where
  "put_all items m = fold (\<lambda>(k, w). AList.update k w) items m"

definition reads_props ::
  "codec_env \<Rightarrow> xtok list \<Rightarrow> (string \<times> goval) list \<Rightarrow> (string, int) fmap \<Rightarrow>
    (string, int) fmap \<Rightarrow> bool" where
  "reads_props E ts items R R' \<longleftrightarrow>
     (\<forall>f g us X Y z m (d :: deserializer). length ts + 1 \<le> f \<longrightarrow> length ts + 1 \<le> g \<longrightarrow>
        decryptor d = None \<longrightarrow> (\<forall>w\<in>snd ` set items. ddepth d + int (height w) \<le> maxDepth d) \<longrightarrow>
        tn_rel R X \<longrightarrow> z = ''Props'' \<or> z = ''MS'' \<longrightarrow>
        (\<exists>X' Y'. des_props f (des_elem g E) m (at d (ts @ XEnd z # us) X Y) =
           Some (at d us X' Y', Ret (put_all items m)) \<and> tn_rel R' X'))"

lemma reads_props_Nil: "reads_props E [] [] R R"
  unfolding reads_props_def
proof (intro allI impI)
  fix f g us X Y z m and d :: deserializer
  assume f: "length [] + 1 \<le> f" and "tn_rel R X" and "z = ''Props'' \<or> z = ''MS''"
  moreover obtain f1 where "f = Suc f1" using f by (cases f) auto
  ultimately show "\<exists>X' Y'. des_props f (des_elem g E) m (at d ([] @ XEnd z # us) X Y) =
      Some (at d us X' Y', Ret (put_all [] m)) \<and> tn_rel R X'"
    by (intro exI [of _ X] exI [of _ Y]) (simp add: des_props.simps(2) put_all_def)
qed

lemma reads_props_Cons:
  assumes "reads_elem E n as ts1 w R R1" and "reads_props E ts2 items R1 R2"
    and "attr_first ''N'' as = nm" and "nm \<noteq> []"
  shows "reads_props E ((XStart n as # ts1) @ ts2) ((nm, w) # items) R R2"
  unfolding reads_props_def
proof (intro allI impI)
  fix f g us X Y z m and d :: deserializer
  assume f: "length ((XStart n as # ts1) @ ts2) + 1 \<le> f"
    and g: "length ((XStart n as # ts1) @ ts2) + 1 \<le> g" and dec: "decryptor d = None"
    and h: "\<forall>w\<in>snd ` set ((nm, w) # items). ddepth d + int (height w) \<le> maxDepth d"
    and R: "tn_rel R X" and z: "z = ''Props'' \<or> z = ''MS''"
  obtain f1 where f1: "f = Suc f1" using f by (cases f) auto
  have hw: "ddepth d + int (height w) \<le> maxDepth d" using h by simp
  obtain X1 Y1 left f2 where
    l: "des_elem g E n as (at d (ts1 @ ts2 @ XEnd z # us) X Y) =
        Some (at d (left @ ts2 @ XEnd z # us) X1 Y1, Ret w)" "tn_rel R1 X1"
      "set left \<subseteq> {XEnd ''Obj''}" and f2: "f1 = length left + f2" "length ts2 + 1 \<le> f2"
    by (rule reads_elemD [OF assms(1) f [unfolded f1] g dec hw R])
  obtain X2 Y2 where r2: "des_props f2 (des_elem g E) (AList.update nm w m) (at d (ts2 @ XEnd z # us) X1 Y1) =
      Some (at d us X2 Y2, Ret (put_all items (AList.update nm w m)))" "tn_rel R2 X2"
    using assms(2) [unfolded reads_props_def, rule_format, of f2 g d X1 z "AList.update nm w m" us Y1]
      f2(2) g dec h l(2) z by auto
  show "\<exists>X' Y'. des_props f (des_elem g E) m (at d (((XStart n as # ts1) @ ts2) @ XEnd z # us) X Y) =
      Some (at d us X' Y', Ret (put_all ((nm, w) # items) m)) \<and> tn_rel R2 X'"
    using l(1) r2 f2(1)
    by (intro exI [of _ X2] exI [of _ Y2])
      (simp add: f1 des_props.simps(2) skip_left(2) [OF l(3)] assms(3,4) put_all_def)
qed

lemma emits_seq_props:
  assumes "emits_seq E items s s'" and "[] \<notin> fst ` set items"
  shows "keeps s s' \<and> (\<exists>str ts. buf s' = buf s @ str \<and> lexes str ts \<and>
    (counts_ok s s' \<longrightarrow> reads_props E ts items (tnRefs s) (tnRefs s')))"
  using assms
proof (induction items arbitrary: s)
  case Nil
  with reads_props_Nil show ?case by (auto intro!: exI [of _ "[]"])
next
  case (Cons a items)
  obtain nm w where a: "a = (nm, w)" by (cases a)
  with Cons.prems obtain s1 where e: "emits E w nm s s1" and r: "emits_seq E items s1 s'" by auto
  have nm: "nm \<noteq> []" using Cons.prems(2) a by auto
  from e obtain str1 n as ts1 where 1: "keeps s s1" "buf s1 = buf s @ str1"
    "lexes str1 (XStart n as # ts1)" "attr_first ''N'' as = nm"
    "counts_ok s s1 \<Longrightarrow> reads_elem E n as ts1 w (tnRefs s) (tnRefs s1)"
    by (auto simp: emits_def attrs_for_def)
  from Cons.IH [OF r] Cons.prems(2) obtain str2 ts2 where 2: "keeps s1 s'" "buf s' = buf s1 @ str2"
    "lexes str2 ts2" "counts_ok s1 s' \<Longrightarrow> reads_props E ts2 items (tnRefs s1) (tnRefs s')"
    by auto
  have "reads_props E ((XStart n as # ts1) @ ts2) ((nm, w) # items) (tnRefs s) (tnRefs s')"
    if c: "counts_ok s s'"
    using counts_split [OF c 1(1) 2(1)] 1(5) 2(4) by (intro reads_props_Cons 1(4) nm) auto
  with lexes_append [OF 1(3) 2(3)] show ?case
    using 1(1,2) 2(1,2) a by (auto intro: keeps_trans)
qed

lemma update_new: "k \<notin> fst ` set m \<Longrightarrow> AList.update k w m = m @ [(k, w)]"
  by (induction m) auto

lemma put_all_fresh:
  "distinct (map fst items) \<Longrightarrow> fst ` set items \<inter> fst ` set m = {} \<Longrightarrow> put_all items m = m @ items"
proof (induction items arbitrary: m)
  case (Cons a items)
  obtain k w where a: "a = (k, w)" by (cases a)
  have "AList.update k w m = m @ [(k, w)]"
    using Cons.prems a by (intro update_new) auto
  moreover have "put_all items (m @ [(k, w)]) = (m @ [(k, w)]) @ items"
    using Cons.prems a by (intro Cons.IH) auto
  ultimately show ?case by (simp add: put_all_def a)
qed (simp add: put_all_def)

section \<open>Wrapping\<close>

lemma lexes_wrap:
  assumes "simple_name tag" and "clean_attrs as" and "lexes str ts"
  shows "lexes (''<'' @ tag @ attr_text as @ ''>'' @ str @ close_tag tag) (XStart tag as # ts @ [XEnd tag])"
proof (unfold lexes_def, intro allI)
  fix stk rest
  have "x_tokens stk ((''<'' @ tag @ attr_text as @ ''>'' @ str @ close_tag tag) @ rest) =
      lex_cons [XStart tag as] (x_tokens (([], tag) # stk) (str @ close_tag tag @ rest))"
    using lex_start [OF assms(1,2), of stk "str @ close_tag tag @ rest"] by simp
  also have "\<dots> = lex_cons (XStart tag as # ts) (x_tokens (([], tag) # stk) (close_tag tag @ rest))"
    using assms(3) by (simp add: lexes_def)
  also have "\<dots> = lex_cons (XStart tag as # ts @ [XEnd tag]) (x_tokens stk rest)"
    using lex_end [OF assms(1), of stk rest] by (simp add: close_tag_def)
  finally show "x_tokens stk ((''<'' @ tag @ attr_text as @ ''>'' @ str @ close_tag tag) @ rest) =
    lex_cons (XStart tag as # ts @ [XEnd tag]) (x_tokens stk rest)" .
qed

lemma lexes_wrap0:
  assumes "simple_name tag" and "lexes str ts"
  shows "lexes (open_tag tag [] @ str @ close_tag tag) (XStart tag [] # ts @ [XEnd tag])"
  using lexes_wrap [OF assms(1) _ assms(2), of "[]"]
  by (simp add: open_tag_def attr_N_def attr_text_def clean_attrs_def)

section \<open>The head of an object\<close>

lemma clean_itoa [simp]: "clean_value (itoa i)"
proof -
  have "c \<noteq> CHR ''\"'' \<and> c \<noteq> CHR ''<'' \<and> c \<noteq> CHR ''&'' \<and> c \<noteq> CHR 0x0D" if "c \<in> set (itoa i)" for c
    using itoa_ascii [of i] that by (auto simp: list_all_iff of_char_def)
  then show ?thesis
    using raw_itoa [of i] by (simp add: clean_value_def raw_text_def list_all_iff)
qed

definition obj_attrs :: "string \<Rightarrow> int \<Rightarrow> (string \<times> string) list" where
  "obj_attrs name i = name_attrs name @ [(''RefId'', itoa i)]"

lemma clean_obj_attrs: "name_ok name \<Longrightarrow> clean_attrs (obj_attrs name i)"
  using clean_name_attrs [of name] by (auto simp: obj_attrs_def clean_attrs_def)

lemma attrs_for_obj: "attrs_for name (obj_attrs name i)"
  unfolding obj_attrs_def by (rule attrs_for_name) simp

lemma Atoi_itoa: "0 \<le> i \<Longrightarrow> i \<le> MaxInt \<Longrightarrow> Atoi (itoa i) = Some i"
  by (simp add: Atoi_def in_signed_def MaxInt_def)

lemma ref_ids_obj: "0 \<le> i \<Longrightarrow> i \<le> MaxInt \<Longrightarrow> ref_ids (obj_attrs name i) = [i]"
  by (auto simp: ref_ids_def obj_attrs_def name_attrs_def map_filter_simps Atoi_itoa)

lemma open_obj_simps [simp]:
  "buf (open_obj name s) = buf s @ ''<'' @ ''Obj'' @ attr_text (obj_attrs name (refCounter s)) @ ''>''"
  "tnRefs (open_obj name s) = tnRefs s" "refCounter (open_obj name s) = refCounter s + 1"
  "encryptor (open_obj name s) = encryptor s"
  by (simp_all add: open_obj_def wr_def attr_N_eq obj_attrs_def attr_text_def)

definition T_toks :: "(string \<Rightarrow> string) \<Rightarrow> string list \<Rightarrow> xtok list" where
  "T_toks esc tns = concat (map (\<lambda>t. XStart ''T'' [] # texts (esc t) t @ [XEnd ''T'']) tns)"

lemma lexes_tn_body:
  "\<forall>t\<in>set tns. reads (esc t) t \<and> x_valid t \<Longrightarrow> lexes (tn_body esc tns) (T_toks esc tns)"
proof (induction tns)
  case (Cons t tns)
  have "lexes (element ''T'' [] (esc t)) (XStart ''T'' (name_attrs []) # texts (esc t) t @ [XEnd ''T''])"
    by (rule lexes_element) (use Cons.prems in \<open>simp_all add: name_ok_def\<close>)
  from lexes_append [OF this, of "tn_body esc tns"] Cons show ?case
    by (simp add: tn_body_def T_toks_def element_def open_tag_def close_tag_def attr_N_def
        name_attrs_def)
qed (simp add: tn_body_def T_toks_def)

lemma tn_toks_read:
  "\<forall>t\<in>set tns. reads (esc t) t \<Longrightarrow> tn_toks (T_toks esc tns @ XEnd ''TN'' # us) = Some (tns, us)"
  by (induction tns) (simp_all add: T_toks_def text_toks_element)

definition head_reads ::
  "xtok list \<Rightarrow> string list \<Rightarrow> (string, int) fmap \<Rightarrow> (string, int) fmap \<Rightarrow> bool" where
  "head_reads ts tns R R' \<longleftrightarrow>
     (\<forall>X. tn_rel R X \<longrightarrow>
        (\<exists>X'. tn_rel R' X' \<and>
           (\<forall>f el i tns0 m t v hasD us Y (d :: deserializer).
              des_obj (Suc f) el (Some i) tns0 m t v hasD (at d (ts @ us) X Y) =
              des_obj f el (Some i) tns m t v hasD (at d us X' Y))))"

lemma tn_rel_new:
  assumes "tn_rel R X" and "fmlookup R k = None"
  shows "tn_rel (fmupd k (int (fmsize R)) R) (fmupd (int (fmsize R)) (key_names k) X)"
  using assms by (fastforce simp: tn_rel_def)

lemma head_reads_new:
  assumes body: "\<And>us. tn_toks (bts @ XEnd ''TN'' # us) = Some (ns, us)" and ns: "ns = key_names k"
    and "fmlookup R k = None" and n: "int (fmsize R) \<le> MaxInt"
  shows "head_reads (XStart ''TN'' [(''RefId'', itoa (int (fmsize R)))] # bts @ [XEnd ''TN'']) ns R
    (fmupd k (int (fmsize R)) R)"
  unfolding head_reads_def ns
proof (intro allI impI)
  let ?i = "int (fmsize R)"
  let ?ts = "XStart ''TN'' [(''RefId'', itoa ?i)] # bts @ [XEnd ''TN'']"
  fix X
  assume "tn_rel R X"
  from tn_rel_new [OF this assms(3)] show "\<exists>X'. tn_rel (fmupd k ?i R) X' \<and>
      (\<forall>f el i tns0 m t v hasD us Y (d :: deserializer).
         des_obj (Suc f) el (Some i) tns0 m t v hasD (at d (?ts @ us) X Y) =
         des_obj f el (Some i) (key_names k) m t v hasD (at d us X' Y))"
    using n Atoi_itoa [of ?i] body
    by (intro exI [of _ "fmupd ?i (key_names k) X"])
      (simp add: des_obj.simps(2) deserializeTypeNames_def ns store_tns_def ref_ids_def map_filter_simps)
qed

lemma head_reads_ref:
  assumes "fmlookup R k = Some i" and n: "int (fmsize R) \<le> MaxInt"
  shows "head_reads [XStart ''TNRef'' [(''RefId'', itoa i)], XEnd ''TNRef''] (key_names k) R R"
  unfolding head_reads_def
proof (intro allI impI)
  let ?ts = "[XStart ''TNRef'' [(''RefId'', itoa i)], XEnd ''TNRef'']"
  fix X
  assume X: "tn_rel R X"
  then have i: "0 \<le> i" "i < int (fmsize R)" "fmlookup X i = Some (key_names k)"
    using assms(1) by (auto simp: tn_rel_def)
  then show "\<exists>X'. tn_rel R X' \<and>
      (\<forall>f el i tns0 m t v hasD us Y (d :: deserializer).
         des_obj (Suc f) el (Some i) tns0 m t v hasD (at d (?ts @ us) X Y) =
         des_obj f el (Some i) (key_names k) m t v hasD (at d us X' Y))"
    using n X Atoi_itoa [of i]
    by (intro exI [of _ X]) (simp add: des_obj.simps(2) Skip_def ref_ids_def map_filter_simps find_tns_def)
qed

lemma typenames_step:
  assumes body: "lexes body bts" "\<And>us. tn_toks (bts @ XEnd ''TN'' # us) = Some (key_names k, us)"
  shows "\<exists>str ts. buf (write_typenames k body s) = buf s @ str \<and> lexes str ts \<and> ts \<noteq> [] \<and>
    (int (fmsize (tnRefs s)) \<le> MaxInt \<longrightarrow>
       head_reads ts (key_names k) (tnRefs s) (tnRefs (write_typenames k body s)))"
proof (cases "fmlookup (tnRefs s) k")
  case None
  let ?i = "int (fmsize (tnRefs s))"
  let ?ts = "XStart ''TN'' [(''RefId'', itoa ?i)] # bts @ [XEnd ''TN'']"
  have "lexes (''<'' @ ''TN'' @ attr_text [(''RefId'', itoa ?i)] @ ''>'' @ body @ close_tag ''TN'') ?ts"
    by (rule lexes_wrap [OF _ _ body(1)]) (simp_all add: clean_attrs_def)
  with head_reads_new [OF body(2) refl None] None show ?thesis
    by (intro exI [of _ "''<'' @ ''TN'' @ attr_text [(''RefId'', itoa ?i)] @ ''>'' @ body @ close_tag ''TN''"]
        exI [of _ ?ts])
      (simp add: write_typenames_def Let_def wr_def attr_text_def close_tag_def)
next
  case (Some i)
  let ?ts = "[XStart ''TNRef'' [(''RefId'', itoa i)], XEnd ''TNRef'']"
  have "lexes (''<'' @ ''TNRef'' @ attr_text [(''RefId'', itoa i)] @ ''/>'') ?ts"
    unfolding lexes_def
    using lex_closed [of "''TNRef''" "[(''RefId'', itoa i)]"] by (simp add: clean_attrs_def)
  with head_reads_ref [OF Some] Some show ?thesis
    by (intro exI [of _ "''<'' @ ''TNRef'' @ attr_text [(''RefId'', itoa i)] @ ''/>''"] exI [of _ ?ts])
      (simp add: write_typenames_def attr_text_def)
qed

lemma typenames_keeps: "keeps s (write_typenames k body (open_obj name s))"
  by (auto simp: keeps_def write_typenames_def Let_def wr_def split: option.splits)

section \<open>The parts of an object\<close>

type_synonym obj_state = "string list \<times> (string \<times> goval) list \<times> string"

text \<open>
  \<open>n\<close> steps of the object loop over the tokens \<open>ts\<close>, whose elements nest at most \<open>H\<close> deep, take
  the type names, properties and string form from \<open>x\<close> to \<open>x'\<close>.
\<close>

definition obj_steps ::
  "codec_env \<Rightarrow> nat \<Rightarrow> xtok list \<Rightarrow> nat \<Rightarrow> obj_state \<Rightarrow> obj_state \<Rightarrow> (string, int) fmap \<Rightarrow>
    (string, int) fmap \<Rightarrow> bool" where
  "obj_steps E n ts H x x' R R' \<longleftrightarrow>
     n \<le> length ts \<and>
     (\<forall>X f g us Y i (d :: deserializer).
        tn_rel R X \<longrightarrow> length ts + 1 \<le> n + f \<longrightarrow> length ts + 1 \<le> g \<longrightarrow> decryptor d = None \<longrightarrow>
        ddepth d + int H \<le> maxDepth d \<longrightarrow>
        (\<exists>X' Y'. tn_rel R' X' \<and>
           des_obj (n + f) (des_elem g E) (Some i) (fst x) (fst (snd x)) (snd (snd x)) VNil False
             (at d (ts @ us) X Y) =
           des_obj f (des_elem g E) (Some i) (fst x') (fst (snd x')) (snd (snd x')) VNil False
             (at d us X' Y')))"

lemma obj_steps_refl: "obj_steps E 0 [] H x x R R"
  by (auto simp: obj_steps_def)

lemma obj_steps_trans:
  assumes "obj_steps E n1 ts1 H x x1 R R1" and "obj_steps E n2 ts2 H x1 x2 R1 R2"
  shows "obj_steps E (n1 + n2) (ts1 @ ts2) H x x2 R R2"
  unfolding obj_steps_def
proof (intro conjI allI impI)
  show "n1 + n2 \<le> length (ts1 @ ts2)" using assms by (simp add: obj_steps_def)
next
  fix X f g us Y i and d :: deserializer
  assume X: "tn_rel R X" and f: "length (ts1 @ ts2) + 1 \<le> n1 + n2 + f"
    and g: "length (ts1 @ ts2) + 1 \<le> g" and d: "decryptor d = None" "ddepth d + int H \<le> maxDepth d"
  have n1: "n1 \<le> length ts1" using assms(1) by (simp add: obj_steps_def)
  obtain X1 Y1 where 1: "tn_rel R1 X1"
    "des_obj (n1 + (n2 + f)) (des_elem g E) (Some i) (fst x) (fst (snd x)) (snd (snd x)) VNil False
       (at d (ts1 @ ts2 @ us) X Y) =
     des_obj (n2 + f) (des_elem g E) (Some i) (fst x1) (fst (snd x1)) (snd (snd x1)) VNil False
       (at d (ts2 @ us) X1 Y1)"
    using assms(1) [unfolded obj_steps_def, THEN conjunct2, rule_format, of X "n2 + f" g d i "ts2 @ us" Y]
      X f g d by auto
  obtain X2 Y2 where 2: "tn_rel R2 X2"
    "des_obj (n2 + f) (des_elem g E) (Some i) (fst x1) (fst (snd x1)) (snd (snd x1)) VNil False
       (at d (ts2 @ us) X1 Y1) =
     des_obj f (des_elem g E) (Some i) (fst x2) (fst (snd x2)) (snd (snd x2)) VNil False
       (at d us X2 Y2)"
    using assms(2) [unfolded obj_steps_def, THEN conjunct2, rule_format, of X1 f g d i us Y1]
      1(1) f g d n1 by auto
  show "\<exists>X' Y'. tn_rel R2 X' \<and>
      des_obj (n1 + n2 + f) (des_elem g E) (Some i) (fst x) (fst (snd x)) (snd (snd x)) VNil False
        (at d ((ts1 @ ts2) @ us) X Y) =
      des_obj f (des_elem g E) (Some i) (fst x2) (fst (snd x2)) (snd (snd x2)) VNil False
        (at d us X' Y')"
    using 1(2) 2 by (intro exI [of _ X2] exI [of _ Y2]) (simp add: add.assoc)
qed

lemma obj_steps_head:
  assumes "head_reads ts tns R R'" and "ts \<noteq> []"
  shows "obj_steps E 1 ts H (tns0, m, t) (tns, m, t) R R'"
  using assms by (fastforce simp: obj_steps_def head_reads_def Suc_le_eq)

lemma obj_steps_ToString:
  assumes "reads body u" and "decodeCLIXMLString u = t'"
  shows "obj_steps E 1 (XStart ''ToString'' [] # texts body u @ [XEnd ''ToString'']) H
    (tns, m, t) (tns, m, t') R R"
  unfolding obj_steps_def
  using text_toks_element [OF assms(1), of "''ToString''"] assms(2)
  by (auto simp: des_obj.simps(2) DecodeElement_def)

lemma obj_steps_props:
  assumes "reads_props E ts items R R'" and "z = ''Props'' \<or> z = ''MS''"
    and "\<forall>w\<in>snd ` set items. height w \<le> H" and "distinct (map fst items)"
  shows "obj_steps E 1 (XStart z [] # ts @ [XEnd z]) H (tns, m, t) (tns, items, t) R R'"
  unfolding obj_steps_def
proof (intro conjI allI impI)
  fix X f g us Y i and d :: deserializer
  assume X: "tn_rel R X" and f: "length (XStart z [] # ts @ [XEnd z]) + 1 \<le> 1 + f"
    and g: "length (XStart z [] # ts @ [XEnd z]) + 1 \<le> g"
    and d: "decryptor d = None" "ddepth d + int H \<le> maxDepth d"
  have h: "\<forall>w\<in>snd ` set items. ddepth d + int (height w) \<le> maxDepth d"
    using assms(3) d(2) by fastforce
  obtain X' Y' where 1: "tn_rel R' X'" "des_props f (des_elem g E) [] (at d (ts @ XEnd z # us) X Y) =
      Some (at d us X' Y', Ret (put_all items []))"
    using assms(1) [unfolded reads_props_def, rule_format, of f g d X z "[]" us Y] f g d(1) h X assms(2)
    by auto
  show "\<exists>X' Y'. tn_rel R' X' \<and>
      des_obj (1 + f) (des_elem g E) (Some i) (fst (tns, m, t)) (fst (snd (tns, m, t)))
        (snd (snd (tns, m, t))) VNil False (at d ((XStart z [] # ts @ [XEnd z]) @ us) X Y) =
      des_obj f (des_elem g E) (Some i) (fst (tns, items, t)) (fst (snd (tns, items, t)))
        (snd (snd (tns, items, t))) VNil False (at d us X' Y')"
    using 1 assms(2) put_all_fresh [OF assms(4), of "[]"]
    by (intro exI [of _ X'] exI [of _ Y']) (auto simp: des_obj.simps(2))
qed simp

text \<open>The same on the side of the serializer.\<close>

definition part ::
  "codec_env \<Rightarrow> nat \<Rightarrow> obj_state \<Rightarrow> obj_state \<Rightarrow> serializer \<Rightarrow> serializer \<Rightarrow> bool" where
  "part E H x x' s s' \<longleftrightarrow>
     keeps s s' \<and>
     (\<exists>str ts n. buf s' = buf s @ str \<and> lexes str ts \<and>
        (counts_ok s s' \<longrightarrow> obj_steps E n ts H x x' (tnRefs s) (tnRefs s')))"

lemma partI:
  assumes "keeps s s'" and "buf s' = buf s @ str" and "lexes str ts"
    and "counts_ok s s' \<Longrightarrow> obj_steps E n ts H x x' (tnRefs s) (tnRefs s')"
  shows "part E H x x' s s'"
  unfolding part_def using assms by blast

lemma part_refl: "part E H x x s s"
  by (rule partI [of _ _ "[]" "[]" _ 0]) (simp_all add: obj_steps_refl)

lemma part_trans:
  assumes "part E H x x1 s s1" and "part E H x1 x2 s1 s2"
  shows "part E H x x2 s s2"
proof -
  from assms obtain str1 ts1 n1 str2 ts2 n2 where
    1: "keeps s s1" "buf s1 = buf s @ str1" "lexes str1 ts1"
      "counts_ok s s1 \<Longrightarrow> obj_steps E n1 ts1 H x x1 (tnRefs s) (tnRefs s1)" and
    2: "keeps s1 s2" "buf s2 = buf s1 @ str2" "lexes str2 ts2"
      "counts_ok s1 s2 \<Longrightarrow> obj_steps E n2 ts2 H x1 x2 (tnRefs s1) (tnRefs s2)"
    by (auto simp: part_def)
  have "obj_steps E (n1 + n2) (ts1 @ ts2) H x x2 (tnRefs s) (tnRefs s2)" if "counts_ok s s2"
    using counts_split [OF that 1(1) 2(1)] 1(4) 2(4) by (auto intro: obj_steps_trans)
  then show ?thesis
    by (intro partI [OF keeps_trans [OF 1(1) 2(1)] _ lexes_append [OF 1(3) 2(3)]])
      (simp_all add: 1(2) 2(2))
qed

lemma part_ToString:
  assumes "good_string t'"
  shows "part E H (tns, m, t) (tns, m, t') s
    (wr (''<ToString>'' @ xml_EscapeText (encodeCLIXMLString t') @ ''</ToString>'') s)"
proof -
  note g = good_string_encoded [OF assms]
  have r: "reads (xml_EscapeText (encodeCLIXMLString t')) (encodeCLIXMLString t')"
    by (rule reads_escaped_clean [OF g(1)])
  have "lexes (element ''ToString'' [] (xml_EscapeText (encodeCLIXMLString t')))
      (XStart ''ToString'' (name_attrs []) # texts (xml_EscapeText (encodeCLIXMLString t'))
         (encodeCLIXMLString t') @ [XEnd ''ToString''])"
    by (rule lexes_element [OF _ _ r]) (simp_all add: name_ok_def x_valid_clean g)
  moreover have e: "element ''ToString'' [] b = ''<ToString>'' @ b @ ''</ToString>''" for b
    by (simp add: element_def open_tag_def close_tag_def attr_N_def)
  ultimately have l: "lexes (''<ToString>'' @ xml_EscapeText (encodeCLIXMLString t') @ ''</ToString>'')
      (XStart ''ToString'' [] # texts (xml_EscapeText (encodeCLIXMLString t'))
         (encodeCLIXMLString t') @ [XEnd ''ToString''])"
    unfolding e by (simp add: name_attrs_def)
  show ?thesis
    using obj_steps_ToString [OF r g(3)] by (intro partI [OF _ _ l, where n = 1]) simp_all
qed

lemma part_props:
  assumes "emits_seq E items (wr (open_tag z []) s) s1" and "[] \<notin> fst ` set items"
    and "z = ''Props'' \<or> z = ''MS''" and "\<forall>w\<in>snd ` set items. height w \<le> H"
    and "distinct (map fst items)"
  shows "part E H (tns, m, t) (tns, items, t) s (wr (close_tag z) s1)"
proof -
  from emits_seq_props [OF assms(1,2)] obtain str ts where
    1: "keeps (wr (open_tag z []) s) s1" "buf s1 = buf s @ open_tag z [] @ str" "lexes str ts"
      "counts_ok (wr (open_tag z []) s) s1 \<Longrightarrow> reads_props E ts items (tnRefs s) (tnRefs s1)"
    by auto
  have z: "simple_name z" using assms(3) by auto
  have "keeps s (wr (close_tag z) s1)"
    using 1(1) by (simp add: keeps_def)
  moreover have "counts_ok s (wr (close_tag z) s1) \<Longrightarrow> counts_ok (wr (open_tag z []) s) s1"
    by (simp add: counts_ok_def)
  ultimately show ?thesis
    using 1(2) obj_steps_props [OF 1(4) assms(3,4,5)]
    by (intro partI [OF _ _ lexes_wrap0 [OF z 1(3)], where n = 1]) simp_all
qed

section \<open>Whole objects\<close>

text \<open>The last tokens of an object, up to its end tag, make the value.\<close>

definition obj_final ::
  "codec_env \<Rightarrow> xtok list \<Rightarrow> nat \<Rightarrow> obj_state \<Rightarrow> goval \<Rightarrow> (string, int) fmap \<Rightarrow>
    (string, int) fmap \<Rightarrow> bool" where
  "obj_final E ts H x w R R' \<longleftrightarrow>
     (\<forall>X f g us Y i (d :: deserializer).
        tn_rel R X \<longrightarrow> length ts + 2 \<le> f \<longrightarrow> length ts + 1 \<le> g \<longrightarrow> decryptor d = None \<longrightarrow>
        ddepth d + int H \<le> maxDepth d \<longrightarrow>
        (\<exists>X' Y' left. des_obj f (des_elem g E) (Some i) (fst x) (fst (snd x)) (snd (snd x)) VNil
             False (at d (ts @ XEnd ''Obj'' # us) X Y) = Some (at d (left @ us) X' Y', Ret w) \<and>
           tn_rel R' X' \<and> set left \<subseteq> {XEnd ''Obj''} \<and> length left \<le> 1))"

text \<open>An \<open>Obj\<close> whose children are read in steps, of which the last gives the value.\<close>

lemma obj_reads:
  assumes o12: "obj_steps E n ts1 H ([], [], []) x R R1" and o3: "obj_final E ts2 H x w R1 R2"
    and height: "Suc H \<le> height w" and i: "0 \<le> i" "i \<le> MaxInt"
  shows "reads_elem E ''Obj'' (obj_attrs name i) ((ts1 @ ts2) @ [XEnd ''Obj'']) w R R2"
proof (rule reads_elemI)
  let ?ts = "(ts1 @ ts2) @ [XEnd ''Obj'']" and ?as = "obj_attrs name i"
  fix f us X Y and d :: deserializer
  assume f: "length ?ts + 2 \<le> Suc f" and dec: "decryptor d = None"
    and h: "ddepth d + int (height w) \<le> maxDepth d" and X: "tn_rel R X"
  let ?d = "enter d"
  have d: "decryptor ?d = None" "ddepth ?d + int H \<le> maxDepth ?d" using dec h height by auto
  have n: "n \<le> length ts1" using o12 by (simp add: obj_steps_def)
  define f' where "f' = f - n"
  have f': "f = n + f'" "length ts2 + 2 \<le> f'" using f n by (auto simp: f'_def)
  obtain X1 Y1 where 1: "tn_rel R1 X1"
    "des_obj (n + f') (des_elem f E) (Some i) [] [] [] VNil False
       (at ?d (ts1 @ ts2 @ XEnd ''Obj'' # us) X Y) =
     des_obj f' (des_elem f E) (Some i) (fst x) (fst (snd x)) (snd (snd x)) VNil False
       (at ?d (ts2 @ XEnd ''Obj'' # us) X1 Y1)"
    using o12 [unfolded obj_steps_def, THEN conjunct2, rule_format, of X f' f ?d i
        "ts2 @ XEnd ''Obj'' # us" Y] X d f f' by auto
  obtain X2 Y2 left where 3: "des_obj f' (des_elem f E) (Some i) (fst x) (fst (snd x))
      (snd (snd x)) VNil False (at ?d (ts2 @ XEnd ''Obj'' # us) X1 Y1) =
      Some (at ?d (left @ us) X2 Y2, Ret w)" "tn_rel R2 X2"
    "set left \<subseteq> {XEnd ''Obj''}" "length left \<le> 1"
    using o3 [unfolded obj_final_def, rule_format, of X1 f' f ?d i us Y1] 1(1) d f f' by auto
  have "elem_step E f (des_elem f E) ''Obj'' ?as (at d (?ts @ us) X Y) =
      Some (at d (left @ us) X2 Y2, Ret w)"
    using 1(2) 3(1) h height f'(1) by (simp add: elem_step_def ref_ids_obj [OF i])
  then show "\<exists>X' Y' left. elem_step E f (des_elem f E) ''Obj'' ?as (at d (?ts @ us) X Y) =
        Some (at d (left @ us) X' Y', Ret w) \<and> tn_rel R2 X' \<and>
      set left \<subseteq> {XEnd ''Obj''} \<and> length left \<le> length ?ts"
    using 3(2,3,4) by (intro exI [of _ X2] exI [of _ Y2] exI [of _ left]) auto
qed

lemma emits_object:
  assumes name: "name_ok name"
    and hd_: "keeps s s2" "refCounter s2 = refCounter s + 1" "buf s2 = buf (open_obj name s) @ str1"
      "lexes str1 ts1"
      "int (fmsize (tnRefs s)) \<le> MaxInt \<Longrightarrow> obj_steps E n1 ts1 H ([], [], []) x (tnRefs s) (tnRefs s2)"
    and mid: "part E H x x' s2 s3"
    and fin: "keeps s3 s4" "buf s4 = buf s3 @ str3 @ close_tag ''Obj''" "lexes str3 ts3"
      "counts_ok s3 s4 \<Longrightarrow> obj_final E ts3 H x' w (tnRefs s3) (tnRefs s4)"
    and height: "Suc H \<le> height w"
  shows "emits E w name s s4"
proof -
  from mid obtain str2 ts2 n2 where 2: "keeps s2 s3" "buf s3 = buf s2 @ str2" "lexes str2 ts2"
    "counts_ok s2 s3 \<Longrightarrow> obj_steps E n2 ts2 H x x' (tnRefs s2) (tnRefs s3)"
    by (auto simp: part_def)
  let ?i = "refCounter s" and ?as = "obj_attrs name (refCounter s)"
  let ?ts = "(ts1 @ ts2 @ ts3) @ [XEnd ''Obj'']"
  have k: "keeps s s4" by (rule keeps_trans [OF hd_(1) keeps_trans [OF 2(1) fin(1)]])
  have buf: "buf s4 = buf s @ ''<'' @ ''Obj'' @ attr_text ?as @ ''>'' @ (str1 @ str2 @ str3) @
      close_tag ''Obj''"
    using hd_(3) 2(2) fin(2) by simp
  have lex: "lexes (''<'' @ ''Obj'' @ attr_text ?as @ ''>'' @ (str1 @ str2 @ str3) @ close_tag ''Obj'')
      (XStart ''Obj'' ?as # ?ts)"
    using lexes_wrap [OF _ clean_obj_attrs [OF name]
        lexes_append [OF hd_(4) lexes_append [OF 2(3) fin(3)]], of "''Obj''" ?i]
    by simp
  have "reads_elem E ''Obj'' ?as ?ts w (tnRefs s) (tnRefs s4)" if c: "counts_ok s s4"
  proof -
    note cs = counts_split [OF c hd_(1) keeps_trans [OF 2(1) fin(1)]]
    note cs2 = counts_split [OF conjunct2 [OF cs] 2(1) fin(1)]
    have i: "0 \<le> ?i" "?i \<le> MaxInt" "int (fmsize (tnRefs s)) \<le> MaxInt"
      using c k by (auto simp: counts_ok_def keeps_def)
    from obj_reads [OF obj_steps_trans [OF hd_(5) [OF i(3)] 2(4) [OF conjunct1 [OF cs2]]]
        fin(4) [OF conjunct2 [OF cs2]] height i(1,2)]
    show ?thesis by simp
  qed
  then show ?thesis by (rule emitsI [OF k buf lex attrs_for_obj]) simp_all
qed

lemma final_object: "obj_final E [] H (tns, m, t) (VObject (PSObject tns m [] [] t VNil)) R R"
  unfolding obj_final_def
proof (intro allI impI)
  fix X f g us Y i and d :: deserializer
  assume X: "tn_rel R X" and f: "length [] + 2 \<le> f"
  obtain f1 where f1: "f = Suc f1" using f by (cases f) auto
  show "\<exists>X' Y' left. des_obj f (des_elem g E) (Some i) (fst (tns, m, t)) (fst (snd (tns, m, t)))
      (snd (snd (tns, m, t))) VNil False (at d ([] @ XEnd ''Obj'' # us) X Y) =
      Some (at d (left @ us) X' Y', Ret (VObject (PSObject tns m [] [] t VNil))) \<and> tn_rel R X' \<and>
      set left \<subseteq> {XEnd ''Obj''} \<and> length left \<le> 1"
    using X by (intro exI [of _ X] exI [of _ "fmupd i (VObject (PSObject tns m [] [] t VNil)) Y"]
        exI [of _ "[]"]) (simp add: f1 des_obj.simps(2) store_ref_def Let_def)
qed

lemma final_list:
  assumes "reads_list E ts ws R R'" and "\<forall>w\<in>set ws. height w \<le> H"
  shows "obj_final E (XStart ''LST'' [] # ts @ [XEnd ''LST'']) H x (VSlice ws) R R'"
  unfolding obj_final_def
proof (intro allI impI)
  fix X f g us Y i and d :: deserializer
  let ?ts = "XStart ''LST'' [] # ts @ [XEnd ''LST'']"
  assume X: "tn_rel R X" and f: "length ?ts + 2 \<le> f" and g: "length ?ts + 1 \<le> g"
    and d: "decryptor d = None" "ddepth d + int H \<le> maxDepth d"
  obtain f1 where f1: "f = Suc f1" using f by (cases f) auto
  have h: "\<forall>w\<in>set ws. ddepth d + int (height w) \<le> maxDepth d" using assms(2) d(2) by fastforce
  obtain X' Y' where 1: "des_list f1 (des_elem g E) (at d (ts @ XEnd ''LST'' # XEnd ''Obj'' # us) X Y) =
      Some (at d (XEnd ''Obj'' # us) X' Y', Ret ws)" "tn_rel R' X'"
    using assms(1) [unfolded reads_list_def, rule_format, of f1 g d X "XEnd ''Obj'' # us" Y] f f1 g d(1) h X
    by auto
  show "\<exists>X' Y' left. des_obj f (des_elem g E) (Some i) (fst x) (fst (snd x)) (snd (snd x)) VNil False
      (at d (?ts @ XEnd ''Obj'' # us) X Y) = Some (at d (left @ us) X' Y', Ret (VSlice ws)) \<and>
      tn_rel R' X' \<and> set left \<subseteq> {XEnd ''Obj''} \<and> length left \<le> 1"
    using 1 by (intro exI [of _ X'] exI [of _ "fmupd i (VSlice ws) Y'"] exI [of _ "[XEnd ''Obj'']"])
      (simp add: f1 des_obj.simps(2) store_ref_def)
qed

end
