(* ===== verification/Clixml_Values.thy ===== *)
theory Clixml_Values
  imports Clixml_Roundtrip
begin

text \<open>
  The round trip of whole values. The relation \<open>comes_back E v w\<close> says that \<open>v\<close> is a value that
  survives CLIXML and that \<open>w\<close> is what the other side has: the Go type of some values changes
  (an \<open>int\<close> comes back as an \<open>int32\<close>, a version as a string, a list of any element type as
  \<open>[]interface{}\<close>, an enumeration as an object holding a number), a hashtable and the properties
  of an object come back sorted by key, and a \<open>PSObject\<close> comes back with its members among its
  properties. \<open>writes_back\<close> is the induction over the relation, \<open>marshal_unmarshal\<close> the result
  for documents.
\<close>

section \<open>Type names\<close>

definition good_types :: "string list \<Rightarrow> bool" where
  "good_types tns \<longleftrightarrow>
     tns \<noteq> [] \<and> tns \<noteq> [typeNameHashtable] \<and> list_all (\<lambda>t. CHR ''|'' \<notin> set t) tns"

lemma split_bar_nobar: "CHR ''|'' \<notin> set t \<Longrightarrow> split_bar t = [t]"
  by (induction t) auto

lemma split_bar_append:
  "CHR ''|'' \<notin> set t \<Longrightarrow> split_bar (t @ CHR ''|'' # u) = t # split_bar u"
  by (induction t) auto

lemma split_bar_join:
  "tns \<noteq> [] \<Longrightarrow> list_all (\<lambda>t. CHR ''|'' \<notin> set t) tns \<Longrightarrow> split_bar (join ''|'' tns) = tns"
  by (induction "''|''" tns rule: join.induct) (auto simp: split_bar_nobar split_bar_append)

lemma key_names_join: "good_types tns \<Longrightarrow> key_names (join ''|'' tns) = tns"
  using split_bar_join [of tns] split_bar_nobar [of typeNameHashtable]
  by (auto simp: key_names_def good_types_def typeNameHashtable_def)

text \<open>The start of an object with its type names.\<close>

lemma typed_head:
  assumes "\<And>t. t \<in> set tns \<Longrightarrow> reads (esc t) t \<and> x_valid t" and "key_names k = tns"
  shows "\<exists>str ts.
    buf (write_typenames k (tn_body esc tns) (open_obj name s)) = buf (open_obj name s) @ str \<and>
    lexes str ts \<and>
    (int (fmsize (tnRefs s)) \<le> MaxInt \<longrightarrow>
      obj_steps E 1 ts H ([], [], []) (tns, [], []) (tnRefs s)
        (tnRefs (write_typenames k (tn_body esc tns) (open_obj name s))))"
proof -
  have l: "lexes (tn_body esc tns) (T_toks esc tns)" using assms(1) by (intro lexes_tn_body) simp
  have t: "tn_toks (T_toks esc tns @ XEnd ''TN'' # us) = Some (key_names k, us)" for us
    unfolding assms(2) using assms(1) by (intro tn_toks_read) simp
  obtain str ts where st: "buf (write_typenames k (tn_body esc tns) (open_obj name s)) = buf (open_obj name s) @ str"
    "lexes str ts" "ts \<noteq> []"
    "int (fmsize (tnRefs s)) \<le> MaxInt \<Longrightarrow>
      head_reads ts tns (tnRefs s) (tnRefs (write_typenames k (tn_body esc tns) (open_obj name s)))"
    using typenames_step [OF l t, of "open_obj name s"] assms(2) by auto
  then show ?thesis using obj_steps_head [OF st(4) st(3)] by blast
qed

lemma refCounter_typenames [simp]: "refCounter (write_typenames k body s) = refCounter s"
  by (simp add: write_typenames_def Let_def split: option.splits)

section \<open>Enumerations\<close>

definition enum_types :: "string \<Rightarrow> string list" where
  "enum_types ty = [ty, ''System.Enum'', ''System.ValueType'', ''System.Object'']"

lemma enum_key: "join ''|'' (enum_types ty) = ty @ ''|System.Enum|System.ValueType|System.Object''"
  by (simp add: enum_types_def)

lemma good_enum_types: "CHR ''|'' \<notin> set ty \<Longrightarrow> good_types (enum_types ty)"
  by (simp add: good_types_def enum_types_def)

definition enum_value :: "string \<Rightarrow> int \<Rightarrow> string \<Rightarrow> goval" where
  "enum_value ty val str = VObject (PSObject (enum_types ty) [] [] [] str (VInt32 val))"

lemma final_enum:
  assumes "in_signed 32 val"
  shows "obj_final E (XStart ''I32'' [] # texts (itoa val) (itoa val) @ [XEnd ''I32'']) 1
    (tns, [], str) (VObject (PSObject tns [] [] [] str (VInt32 val))) R R"
  unfolding obj_final_def
proof (intro allI impI)
  fix X f g us Y i and d :: deserializer
  let ?ts = "XStart ''I32'' [] # texts (itoa val) (itoa val) @ [XEnd ''I32'']"
  let ?w = "VObject (PSObject tns [] [] [] str (VInt32 val))"
  assume X: "tn_rel R X" and f: "length ?ts + 2 \<le> f" and g: "length ?ts + 1 \<le> g"
    and d: "decryptor d = None" "ddepth d + int 1 \<le> maxDepth d"
  obtain f1 where f1: "f = Suc (Suc f1)" using f by (cases f; cases "f - 1") auto
  obtain g1 where g1: "g = Suc g1" using g by (cases g) auto
  have "reads (itoa val) (itoa val)" using raw_itoa by (simp add: raw_text_def)
  note t = text_toks_element [OF this, of "''I32''" "XEnd ''Obj'' # us"]
  have "des_elem g E ''I32'' [] (at d (texts (itoa val) (itoa val) @ XEnd ''I32'' # XEnd ''Obj'' # us) X Y) =
      Some (at d (XEnd ''Obj'' # us) X Y, Ret (VInt32 val))"
    using d t assms
    by (simp add: g1 des_elem.simps(2) elem_step_def text_elem_def DecodeElement_def of_option_def)
  then show "\<exists>X' Y' left. des_obj f (des_elem g E) (Some i) (fst (tns, [], str))
      (fst (snd (tns, [], str))) (snd (snd (tns, [], str))) VNil False
      (at d (?ts @ XEnd ''Obj'' # us) X Y) = Some (at d (left @ us) X' Y', Ret ?w) \<and>
      tn_rel R X' \<and> set left \<subseteq> {XEnd ''Obj''} \<and> length left \<le> 1"
    using X by (intro exI [of _ X] exI [of _ "fmupd i ?w Y"] exI [of _ "[]"])
      (simp add: f1 des_obj.simps(2) store_ref_def Let_def attr_first_def)
qed

lemma emits_Enum:
  assumes "in_signed 32 val" and "raw_text ty" and "CHR ''|'' \<notin> set ty" and "good_string str"
    and name: "name_ok name"
  shows "emits E (enum_value ty val str) name s (serializePSRPEnumFast ty val str name s)"
proof -
  let ?tns = "enum_types ty" and ?e = "xml_EscapeText (encodeCLIXMLString str)"
  let ?k = "join ''|'' ?tns"
  define s2 where "s2 = write_typenames ?k (tn_body id ?tns) (open_obj name s)"
  define s3 where "s3 = wr (''<ToString>'' @ ?e @ ''</ToString>'') s2"
  define s4 where "s4 = wr (''<I32>'' @ itoa val @ ''</I32></Obj>'') s3"
  have "raw_text ''System.Enum''" "raw_text ''System.ValueType''" "raw_text ''System.Object''"
    by (rule raw_ascii, simp add: of_char_def)+
  then have r: "\<And>t. t \<in> set ?tns \<Longrightarrow> reads (id t) t \<and> x_valid t"
    using assms(2) by (auto simp: enum_types_def raw_text_def)
  have k: "key_names ?k = ?tns" by (rule key_names_join [OF good_enum_types [OF assms(3)]])
  obtain str1 ts1 where 1: "buf s2 = buf (open_obj name s) @ str1" "lexes str1 ts1"
    "int (fmsize (tnRefs s)) \<le> MaxInt \<Longrightarrow>
      obj_steps E 1 ts1 1 ([], [], []) (?tns, [], []) (tnRefs s) (tnRefs s2)"
    unfolding s2_def using typed_head [OF r k, where name = name and s = s and E = E and H = 1] by blast
  have "keeps s s2" unfolding s2_def by (rule typenames_keeps)
  moreover have "refCounter s2 = refCounter s + 1" by (simp add: s2_def)
  moreover have "part E 1 (?tns, [], []) (?tns, [], str) s2 s3"
    unfolding s3_def by (rule part_ToString [OF assms(4)])
  moreover have "keeps s3 s4" by (simp add: s4_def)
  moreover have "buf s4 = buf s3 @ (''<I32>'' @ itoa val @ ''</I32>'') @ close_tag ''Obj''"
    by (simp add: s4_def close_tag_def)
  moreover have "lexes (''<I32>'' @ itoa val @ ''</I32>'')
      (XStart ''I32'' [] # texts (itoa val) (itoa val) @ [XEnd ''I32''])"
  proof -
    have "lexes (element ''I32'' [] (itoa val))
        (XStart ''I32'' (name_attrs []) # texts (itoa val) (itoa val) @ [XEnd ''I32''])"
      by (rule lexes_element) (use raw_itoa in \<open>auto simp: name_ok_def raw_text_def\<close>)
    then show ?thesis by (simp add: element_def open_tag_def close_tag_def attr_N_def name_attrs_def)
  qed
  moreover have "obj_final E (XStart ''I32'' [] # texts (itoa val) (itoa val) @ [XEnd ''I32'']) 1
      (?tns, [], str) (enum_value ty val str) (tnRefs s3) (tnRefs s4)"
    unfolding enum_value_def using final_enum [OF assms(1)] by (simp add: s4_def)
  ultimately have "emits E (enum_value ty val str) name s s4"
    using 1 by (intro emits_object [OF name, where ?n1.0 = 1 and H = 1]) (simp_all add: enum_value_def)
  then show ?thesis
    by (simp add: serializePSRPEnumFast_def Let_def s4_def s3_def s2_def enum_key enum_types_def wr_def)
qed

section \<open>Hashtables\<close>

definition plain_key :: "string \<Rightarrow> bool" where
  "plain_key k \<longleftrightarrow> clean k \<and> decodeCLIXMLString k = k"

definition entry_open :: "string \<Rightarrow> string" where
  "entry_open k = ''<En><S N=\"Key\">'' @ xml_EscapeText k @ ''</S>''"

definition key_toks :: "string \<Rightarrow> xtok list" where
  "key_toks k = XStart ''S'' [(''N'', ''Key'')] # texts (xml_EscapeText k) k @ [XEnd ''S'']"

fun emits_dct :: "codec_env \<Rightarrow> (string \<times> goval) list \<Rightarrow> serializer \<Rightarrow> serializer \<Rightarrow> bool" where
  "emits_dct E [] s s' \<longleftrightarrow> s' = s"
| "emits_dct E ((k, w) # items) s s' \<longleftrightarrow>
     (\<exists>s1. emits E w ''Value'' (wr (entry_open k) s) s1 \<and> emits_dct E items (wr ''</En>'' s1) s')"

lemma name_ok_ascii:
  assumes "list_all (\<lambda>c. 32 \<le> code c \<and> code c < 127 \<and> c \<noteq> CHR ''\"'' \<and> c \<noteq> CHR ''<'' \<and> c \<noteq> CHR ''&'') v"
  shows "name_ok v"
proof -
  have "list_all (\<lambda>c. 32 \<le> code c \<and> code c < 127) v" using assms by (simp add: list_all_iff)
  from x_valid_clean [OF clean_ascii [OF this]] ascii_no_CR [OF this] assms show ?thesis
    by (simp add: name_ok_def clean_value_def no_CR_def list_all_iff)
qed

lemma lexes_key:
  assumes "plain_key k"
  shows "lexes (''<S N=\"Key\">'' @ xml_EscapeText k @ ''</S>'') (key_toks k)"
proof -
  have c: "clean k" using assms by (simp add: plain_key_def)
  have "name_ok ''Key''" by (rule name_ok_ascii) (simp add: of_char_def)
  from lexes_element [OF _ this reads_escaped_clean [OF c] x_valid_clean [OF c], of "''S''"]
  show ?thesis
    by (simp add: element_def open_tag_def close_tag_def attr_N_def name_attrs_def key_toks_def)
qed

lemma height_pos: "1 \<le> height w"
  by (cases w rule: height.cases) simp_all

lemma reads_entry:
  assumes k: "plain_key k" and v: "attrs_for ''Value'' as" "reads_elem E n as ts w R R'"
    and X: "tn_rel R X" and d: "decryptor d = None" "ddepth d + int (height w) \<le> maxDepth d"
    and f: "length ts + 3 \<le> f" and g: "length ts + 2 \<le> g"
  shows "\<exists>X' Y'. des_entry f (des_elem g E) [] VNil
      (at d (key_toks k @ XStart n as # ts @ XEnd ''En'' # us) X Y) =
      Some (at d us X' Y', Ret (k, w)) \<and> tn_rel R' X'"
proof -
  obtain f1 where f1: "f = Suc (Suc f1)" "length ts + 1 \<le> f1" using f by (cases f; cases "f - 1") auto
  obtain g1 where g1: "g = Suc g1" using g by (cases g) auto
  have r: "reads (xml_EscapeText k) k" using k by (simp add: plain_key_def reads_escaped_clean)
  note t = text_toks_element [OF r, of "''S''" "XStart n as # ts @ XEnd ''En'' # us"]
  have "ddepth d < maxDepth d" using d(2) height_pos [of w] by simp
  then have key: "des_elem g E ''S'' [(''N'', ''Key'')]
      (at d (texts (xml_EscapeText k) k @ XEnd ''S'' # XStart n as # ts @ XEnd ''En'' # us) X Y) =
      Some (at d (XStart n as # ts @ XEnd ''En'' # us) X Y, Ret (VString k))"
    using t k by (simp add: g1 des_elem.simps(2) elem_step_def text_elem_def DecodeElement_def
        plain_key_def)
  obtain X1 Y1 left where l: "des_elem g E n as (at d (ts @ XEnd ''En'' # us) X Y) =
      Some (at d (left @ XEnd ''En'' # us) X1 Y1, Ret w)" "tn_rel R' X1"
    "set left \<subseteq> {XEnd ''Obj''}" "length left \<le> length ts"
    using v(2) [unfolded reads_elem_def, rule_format, of g d X "XEnd ''En'' # us" Y] g d X by auto
  obtain f2 where f2: "f1 = length left + Suc f2"
    using l(4) f1(2) by (intro that [of "f1 - length left - 1"]) auto
  have a: "\<not> has_N ''Key'' as" "has_N ''Value'' as" using v(1) by (simp_all add: attrs_for_def)
  have "des_entry f1 (des_elem g E) k w (at d (left @ XEnd ''En'' # us) X1 Y1) =
      Some (at d us X1 Y1, Ret (k, w))"
    by (simp only: f2 skip_left(3) [OF l(3)]) (simp add: des_entry.simps(2))
  then show ?thesis
    using l(1,2) a key
    by (intro exI [of _ X1] exI [of _ Y1]) (simp add: f1 key_toks_def des_entry.simps(2) has_N_def)
qed

definition reads_dict ::
  "codec_env \<Rightarrow> xtok list \<Rightarrow> (string \<times> goval) list \<Rightarrow> (string, int) fmap \<Rightarrow>
    (string, int) fmap \<Rightarrow> bool" where
  "reads_dict E ts items R R' \<longleftrightarrow>
     (\<forall>f g us X Y m (d :: deserializer). length ts + 1 \<le> f \<longrightarrow> length ts + 1 \<le> g \<longrightarrow>
        decryptor d = None \<longrightarrow> (\<forall>w\<in>snd ` set items. ddepth d + int (height w) \<le> maxDepth d) \<longrightarrow>
        tn_rel R X \<longrightarrow>
        (\<exists>X' Y'. des_dict f (des_elem g E) m (at d (ts @ XEnd ''DCT'' # us) X Y) =
           Some (at d us X' Y', Ret (put_all items m)) \<and> tn_rel R' X'))"

definition entry_toks :: "string \<Rightarrow> xtok list \<Rightarrow> xtok list" where
  "entry_toks k ts = XStart ''En'' [] # key_toks k @ ts @ [XEnd ''En'']"

lemma reads_dict_Cons:
  assumes k: "plain_key k" and v: "attrs_for ''Value'' as" "reads_elem E n as ts1 w R R1"
    and rest: "reads_dict E ts2 items R1 R'"
  shows "reads_dict E (entry_toks k (XStart n as # ts1) @ ts2) ((k, w) # items) R R'"
  unfolding reads_dict_def
proof (intro allI impI)
  fix f g us X Y m and d :: deserializer
  let ?ts = "entry_toks k (XStart n as # ts1) @ ts2"
  assume f: "length ?ts + 1 \<le> f" and g: "length ?ts + 1 \<le> g" and dec: "decryptor d = None"
    and h: "\<forall>w\<in>snd ` set ((k, w) # items). ddepth d + int (height w) \<le> maxDepth d"
    and X: "tn_rel R X"
  obtain f1 where f1: "f = Suc f1" "length ts2 + 1 \<le> f1" "length ts1 + 3 \<le> f1"
    using f by (cases f) (auto simp: entry_toks_def key_toks_def)
  have g1: "length ts1 + 2 \<le> g" "length ts2 + 1 \<le> g" using g by (auto simp: entry_toks_def)
  obtain X1 Y1 where 1: "des_entry f1 (des_elem g E) [] VNil
      (at d (key_toks k @ XStart n as # ts1 @ XEnd ''En'' # ts2 @ XEnd ''DCT'' # us) X Y) =
      Some (at d (ts2 @ XEnd ''DCT'' # us) X1 Y1, Ret (k, w))" "tn_rel R1 X1"
    using reads_entry [OF k v X dec _ f1(3) g1(1)] h by fastforce
  obtain X2 Y2 where 2: "des_dict f1 (des_elem g E) (AList.update k w m)
      (at d (ts2 @ XEnd ''DCT'' # us) X1 Y1) =
      Some (at d us X2 Y2, Ret (put_all items (AList.update k w m)))" "tn_rel R' X2"
    using rest [unfolded reads_dict_def, rule_format, of f1 g d X1 "AList.update k w m" us Y1]
      f1(2) g1(2) dec h 1(2) by auto
  show "\<exists>X' Y'. des_dict f (des_elem g E) m (at d (?ts @ XEnd ''DCT'' # us) X Y) =
      Some (at d us X' Y', Ret (put_all ((k, w) # items) m)) \<and> tn_rel R' X'"
    using 1(1) 2
    by (intro exI [of _ X2] exI [of _ Y2])
      (simp add: f1(1) entry_toks_def des_dict.simps(2) put_all_def)
qed

lemma reads_dict_Nil: "reads_dict E [] [] R R"
  unfolding reads_dict_def
proof (intro allI impI)
  fix f g us X Y m and d :: deserializer
  assume f: "length [] + 1 \<le> f" and "tn_rel R X"
  moreover obtain f1 where "f = Suc f1" using f by (cases f) auto
  ultimately show "\<exists>X' Y'. des_dict f (des_elem g E) m (at d ([] @ XEnd ''DCT'' # us) X Y) =
      Some (at d us X' Y', Ret (put_all [] m)) \<and> tn_rel R X'"
    by (intro exI [of _ X] exI [of _ Y]) (simp add: des_dict.simps(2) put_all_def)
qed

lemma lexes_entry:
  assumes "plain_key k" and "lexes str ts"
  shows "lexes (entry_open k @ str @ ''</En>'') (entry_toks k ts)"
  using lexes_wrap0 [OF tags(18) lexes_append [OF lexes_key [OF assms(1)] assms(2)]]
  by (simp add: entry_open_def entry_toks_def open_tag_def close_tag_def attr_N_def)

lemma emits_dct_reads:
  assumes "emits_dct E items s s'" and "\<And>k. k \<in> fst ` set items \<Longrightarrow> plain_key k"
  shows "keeps s s' \<and> (\<exists>str ts. buf s' = buf s @ str \<and> lexes str ts \<and>
    (counts_ok s s' \<longrightarrow> reads_dict E ts items (tnRefs s) (tnRefs s')))"
  using assms
proof (induction items arbitrary: s)
  case Nil
  then show ?case using reads_dict_Nil by (auto intro!: exI [of _ "[]"])
next
  case (Cons a items)
  obtain k w where a: "a = (k, w)" by (cases a)
  let ?s = "wr (entry_open k) s"
  from Cons.prems(1) a obtain s1 where e: "emits E w ''Value'' ?s s1"
    and r: "emits_dct E items (wr ''</En>'' s1) s'" by auto
  have k: "plain_key k" using Cons.prems(2) a by simp
  from e obtain str1 n as ts1 where 1: "keeps ?s s1" "buf s1 = buf ?s @ str1"
    "lexes str1 (XStart n as # ts1)" "attrs_for ''Value'' as"
    "counts_ok ?s s1 \<Longrightarrow> reads_elem E n as ts1 w (tnRefs s) (tnRefs s1)"
    by (auto simp: emits_def)
  from Cons.IH [OF r] Cons.prems(2) obtain str2 ts2 where 2: "keeps (wr ''</En>'' s1) s'"
    "buf s' = buf s1 @ ''</En>'' @ str2" "lexes str2 ts2"
    "counts_ok (wr ''</En>'' s1) s' \<Longrightarrow> reads_dict E ts2 items (tnRefs s1) (tnRefs s')"
    by auto
  have 3: "keeps s s1" using 1(1) by (simp add: keeps_def)
  have 4: "keeps s1 s'" using 2(1) by (simp add: keeps_def)
  have "reads_dict E (entry_toks k (XStart n as # ts1) @ ts2) (a # items) (tnRefs s) (tnRefs s')"
    if "counts_ok s s'"
  proof -
    note cs = counts_split [OF that 3 4]
    have "counts_ok ?s s1" "counts_ok (wr ''</En>'' s1) s'" using cs by (simp_all add: counts_ok_def)
    with 1(5) 2(4) show ?thesis unfolding a by (intro reads_dict_Cons [OF k 1(4)]) auto
  qed
  moreover have "lexes ((entry_open k @ str1 @ ''</En>'') @ str2)
      (entry_toks k (XStart n as # ts1) @ ts2)"
    by (rule lexes_append [OF lexes_entry [OF k 1(3)] 2(3)])
  moreover have "buf s' = buf s @ (entry_open k @ str1 @ ''</En>'') @ str2"
    using 1(2) 2(2) by simp
  ultimately show ?case using keeps_trans [OF 3 4] by blast
qed

lemma final_map:
  assumes "reads_dict E ts items R R'" and "\<forall>w\<in>snd ` set items. height w \<le> H"
    and "distinct (map fst items)" and "is_hashtable tns"
  shows "obj_final E (XStart ''DCT'' [] # ts @ [XEnd ''DCT'']) H (tns, m, t) (VMap items) R R'"
  unfolding obj_final_def
proof (intro allI impI)
  fix X f g us Y i and d :: deserializer
  let ?ts = "XStart ''DCT'' [] # ts @ [XEnd ''DCT'']"
  assume X: "tn_rel R X" and f: "length ?ts + 2 \<le> f" and g: "length ?ts + 1 \<le> g"
    and d: "decryptor d = None" "ddepth d + int H \<le> maxDepth d"
  obtain f1 where f1: "f = Suc f1" using f by (cases f) auto
  have h: "\<forall>w\<in>snd ` set items. ddepth d + int (height w) \<le> maxDepth d" using assms(2) d(2) by fastforce
  have p: "put_all items [] = items" using put_all_fresh [OF assms(3), of "[]"] by simp
  obtain X' Y' where 1: "des_dict f1 (des_elem g E) [] (at d (ts @ XEnd ''DCT'' # XEnd ''Obj'' # us) X Y) =
      Some (at d (XEnd ''Obj'' # us) X' Y', Ret items)" "tn_rel R' X'"
    using assms(1) [unfolded reads_dict_def, rule_format, of f1 g d X "[]" "XEnd ''Obj'' # us" Y]
      f f1 g d(1) h X p by auto
  show "\<exists>X' Y' left. des_obj f (des_elem g E) (Some i) (fst (tns, m, t)) (fst (snd (tns, m, t)))
      (snd (snd (tns, m, t))) VNil False
      (at d (?ts @ XEnd ''Obj'' # us) X Y) = Some (at d (left @ us) X' Y', Ret (VMap items)) \<and>
      tn_rel R' X' \<and> set left \<subseteq> {XEnd ''Obj''} \<and> length left \<le> 1"
    using 1 assms(4)
    by (intro exI [of _ X'] exI [of _ "fmupd i (VMap items) Y'"] exI [of _ "[XEnd ''Obj'']"])
      (simp add: f1 des_obj.simps(2) store_ref_def)
qed

section \<open>Lists, hashtables and objects\<close>

text \<open>The shape that a list, a hashtable and an enumeration have in common.\<close>

lemma emits_typed:
  assumes name: "name_ok name" and tns: "\<And>t. t \<in> set tns \<Longrightarrow> reads (esc t) t \<and> x_valid t"
    and k: "key_names k = tns"
    and s2: "s2 = write_typenames k (tn_body esc tns) (open_obj name s)"
    and fin: "keeps s2 s4" "buf s4 = buf s2 @ str3 @ close_tag ''Obj''" "lexes str3 ts3"
      "counts_ok s2 s4 \<Longrightarrow> obj_final E ts3 H (tns, [], []) w (tnRefs s2) (tnRefs s4)"
    and height: "Suc H \<le> height w"
  shows "emits E w name s s4"
proof -
  obtain str1 ts1 where 1: "buf s2 = buf (open_obj name s) @ str1" "lexes str1 ts1"
    "int (fmsize (tnRefs s)) \<le> MaxInt \<Longrightarrow>
      obj_steps E 1 ts1 H ([], [], []) (tns, [], []) (tnRefs s) (tnRefs s2)"
    unfolding s2 using typed_head [OF tns k, where name = name and s = s and E = E and H = H] by blast
  have "keeps s s2" unfolding s2 by (rule typenames_keeps)
  moreover have "refCounter s2 = refCounter s + 1" by (simp add: s2)
  ultimately show ?thesis
    using emits_object [OF name _ _ 1(1,2) _ part_refl fin height, of 1] 1(3) by blast
qed

lemma height_list: "w \<in> set ws \<Longrightarrow> height w \<le> foldr (\<lambda>x. max (height x)) ws 0"
  by (induction ws) auto

lemma height_pairs: "w \<in> snd ` set m \<Longrightarrow> height w \<le> foldr (\<lambda>(k, v). max (height v)) m 0"
  by (induction m) (force simp: le_max_iff_disj)+

lemma emits_list:
  assumes name: "name_ok name" and tns: "\<And>t. t \<in> set tns \<Longrightarrow> reads (esc t) t \<and> x_valid t"
    and k: "key_names k = tns"
    and items: "emits_seq E items
      (wr ''<LST>'' (write_typenames k (tn_body esc tns) (open_obj name s))) s1"
  shows "emits E (VSlice (map snd items)) name s (wr ''</LST></Obj>'' s1)"
proof -
  let ?s2 = "write_typenames k (tn_body esc tns) (open_obj name s)" and ?ws = "map snd items"
  from emits_seq_list [OF items] obtain str ts where
    1: "keeps (wr ''<LST>'' ?s2) s1" "buf s1 = buf ?s2 @ ''<LST>'' @ str" "lexes str ts"
      "counts_ok (wr ''<LST>'' ?s2) s1 \<Longrightarrow> reads_list E ts ?ws (tnRefs ?s2) (tnRefs s1)" by auto
  show ?thesis
  proof (rule emits_typed [OF name tns k refl, where ?ts3.0 = "XStart ''LST'' [] # ts @ [XEnd ''LST'']"])
    show "buf (wr ''</LST></Obj>'' s1) = buf ?s2 @ (open_tag ''LST'' [] @ str @ close_tag ''LST'') @
        close_tag ''Obj''"
      using 1(2) by (simp add: open_tag_def close_tag_def attr_N_def)
    show "lexes (open_tag ''LST'' [] @ str @ close_tag ''LST'') (XStart ''LST'' [] # ts @ [XEnd ''LST''])"
      by (rule lexes_wrap0 [OF tags(16) 1(3)])
    show "keeps ?s2 (wr ''</LST></Obj>'' s1)" using 1(1) by (simp add: keeps_def)
    show "obj_final E (XStart ''LST'' [] # ts @ [XEnd ''LST'']) (foldr (\<lambda>x. max (height x)) ?ws 0)
        (tns, [], []) (VSlice ?ws) (tnRefs ?s2) (tnRefs (wr ''</LST></Obj>'' s1))"
      if "counts_ok ?s2 (wr ''</LST></Obj>'' s1)"
    proof -
      have "counts_ok (wr ''<LST>'' ?s2) s1" using that by (simp add: counts_ok_def)
      then show ?thesis using 1(4) by (auto intro: final_list height_list)
    qed
    show "Suc (foldr (\<lambda>x. max (height x)) ?ws 0) \<le> height (VSlice ?ws)"
      by (simp only: height.simps)
  qed
qed

lemma emits_map:
  assumes name: "name_ok name" and items: "emits_dct E items
      (wr ''<DCT>'' (write_typenames typeNameHashtable (tn_body id hashtable_types) (open_obj name s))) s1"
    and keys: "\<And>k. k \<in> fst ` set items \<Longrightarrow> plain_key k" "distinct (map fst items)"
  shows "emits E (VMap items) name s (wr ''</DCT></Obj>'' s1)"
proof -
  let ?s2 = "write_typenames typeNameHashtable (tn_body id hashtable_types) (open_obj name s)"
  have tns: "\<And>t. t \<in> set hashtable_types \<Longrightarrow> reads (id t) t \<and> x_valid t"
  proof -
    have "raw_text typeNameHashtable" "raw_text ''System.Object''"
      by (rule raw_ascii, simp add: typeNameHashtable_def of_char_def)+
    then show "\<And>t. t \<in> set hashtable_types \<Longrightarrow> reads (id t) t \<and> x_valid t"
      by (auto simp: hashtable_types_def raw_text_def)
  qed
  have k: "key_names typeNameHashtable = hashtable_types" by (simp add: key_names_def)
  have ht: "is_hashtable hashtable_types" by (simp add: is_hashtable_def hashtable_types_def)
  from emits_dct_reads [OF items keys(1)] obtain str ts where
    1: "keeps (wr ''<DCT>'' ?s2) s1" "buf s1 = buf ?s2 @ ''<DCT>'' @ str" "lexes str ts"
      "counts_ok (wr ''<DCT>'' ?s2) s1 \<Longrightarrow> reads_dict E ts items (tnRefs ?s2) (tnRefs s1)" by auto
  show ?thesis
  proof (rule emits_typed [OF name tns k refl, where ?ts3.0 = "XStart ''DCT'' [] # ts @ [XEnd ''DCT'']"])
    show "buf (wr ''</DCT></Obj>'' s1) = buf ?s2 @ (open_tag ''DCT'' [] @ str @ close_tag ''DCT'') @
        close_tag ''Obj''"
      using 1(2) by (simp add: open_tag_def close_tag_def attr_N_def)
    show "lexes (open_tag ''DCT'' [] @ str @ close_tag ''DCT'') (XStart ''DCT'' [] # ts @ [XEnd ''DCT''])"
      by (rule lexes_wrap0 [OF tags(17) 1(3)])
    show "keeps ?s2 (wr ''</DCT></Obj>'' s1)" using 1(1) by (simp add: keeps_def)
    show "obj_final E (XStart ''DCT'' [] # ts @ [XEnd ''DCT''])
        (foldr (\<lambda>(k, v). max (height v)) items 0)
        (hashtable_types, [], []) (VMap items) (tnRefs ?s2) (tnRefs (wr ''</DCT></Obj>'' s1))"
      if "counts_ok ?s2 (wr ''</DCT></Obj>'' s1)"
    proof -
      have "counts_ok (wr ''<DCT>'' ?s2) s1" using that by (simp add: counts_ok_def)
      then show ?thesis using 1(4) keys(2) ht by (auto intro!: final_map height_pairs)
    qed
  qed simp_all
qed

text \<open>The fields that are written of an object, in the order of the document.\<close>

definition fields_of :: "(string \<times> goval) list \<Rightarrow> string list \<Rightarrow> (string \<times> goval) list" where
  "fields_of m ks = map (\<lambda>k. (k, lookup_or_nil m k)) ks"

definition obj_fields :: "goval psobject \<Rightarrow> (string \<times> goval) list" where
  "obj_fields ob =
     (if Members ob \<noteq> [] then fields_of (Members ob) (member_keys ob)
      else fields_of (Properties ob) (map_keys (Properties ob)))"

definition good_object :: "goval psobject \<Rightarrow> bool" where
  "good_object ob \<longleftrightarrow>
     (TypeNames ob = [] \<or> good_types (TypeNames ob) \<and> list_all clean (TypeNames ob)) \<and>
     good_string (ObjToString ob) \<and> (Properties ob = [] \<or> Members ob = []) \<and>
     distinct (map fst (obj_fields ob)) \<and>
     list_all (\<lambda>(k, v). k \<noteq> [] \<and> clean_value k) (obj_fields ob)"

definition obj_named :: "goval psobject \<Rightarrow> string \<Rightarrow> serializer \<Rightarrow> serializer" where
  "obj_named ob name s =
     (if TypeNames ob \<noteq> [] then
        write_typenames (join ''|'' (TypeNames ob)) (tn_body xml_EscapeText (TypeNames ob)) (open_obj name s)
      else open_obj name s)"

lemma obj_named_reads:
  assumes "good_object ob"
  shows "\<exists>str ts n. keeps s (obj_named ob name s) \<and>
    refCounter (obj_named ob name s) = refCounter s + 1 \<and>
    buf (obj_named ob name s) = buf (open_obj name s) @ str \<and> lexes str ts \<and>
    (int (fmsize (tnRefs s)) \<le> MaxInt \<longrightarrow>
       obj_steps E n ts H ([], [], []) (TypeNames ob, [], []) (tnRefs s) (tnRefs (obj_named ob name s)))"
proof (cases "TypeNames ob = []")
  case True
  have "keeps s (open_obj name s)" by (simp add: keeps_def)
  then show ?thesis using True obj_steps_refl
    by (intro exI [of _ "[]"] exI [of _ 0]) (simp add: obj_named_def)
next
  case False
  then have t: "\<And>t. t \<in> set (TypeNames ob) \<Longrightarrow> reads (xml_EscapeText t) t \<and> x_valid t"
    and k: "key_names (join ''|'' (TypeNames ob)) = TypeNames ob"
    using assms
    by (auto simp: good_object_def list_all_iff reads_escaped_clean x_valid_clean key_names_join)
  show ?thesis
    using False typed_head [OF t k, where name = name and s = s and E = E and H = H] typenames_keeps
    by (fastforce simp: obj_named_def)
qed

lemma obj_head_eq:
  "obj_head None ob name s =
    (if ObjToString ob \<noteq> [] then
       wr (''<ToString>'' @ xml_EscapeText (encodeCLIXMLString (ObjToString ob)) @ ''</ToString>'')
         (obj_named ob name s)
     else obj_named ob name s)"
  by (simp add: obj_head_def addObjRef_def obj_named_def Let_def)

lemma obj_head_part:
  assumes "good_object ob"
  shows "part E H (tns, m, []) (tns, m, ObjToString ob) (obj_named ob name s) (obj_head None ob name s)"
  using assms part_ToString [of "ObjToString ob"]
  by (cases "ObjToString ob = []") (simp_all add: obj_head_eq part_refl good_object_def)

lemma emits_fields:
  assumes name: "name_ok name" and ob: "good_object ob"
    and mid: "part E (foldr (\<lambda>(k, v). max (height v)) items 0) (TypeNames ob, [], ObjToString ob)
      (TypeNames ob, items, ObjToString ob) (obj_head None ob name s) s3"
  shows "emits E (VObject (PSObject (TypeNames ob) items [] [] (ObjToString ob) VNil)) name s
    (wr ''</Obj>'' s3)"
proof -
  let ?H = "foldr (\<lambda>(k, v). max (height v)) items 0"
  obtain str ts n where 1: "keeps s (obj_named ob name s)"
    "refCounter (obj_named ob name s) = refCounter s + 1"
    "buf (obj_named ob name s) = buf (open_obj name s) @ str" "lexes str ts"
    "int (fmsize (tnRefs s)) \<le> MaxInt \<Longrightarrow>
       obj_steps E n ts ?H ([], [], []) (TypeNames ob, [], []) (tnRefs s) (tnRefs (obj_named ob name s))"
    using obj_named_reads [OF ob] by blast
  show ?thesis
  proof (rule emits_object [OF name 1 part_trans [OF obj_head_part [OF ob] mid], where ?str3.0 = "[]" and ?ts3.0 = "[]"])
    show "obj_final E [] ?H (TypeNames ob, items, ObjToString ob)
        (VObject (PSObject (TypeNames ob) items [] [] (ObjToString ob) VNil)) (tnRefs s3)
        (tnRefs (wr ''</Obj>'' s3))"
      using final_object by simp
    show "Suc ?H \<le> height (VObject (PSObject (TypeNames ob) items [] [] (ObjToString ob) VNil))"
      by (simp only: height.simps)
  qed (simp_all add: close_tag_def)
qed

section \<open>The values that come back\<close>

inductive comes_back :: "codec_env \<Rightarrow> goval \<Rightarrow> goval \<Rightarrow> bool" for E where
  back_nil: "comes_back E VNil VNil"
| back_string: "good_string t \<Longrightarrow> comes_back E (VString t) (VString t)"
| back_script: "good_string t \<Longrightarrow> comes_back E (VScript t) (VScript t)"
| back_int: "comes_back E (VInt i) (VInt32 (safeInt32 i))"
| back_int32: "in_signed 32 i \<Longrightarrow> comes_back E (VInt32 i) (VInt32 i)"
| back_int64: "in_signed 64 i \<Longrightarrow> comes_back E (VInt64 i) (VInt64 i)"
| back_bool: "comes_back E (VBool b) (VBool b)"
| back_float: "parse_float E (format_float E x) = Some x \<Longrightarrow> raw_text (format_float E x) \<Longrightarrow>
    comes_back E (VFloat x) (VFloat x)"
| back_bytes: "comes_back E (VBytes bs) (VBytes bs)"
| back_time: "parse_time E (format_time E t) = Some t \<Longrightarrow> raw_text (format_time E t) \<Longrightarrow>
    comes_back E (VTime t) (VTime t)"
| back_uuid: "uuid_Parse E (uuid_String E u) = Some u \<Longrightarrow> raw_text (uuid_String E u) \<Longrightarrow>
    comes_back E (VUUID u) (VUUID u)"
| back_version: "comes_back E (VVersion a b c d) (VString (Version_String a b c d))"
| back_secure: "comes_back E (VSecure bs) (VSecure bs)"
| back_enum: "in_signed 32 val \<Longrightarrow> raw_text ty \<Longrightarrow> CHR ''|'' \<notin> set ty \<Longrightarrow> good_string str \<Longrightarrow>
    comes_back E (VEnum ty val str) (enum_value ty val str)"
| back_slice: "list_all2 (comes_back E) xs ws \<Longrightarrow> comes_back E (VSlice xs) (VSlice ws)"
| back_typed: "good_types tns \<Longrightarrow> list_all raw_text tns \<Longrightarrow> list_all2 (comes_back E) xs ws \<Longrightarrow>
    comes_back E (VTyped tns xs) (VSlice ws)"
| back_map: "list_all2 (rel_prod (=) (comes_back E)) (fields_of m (map_keys m)) items \<Longrightarrow>
    list_all plain_key (map fst m) \<Longrightarrow> comes_back E (VMap m) (VMap items)"
| back_object: "good_object ob \<Longrightarrow>
    list_all2 (rel_prod (=) (comes_back E)) (obj_fields ob) items \<Longrightarrow>
    comes_back E (VObject ob)
      (VObject (PSObject (TypeNames ob) items [] [] (ObjToString ob) VNil))"
| back_error: "comes_back E (VObject (ErrorRecordToPSObject e)) w \<Longrightarrow> comes_back E (VError e) w"
| back_progress: "comes_back E (VObject (ProgressRecordToPSObject r)) w \<Longrightarrow>
    comes_back E (VProgress r) w"
| back_powershell: "comes_back E (VObject (PowerShellToPSObject p)) w \<Longrightarrow>
    comes_back E (VPowerShell p) w"
| back_command: "comes_back E (VObject (CommandToPSObject c)) w \<Longrightarrow> comes_back E (VCommand c) w"
| back_param: "comes_back E (VObject (CommandParameterToPSObject n v)) w \<Longrightarrow>
    comes_back E (VParam n v) w"
  monos list_all2_mono

text \<open>The serializer writes the value, and what it writes is read as \<open>w\<close>.\<close>

definition writes :: "codec_env \<Rightarrow> heap \<Rightarrow> goval \<Rightarrow> goval \<Rightarrow> bool" where
  "writes E h v w \<longleftrightarrow>
     (\<forall>name s. name_ok name \<longrightarrow> encryptor s = None \<longrightarrow>
        (\<exists>s'. ser_value E h v name s = ok s' \<and> emits E w name s s'))"

lemma writesD:
  "writes E h v w \<Longrightarrow> name_ok name \<Longrightarrow> encryptor s = None \<Longrightarrow>
    \<exists>s'. ser_value E h v name s = ok s' \<and> emits E w name s s'"
  by (simp add: writes_def)

lemma writesI:
  "(\<And>name s. name_ok name \<Longrightarrow> encryptor s = None \<Longrightarrow>
    \<exists>s'. ser_value E h v name s = ok s' \<and> emits E w name s s') \<Longrightarrow> writes E h v w"
  by (simp add: writes_def)

lemma emits_encryptor: "emits E w name s s' \<Longrightarrow> encryptor s' = encryptor s"
  by (simp add: emits_def keeps_def)

lemma encryptor_typenames [simp]: "encryptor (write_typenames k body s) = encryptor s"
  by (simp add: write_typenames_def Let_def split: option.splits)

lemma name_ok_Nil [simp]: "name_ok []"
  by (simp add: name_ok_def)

lemma ser_list_writes:
  "list_all2 (writes E h) xs ws \<Longrightarrow> encryptor s = None \<Longrightarrow>
    \<exists>s'. ser_list E h msg xs s = ok s' \<and> emits_seq E (map (Pair []) ws) s s'"
proof (induction xs ws arbitrary: s rule: list_all2_induct)
  case (Cons x xs w ws)
  from writesD [OF Cons.hyps(1) name_ok_Nil Cons.prems] obtain s1 where
    1: "ser_value E h x [] s = ok s1" "emits E w [] s s1" by blast
  from 1(2) have "encryptor s1 = None" using emits_encryptor Cons.prems by metis
  from Cons.IH [OF this] obtain s' where
    "ser_list E h msg xs s1 = ok s'" "emits_seq E (map (Pair []) ws) s1 s'" by blast
  with 1 show ?case by (intro exI [of _ s']) auto
qed simp

lemma ser_keys_writes:
  "list_all2 (rel_prod (=) (writes E h)) (fields_of m ks) items \<Longrightarrow> list_all name_ok ks \<Longrightarrow>
    encryptor s = None \<Longrightarrow> \<exists>s'. ser_keys E h msg m ks s = ok s' \<and> emits_seq E items s s'"
proof (induction ks arbitrary: items s)
  case (Cons k ks)
  from Cons.prems(1) obtain w rest where i: "items = (k, w) # rest"
    "writes E h (lookup_or_nil m k) w" "list_all2 (rel_prod (=) (writes E h)) (fields_of m ks) rest"
    by (auto simp: fields_of_def list_all2_Cons1 rel_prod_conv)
  from writesD [OF i(2) _ Cons.prems(3)] Cons.prems(2) obtain s1 where
    1: "ser_value E h (lookup_or_nil m k) k s = ok s1" "emits E w k s s1" by auto
  from 1(2) have "encryptor s1 = None" using emits_encryptor Cons.prems(3) by metis
  from Cons.IH [OF i(3) _ this] Cons.prems(2) obtain s' where
    "ser_keys E h msg m ks s1 = ok s'" "emits_seq E rest s1 s'" by auto
  with 1 i(1) show ?case by (intro exI [of _ s']) auto
qed (simp add: fields_of_def)

lemma ser_dct_writes:
  "list_all2 (rel_prod (=) (writes E h)) (fields_of m ks) items \<Longrightarrow>
    encryptor s = None \<Longrightarrow> \<exists>s'. ser_dct E h m ks s = ok s' \<and> emits_dct E items s s'"
proof (induction ks arbitrary: items s)
  case (Cons k ks)
  let ?s = "wr (entry_open k) s"
  from Cons.prems(1) obtain w rest where i: "items = (k, w) # rest"
    "writes E h (lookup_or_nil m k) w" "list_all2 (rel_prod (=) (writes E h)) (fields_of m ks) rest"
    by (auto simp: fields_of_def list_all2_Cons1 rel_prod_conv)
  have n: "name_ok ''Value''" by (rule name_ok_ascii) (simp add: of_char_def)
  from writesD [OF i(2) n, of ?s] Cons.prems(2) obtain s1 where
    1: "ser_value E h (lookup_or_nil m k) ''Value'' ?s = ok s1" "emits E w ''Value'' ?s s1" by auto
  from 1(2) have "encryptor (wr ''</En>'' s1) = None" using emits_encryptor Cons.prems(2) by fastforce
  from Cons.IH [OF i(3) this] obtain s' where
    "ser_dct E h m ks (wr ''</En>'' s1) = ok s'" "emits_dct E rest (wr ''</En>'' s1) s'" by blast
  with 1 i(1) show ?case by (intro exI [of _ s']) (auto simp: entry_open_def)
qed (simp add: fields_of_def)

lemma fst_fields [simp]: "map fst (fields_of m ks) = ks"
  by (induction ks) (simp_all add: fields_of_def)

lemma fst_related: "list_all2 (rel_prod (=) R) ps qs \<Longrightarrow> map fst qs = map fst ps"
  by (induction ps qs rule: list_all2_induct) auto

lemma set_map_keys [simp]: "set (map_keys m) = fst ` set m"
  by (simp add: map_keys_def)

lemma distinct_map_keys [simp]: "distinct (map_keys m)"
  by (simp add: map_keys_def)

lemma encryptor_head [simp]: "encryptor (obj_head None ob name s) = encryptor s"
  by (simp add: obj_head_eq obj_named_def open_obj_def)

text \<open>The members or the properties of an object, between their tags.\<close>

lemma fields_part:
  assumes ob: "good_object ob" and items: "list_all2 (rel_prod (=) (writes E h)) (obj_fields ob) items"
    and m: "obj_fields ob = fields_of m ks" and z: "z = ''Props'' \<or> z = ''MS''"
    and enc: "encryptor s = None"
  shows "\<exists>s'. ser_keys E h msg m ks (wr (open_tag z []) s) = ok s' \<and>
    part E (foldr (\<lambda>(k, v). max (height v)) items 0) (tns, [], t) (tns, items, t) s
      (wr (close_tag z) s')"
proof -
  have f: "map fst items = ks" using fst_related [OF items] m by simp
  have ks: "distinct ks" "list_all (\<lambda>k. k \<noteq> [] \<and> clean_value k) ks"
    using ob unfolding good_object_def m fst_fields by (simp_all add: fields_of_def list_all_iff)
  then have n: "list_all name_ok ks" by (auto simp: list_all_iff name_ok_def)
  obtain s' where s': "ser_keys E h msg m ks (wr (open_tag z []) s) = ok s'"
    "emits_seq E items (wr (open_tag z []) s) s'"
    using ser_keys_writes [OF items [unfolded m] n, of "wr (open_tag z []) s" msg] enc by auto
  have "set ks = fst ` set items" using f by force
  then have "[] \<notin> fst ` set items" using ks(2) by (auto simp: list_all_iff)
  from part_props [OF s'(2) this z _, of _ tns "[]" t] f ks(1) height_pairs s'(1)
  show ?thesis by blast
qed

lemma writes_object:
  assumes ob: "good_object ob"
    and items: "list_all2 (rel_prod (=) (writes E h)) (obj_fields ob) items"
  shows "writes E h (VObject ob)
    (VObject (PSObject (TypeNames ob) items [] [] (ObjToString ob) VNil))"
proof (rule writesI)
  fix name :: string and s :: serializer
  assume name: "name_ok name" and enc: "encryptor s = None"
  let ?s = "obj_head None ob name s" and ?H = "foldr (\<lambda>(k, v). max (height v)) items 0"
  have enc2: "encryptor ?s = None" using enc by simp
  note fields = fields_part [OF ob items _ _ enc2, where tns = "TypeNames ob" and t = "ObjToString ob"]
  have "\<exists>s3. ser_obj E h None ob name s = ok (wr ''</Obj>'' s3) \<and>
      part E ?H (TypeNames ob, [], ObjToString ob) (TypeNames ob, items, ObjToString ob) ?s s3"
  proof (cases "Members ob = []")
    case False
    then have m: "obj_fields ob = fields_of (Members ob) (member_keys ob)" "Properties ob = []"
      using ob by (auto simp: obj_fields_def good_object_def)
    from fields [OF m(1), where z = "''MS''" and msg = "''serialize member''"] obtain s' where
      "ser_keys E h ''serialize member'' (Members ob) (member_keys ob) (wr ''<MS>'' ?s) = ok s'"
      "part E ?H (TypeNames ob, [], ObjToString ob) (TypeNames ob, items, ObjToString ob) ?s
        (wr ''</MS>'' s')" by (auto simp: open_tag_def close_tag_def attr_N_def)
    then show ?thesis using False m(2)
      by (intro exI [of _ "wr ''</MS>'' s'"]) (simp add: ser_obj.simps)
  next
    case True
    then have m: "obj_fields ob = fields_of (Properties ob) (map_keys (Properties ob))"
      by (simp add: obj_fields_def)
    show ?thesis
    proof (cases "Properties ob = []")
      case False
      from fields [OF m, where z = "''Props''" and msg = "''serialize property''"] obtain s' where
        "ser_keys E h ''serialize property'' (Properties ob) (map_keys (Properties ob))
          (wr ''<Props>'' ?s) = ok s'"
        "part E ?H (TypeNames ob, [], ObjToString ob) (TypeNames ob, items, ObjToString ob) ?s
          (wr ''</Props>'' s')" by (auto simp: open_tag_def close_tag_def attr_N_def)
      then show ?thesis using False True
        by (intro exI [of _ "wr ''</Props>'' s'"]) (simp add: ser_obj.simps)
    next
      case nil: True
      then have "items = []" using items m by (simp add: fields_of_def map_keys_def)
      then show ?thesis using nil True by (auto simp: ser_obj.simps part_refl)
    qed
  qed
  then show "\<exists>s'. ser_value E h (VObject ob) name s = ok s' \<and>
      emits E (VObject (PSObject (TypeNames ob) items [] [] (ObjToString ob) VNil)) name s s'"
    using emits_fields [OF name ob] by auto
qed

lemma fields_of_rel:
  "list_all2 (rel_prod (=) (\<lambda>v w. R v w \<and> Q v w)) ps qs \<Longrightarrow> list_all2 (rel_prod (=) Q) ps qs"
  by (erule list_all2_mono) (auto simp: rel_prod_conv)

lemma writes_converted:
  "writes E h (VError e) w \<longleftrightarrow> writes E h (VObject (ErrorRecordToPSObject e)) w"
  "writes E h (VProgress r) w \<longleftrightarrow> writes E h (VObject (ProgressRecordToPSObject r)) w"
  "writes E h (VPowerShell p) w \<longleftrightarrow> writes E h (VObject (PowerShellToPSObject p)) w"
  "writes E h (VCommand c) w \<longleftrightarrow> writes E h (VObject (CommandToPSObject c)) w"
  "writes E h (VParam n v) w \<longleftrightarrow> writes E h (VObject (CommandParameterToPSObject n v)) w"
  by (simp_all add: writes_def)

theorem writes_back: "comes_back E v w \<Longrightarrow> writes E h v w"
proof (induction rule: comes_back.induct)
  case (back_int i)
  have "in_signed 32 (safeInt32 i)" by (simp add: in_signed_def safeInt32_def MaxInt32_def MinInt32_def)
  then show ?case by (auto intro!: writesI emits_Int32)
next
  case (back_secure bs)
  have "emits E (VSecure bs) name s (wr (b64_encode bs @ close_tag ''SS'') (wr (open_tag ''SS'' name) s))"
    if "name_ok name" for name s
    using emits_Secure [OF that, of E bs s] by (simp add: element_def wr_def)
  then show ?case by (auto intro!: writesI simp: serializeSecureStringFast_def Let_def)
next
  case (back_slice xs ws)
  then have r: "list_all2 (writes E h) xs ws" by (auto elim!: list_all2_mono)
  have k: "key_names (join ''|'' array_types) = array_types"
    by (rule key_names_join) (simp add: good_types_def array_types_def)
  have "raw_text ''System.Object[]''" "raw_text ''System.Array''" "raw_text ''System.Object''"
    by (rule raw_ascii, simp add: of_char_def)+
  then have t: "\<And>t. t \<in> set array_types \<Longrightarrow> reads (id t) t \<and> x_valid t"
    by (auto simp: array_types_def raw_text_def)
  show ?case
  proof (rule writesI)
    fix name and s :: serializer
    assume name: "name_ok name" and enc: "encryptor s = None"
    let ?s = "wr ''<LST>'' (write_typenames (join ''|'' array_types) (tn_body id array_types) (open_obj name s))"
    from ser_list_writes [OF r, of ?s "''serialize array element''"] enc obtain s' where
      "ser_list E h ''serialize array element'' xs ?s = ok s'" "emits_seq E (map (Pair []) ws) ?s s'"
      by auto
    then show "\<exists>s'. ser_value E h (VSlice xs) name s = ok s' \<and> emits E (VSlice ws) name s s'"
      using emits_list [OF name t k] by (fastforce simp: comp_def)
  qed
next
  case (back_typed tns xs ws)
  then have r: "list_all2 (writes E h) xs ws" by (auto elim!: list_all2_mono)
  have k: "key_names (join ''|'' tns) = tns" and ne: "tns \<noteq> []"
    using back_typed by (simp_all add: key_names_join good_types_def)
  have t: "\<And>t. t \<in> set tns \<Longrightarrow> reads (id t) t \<and> x_valid t"
    using back_typed by (auto simp: raw_text_def list_all_iff)
  show ?case
  proof (rule writesI)
    fix name and s :: serializer
    assume name: "name_ok name" and enc: "encryptor s = None"
    let ?s = "wr ''<LST>'' (write_typenames (join ''|'' tns) (tn_body id tns) (open_obj name s))"
    from ser_list_writes [OF r, of ?s "''serialize typed list element''"] enc obtain s' where
      "ser_list E h ''serialize typed list element'' xs ?s = ok s'" "emits_seq E (map (Pair []) ws) ?s s'"
      by auto
    then show "\<exists>s'. ser_value E h (VTyped tns xs) name s = ok s' \<and> emits E (VSlice ws) name s s'"
      using emits_list [OF name t k] ne by (fastforce simp: comp_def)
  qed
next
  case (back_map m items)
  then have r: "list_all2 (rel_prod (=) (writes E h)) (fields_of m (map_keys m)) items"
    by (auto dest: fields_of_rel)
  have f: "map fst items = map_keys m" using fst_related [OF r] by simp
  have "fst ` set items = fst ` set m" using arg_cong [OF f, of set] by simp
  then have keys: "\<And>k. k \<in> fst ` set items \<Longrightarrow> plain_key k" "distinct (map fst items)"
    using back_map f by (auto simp: list_all_iff)
  show ?case
  proof (rule writesI)
    fix name and s :: serializer
    assume name: "name_ok name" and enc: "encryptor s = None"
    let ?s = "wr ''<DCT>'' (write_typenames typeNameHashtable (tn_body id hashtable_types) (open_obj name s))"
    from ser_dct_writes [OF r, of ?s] enc obtain s' where
      "ser_dct E h m (map_keys m) ?s = ok s'" "emits_dct E items ?s s'" by auto
    then show "\<exists>s'. ser_value E h (VMap m) name s = ok s' \<and> emits E (VMap items) name s s'"
      using emits_map [OF name _ keys] by fastforce
  qed
next
  case (back_object ob items)
  then show ?case by (auto intro: writes_object dest: fields_of_rel)
qed (auto intro!: writesI emits_Nil emits_String emits_Script emits_Int32 emits_Int64 emits_Bool
  emits_Float emits_Bytes emits_Time emits_UUID emits_Version emits_Enum
  simp: writes_converted)

end
