(* ===== verification/Clixml_Theorems.thy ===== *)
theory Clixml_Theorems
  imports Clixml_Values "HOL-Library.Code_Target_Numeral"
begin

text \<open>
  The properties of the CLIXML codec: round trip of documents, termination and depth limit of
  the deserializer, sharing in the serializer, and some places where the two sides disagree.
\<close>

section \<open>Documents\<close>

lemma x_tokens_end: "x_tokens [] [] = ([], EIs IoEOF)"
  by (simp add: x_tokens.simps)

lemma lexes_document: "lexes str ts \<Longrightarrow> xml_tokens str = (ts, EIs IoEOF)"
  unfolding xml_tokens_def lexes_def using x_tokens_end
  by (metis append.right_neutral lex_cons_def append_Nil2 fst_conv snd_conv)

lemma strip_bom_tag: "take 1 str = ''<'' \<Longrightarrow> strip_bom (bytes_of_string str) = bytes_of_string str"
  by (cases str) (auto simp: strip_bom_def bytes_of_string_def byte_of_char_def)

lemma tn_rel_empty: "tn_rel fmempty X"
  by (simp add: tn_rel_def)

lemma new_at: "NewDeserializer\<lparr>dtoks := ts, derr := e\<rparr> =
    at (NewDeserializer\<lparr>derr := e\<rparr>) ts fmempty fmempty"
  by (simp add: at_def NewDeserializer_def NewDeserializerWithEncryption_def
      NewDeserializerWithMaxDepthAndEncryption_def)

lemma new_simps [simp]:
  "decryptor NewDeserializer = None" "ddepth NewDeserializer = 0" "maxDepth NewDeserializer = 100"
  by (simp_all add: NewDeserializer_def NewDeserializerWithEncryption_def
      NewDeserializerWithMaxDepthAndEncryption_def DefaultMaxRecursionDepth_def)

lemma skip_left_objs:
  "set left \<subseteq> {XEnd ''Obj''} \<Longrightarrow>
    des_objs (length left + f) el (at d (left @ us) X Y) = des_objs f el (at d us X Y)"
  by (induction left) (auto simp: des_objs.simps(2))

text \<open>
  The round trip, for a fragment without and for a document with the \<open>Objs\<close> element around it.
  An output that fits into memory is shorter than \<open>MaxInt\<close>.
\<close>

lemma written_document:
  assumes "writes E h v w"
  shows "\<exists>s' str n as ts. ser_value E h v [] (wr pre NewSerializer) = ok s' \<and> buf s' = pre @ str \<and>
    take 1 str = ''<'' \<and> n \<noteq> ''Objs'' \<and> lexes str (XStart n as # ts) \<and>
    (int (length (buf s')) \<le> MaxInt \<longrightarrow> reads_elem E n as ts w fmempty (tnRefs s'))"
proof -
  let ?s = "wr pre NewSerializer"
  have new: "buf ?s = pre" "refCounter ?s = 0" "tnRefs ?s = fmempty" "encryptor ?s = None"
    by (simp_all add: NewSerializer_def NewSerializerWithEncryption_def)
  obtain s' where 1: "ser_value E h v [] ?s = ok s'" "emits E w [] ?s s'"
    using writesD [OF assms name_ok_Nil, of ?s] new by blast
  then have c: "counts_ok ?s s'" if "int (length (buf s')) \<le> MaxInt"
    using that new by (auto simp: emits_def keeps_def counts_ok_def)
  from 1(2) obtain str n as ts where 2: "buf s' = buf ?s @ str" "take 1 str = ''<''"
    "n \<noteq> ''Objs''" "lexes str (XStart n as # ts)" "counts_ok ?s s' \<Longrightarrow> reads_elem E n as ts w (tnRefs ?s) (tnRefs s')"
    by (auto simp: emits_def)
  show ?thesis
    using 1(1) 2 c new
    by (intro exI [of _ s'] exI [of _ str] exI [of _ n] exI [of _ as] exI [of _ ts]) simp
qed

lemma reads_document:
  assumes "reads_elem E n as ts w fmempty R" and "height w \<le> 100" and "length ts + 2 \<le> f"
  shows "\<exists>X Y left. des_elem f E n as ((NewDeserializer\<lparr>derr := e\<rparr>)\<lparr>dtoks := ts @ us\<rparr>) =
      Some (at (NewDeserializer\<lparr>derr := e\<rparr>) (left @ us) X Y, Ret w) \<and>
    set left \<subseteq> {XEnd ''Obj''} \<and> length left \<le> length ts"
proof -
  have "(NewDeserializer\<lparr>derr := e\<rparr>)\<lparr>dtoks := ts @ us\<rparr> =
      at (NewDeserializer\<lparr>derr := e\<rparr>) (ts @ us) fmempty fmempty"
    by (simp add: new_at [symmetric])
  moreover have "decryptor (NewDeserializer\<lparr>derr := e\<rparr>) = None"
    "ddepth (NewDeserializer\<lparr>derr := e\<rparr>) + int (height w) \<le> maxDepth (NewDeserializer\<lparr>derr := e\<rparr>)"
    using assms(2) by simp_all
  ultimately show ?thesis
    using assms(1) [unfolded reads_elem_def, rule_format, of f _ fmempty us fmempty]
      assms(3) tn_rel_empty by (metis (no_types, lifting))
qed

lemma xml_tag: "simple_name ''Version''" "simple_name ''xmlns''"
  by code_simp+

lemma lexes_objs:
  assumes "lexes str ts"
  shows "lexes (objs_open @ str @ ''</Objs>'')
    (XStart ''Objs'' [(''Version'', CLIXMLVersion), (''xmlns'', CLIXMLNamespace)] # ts @ [XEnd ''Objs''])"
proof -
  have "name_ok CLIXMLVersion" "name_ok CLIXMLNamespace"
    by (rule name_ok_ascii, simp add: CLIXMLVersion_def CLIXMLNamespace_def of_char_def)+
  then have "clean_attrs [(''Version'', CLIXMLVersion), (''xmlns'', CLIXMLNamespace)]"
    using xml_tag by (simp add: clean_attrs_def name_ok_def CLIXMLVersion_def CLIXMLNamespace_def)
  from lexes_wrap [OF tags(22) this assms] show ?thesis
    by (simp add: objs_open_def attr_text_def close_tag_def)
qed

lemma derr_dtoks: "d\<lparr>dtoks := ts, derr := e\<rparr> = d\<lparr>derr := e, dtoks := ts\<rparr>"
  by simp

lemma found_root: "find_root (XStart n as # ts) = Some (n, as, ts)"
  by simp

lemma raw_document:
  assumes "writes E h v w" and "height w \<le> 100"
  shows "\<exists>bs. marshal E h v = Ret bs \<and> (int (length bs) \<le> MaxInt \<longrightarrow> unmarshal E bs = Ret [w])"
proof -
  obtain s' str n as ts where 1: "ser_value E h v [] (wr [] NewSerializer) = ok s'" "buf s' = str"
    "take 1 str = ''<''" "n \<noteq> ''Objs''" "lexes str (XStart n as # ts)"
    "int (length str) \<le> MaxInt \<Longrightarrow> reads_elem E n as ts w fmempty (tnRefs s')"
    using written_document [OF assms(1), of "[]"] by auto
  have "NewSerializer\<lparr>buf := []\<rparr> = wr [] NewSerializer"
    by (simp add: wr_def NewSerializer_def NewSerializerWithEncryption_def)
  then have m: "marshal E h v = Ret (bytes_of_string str)"
    using 1(1,2) by (simp add: marshal_def SerializeRaw_def returning_buf_def ok_def)
  have "unmarshal E (bytes_of_string str) = Ret [w]" if "int (length str) \<le> MaxInt"
  proof -
    let ?f = "fuel_for (XStart n as # ts)" and ?d = "NewDeserializer\<lparr>dtoks := ts, derr := EIs IoEOF\<rparr>"
    have r: "reads_elem E n as ts w fmempty (tnRefs s')" using 1(6) that by simp
    obtain X Y left where "des_elem ?f E n as ?d =
        Some (at (NewDeserializer\<lparr>derr := EIs IoEOF\<rparr>) left X Y, Ret w)"
      using reads_document [OF r assms(2), where f = ?f and e = "EIs IoEOF" and us = "[]"]
      by (auto simp: fuel_for_def derr_dtoks)
    then have "Deserialize_run ?f E (XStart n as # ts, EIs IoEOF) NewDeserializer =
        Some (at (NewDeserializer\<lparr>derr := EIs IoEOF\<rparr>) left X Y, Ret [w])"
      using 1(4) by (simp add: Deserialize_run_def Let_def)
    then show ?thesis
      using lexes_document [OF 1(5)] strip_bom_tag [OF 1(3)]
      by (simp add: unmarshal_def Deserialize_def Let_def)
  qed
  then show ?thesis using m by (simp add: bytes_of_string_def)
qed

lemma wrapped_document:
  assumes "writes E h v w" and "height w \<le> 100"
  shows "\<exists>bs. snd (Serialize E h v NewSerializer) = Ret bs \<and>
    (int (length bs) \<le> MaxInt \<longrightarrow> unmarshal E bs = Ret [w])"
proof -
  obtain s' str n as ts where 1: "ser_value E h v [] (wr objs_open NewSerializer) = ok s'"
    "buf s' = objs_open @ str" "take 1 str = ''<''" "n \<noteq> ''Objs''" "lexes str (XStart n as # ts)"
    "int (length (objs_open @ str)) \<le> MaxInt \<Longrightarrow> reads_elem E n as ts w fmempty (tnRefs s')"
    using written_document [OF assms(1), of objs_open] by auto
  let ?doc = "objs_open @ str @ ''</Objs>''"
  let ?toks = "XStart ''Objs'' [(''Version'', CLIXMLVersion), (''xmlns'', CLIXMLNamespace)] #
    (XStart n as # ts) @ [XEnd ''Objs'']"
  have "NewSerializer\<lparr>buf := []\<rparr> = NewSerializer"
    by (simp add: NewSerializer_def NewSerializerWithEncryption_def)
  then have m: "snd (Serialize E h v NewSerializer) = Ret (bytes_of_string ?doc)"
    using 1(1,2) by (simp add: Serialize_def returning_buf_def ok_def)
  have "unmarshal E (bytes_of_string ?doc) = Ret [w]" if "int (length ?doc) \<le> MaxInt"
  proof -
    let ?d = "NewDeserializer\<lparr>derr := EIs IoEOF\<rparr>"
    define f where "f = length ts + 4"
    have f: "fuel_for ?toks = Suc f" by (simp add: fuel_for_def f_def)
    have "int (length (objs_open @ str)) \<le> MaxInt" using that by simp
    then have re: "reads_elem E n as ts w fmempty (tnRefs s')" using 1(6) by simp
    from reads_document [OF re assms(2), where f = "Suc f" and e = "EIs IoEOF" and us = "[XEnd ''Objs'']"]
    obtain X Y left where r: "des_elem (Suc f) E n as (?d\<lparr>dtoks := ts @ [XEnd ''Objs'']\<rparr>) =
        Some (at ?d (left @ [XEnd ''Objs'']) X Y, Ret w)"
      "set left \<subseteq> {XEnd ''Obj''}" "length left \<le> length ts"
      by (auto simp: f_def)
    obtain f2 where f2: "f = length left + Suc f2"
      using r(3) by (intro that [of "f - length left - 1"]) (simp add: f_def)
    have "des_objs f (des_elem (Suc f) E) (at ?d (left @ [XEnd ''Objs'']) X Y) =
        Some (at ?d [] X Y, Ret [])"
      by (simp only: f2 skip_left_objs [OF r(2)]) (simp add: des_objs.simps(2))
    with r(1) have "des_objs (Suc f) (des_elem (Suc f) E)
        (?d\<lparr>dtoks := (XStart n as # ts) @ [XEnd ''Objs'']\<rparr>) = Some (at ?d [] X Y, Ret [w])"
      by (simp add: des_objs.simps(2) next_token_def)
    then have "Deserialize_run (fuel_for ?toks) E (?toks, EIs IoEOF) NewDeserializer =
        Some (at ?d [] X Y, Ret [w])"
      unfolding f by (simp add: Deserialize_run_def Let_def derr_dtoks)
    moreover have "strip_bom (bytes_of_string ?doc) = bytes_of_string ?doc"
      by (rule strip_bom_tag) (simp add: objs_open_def)
    ultimately show ?thesis
      using lexes_document [OF lexes_objs [OF 1(5)]]
      by (simp add: unmarshal_def Deserialize_def Let_def)
  qed
  then show ?thesis using m by (simp add: bytes_of_string_def)
qed

lemma document_roundtrip:
  assumes "comes_back E v w" and "height w \<le> 100"
  shows "(\<exists>bs. marshal E h v = Ret bs \<and> (MaxInt < int (length bs) \<or> unmarshal E bs = Ret [w])) \<and>
    (\<exists>bs. snd (Serialize E h v NewSerializer) = Ret bs \<and>
      (MaxInt < int (length bs) \<or> unmarshal E bs = Ret [w]))"
  using raw_document [OF writes_back [OF assms(1)] assms(2), of h]
    wrapped_document [OF writes_back [OF assms(1)] assms(2), of h]
  by (auto simp: not_less)

text \<open>
  C4. Every value that \<open>comes_back\<close> describes (strings, numbers, lists, hashtables, enumerations,
  objects, errors, progress records and whole PowerShell pipelines, nested at most 100 deep) is
  serialized without an error, raw or inside \<open>Objs\<close>, and the deserializer reads the result as
  that one value, unless the document is longer than any Go slice can be.
\<close>

theorem clixml_roundtrip:
  assumes "comes_back E v w" and "height w \<le> 100"
  shows "(\<exists>bs. marshal E h v = Ret bs \<and> (MaxInt < int (length bs) \<or> unmarshal E bs = Ret [w])) \<and>
    (\<exists>bs. snd (Serialize E h v NewSerializer) = Ret bs \<and>
      (MaxInt < int (length bs) \<or> unmarshal E bs = Ret [w]))"
  by (rule document_roundtrip [OF assms])

section \<open>Termination and depth\<close>

text \<open>
  C22. The deserializer returns on every input: whatever the tokens are and whatever state it is
  in, its loops and its recursion end (the model's fuel is enough), with values or an error.
\<close>

theorem deserializer_returns: "\<exists>r. Deserialize_run (fuel_for (fst toks)) E toks d = Some r"
  by (rule Deserialize_run_ends)

lemma nested_list_fails:
  "ddepth d + int k = maxDepth d \<Longrightarrow> dtoks d = replicate m (XStart ''LST'' []) @ us \<Longrightarrow> k \<le> m \<Longrightarrow>
    k < f \<Longrightarrow>
    \<exists>d'. des_elem f E ''LST'' [] d = Some (d', Fail (EWrap ''depth'' (EIs ErrMaxRecursionDepth)))"
proof (induction k arbitrary: d m f)
  case 0
  then obtain g where "f = Suc g" by (cases f) auto
  with 0 show ?case by (simp add: des_elem.simps(2) elem_step_def)
next
  case (Suc k)
  then obtain g where g: "f = Suc (Suc g)" by (cases f; cases "f - 1") auto
  obtain n where m: "m = Suc n" using Suc.prems(3) by (cases m) auto
  let ?d = "(enter d)\<lparr>dtoks := replicate n (XStart ''LST'' []) @ us\<rparr>"
  obtain d' where "des_elem (Suc g) E ''LST'' [] ?d =
      Some (d', Fail (EWrap ''depth'' (EIs ErrMaxRecursionDepth)))"
    using Suc.IH [of ?d n "Suc g"] Suc.prems g m by auto
  moreover have "next_token (enter d) = (?d, Ret (XStart ''LST'' []))"
    using Suc.prems(2) m by (simp add: next_token_def enter_def)
  ultimately have "des_list (Suc g) (des_elem (Suc g) E) (enter d) =
      Some (d', Fail (EWrap ''depth'' (EIs ErrMaxRecursionDepth)))"
    by (simp add: des_list.simps(2))
  then show ?case
    using Suc.prems(1) g by (simp add: des_elem.simps(2) elem_step_def leave_def)
qed

lemma lex_nested:
  "\<exists>stk'. x_tokens stk (concat (replicate n ''<LST>'') @ rest) =
    lex_cons (replicate n (XStart ''LST'' [])) (x_tokens stk' rest)"
proof (induction n arbitrary: stk)
  case (Suc n)
  have "x_tokens stk (''<LST>'' @ concat (replicate n ''<LST>'') @ rest) =
      lex_cons [XStart ''LST'' []] (x_tokens (([], ''LST'') # stk) (concat (replicate n ''<LST>'') @ rest))"
    using lex_start [OF tags(16), of "[]" stk "concat (replicate n ''<LST>'') @ rest"]
    by (simp add: clean_attrs_def attr_text_def)
  moreover obtain stk' where
    "x_tokens (([], ''LST'') # stk) (concat (replicate n ''<LST>'') @ rest) =
      lex_cons (replicate n (XStart ''LST'' [])) (x_tokens stk' rest)"
    using Suc.IH [of "([], ''LST'') # stk"] by blast
  ultimately show ?case by auto
qed (auto simp: lex_cons_def)

text \<open>
  C32. A document that nests more than 100 lists is refused with \<open>ErrMaxRecursionDepth\<close>,
  whatever follows the start tags: nesting cannot exhaust the stack.
\<close>

theorem deep_document_refused:
  "unmarshal E (bytes_of_string (concat (replicate (101 + n) ''<LST>'') @ rest)) =
    Fail (EWrap ''depth'' (EIs ErrMaxRecursionDepth))"
proof -
  let ?str = "concat (replicate (101 + n) ''<LST>'') @ rest"
  obtain stk where x: "xml_tokens ?str = lex_cons (replicate (101 + n) (XStart ''LST'' [])) (x_tokens stk rest)"
    using lex_nested [of "[]" "101 + n" rest] by (auto simp: xml_tokens_def)
  define toks where "toks = xml_tokens ?str"
  define us where "us = fst (x_tokens stk rest)"
  have t: "fst toks = XStart ''LST'' [] # replicate (100 + n) (XStart ''LST'' []) @ us"
    unfolding toks_def x us_def by (simp add: lex_cons_def flip: replicate_Suc)
  let ?d = "NewDeserializer\<lparr>dtoks := replicate (100 + n) (XStart ''LST'' []) @ us, derr := snd toks\<rparr>"
  have "\<exists>d'. des_elem (fuel_for (fst toks)) E ''LST'' [] ?d =
      Some (d', Fail (EWrap ''depth'' (EIs ErrMaxRecursionDepth)))"
    by (rule nested_list_fails [where k = 100 and m = "100 + n" and us = us]) (simp_all add: t fuel_for_def)
  moreover have root: "find_root (fst toks) =
      Some (''LST'', [], replicate (100 + n) (XStart ''LST'' []) @ us)" by (simp add: t)
  ultimately obtain d' where "Deserialize_run (fuel_for (fst toks)) E toks NewDeserializer =
      Some (d', Fail (EWrap ''depth'' (EIs ErrMaxRecursionDepth)))"
    using root by (auto simp: Deserialize_run_def Let_def)
  moreover have "strip_bom (bytes_of_string ?str) = bytes_of_string ?str"
  proof (rule strip_bom_tag)
    have "replicate (101 + n) ''<LST>'' = ''<LST>'' # replicate (100 + n) ''<LST>''"
      by (simp flip: replicate_Suc)
    then show "take 1 ?str = ''<''" by (simp only:) simp
  qed
  ultimately show ?thesis
    by (simp add: unmarshal_def Deserialize_def Let_def toks_def [symmetric])
qed

section \<open>References\<close>

text \<open>
  The type names written by one call are not written by the next one on the same serializer:
  the second document refers to a definition that only the first one holds, and read on its own
  it has lost the type.
\<close>

theorem second_document_incomplete:
  "snd (SerializeRaw E fmempty (VObject (PSObject [''T''] [] [] [] [] VNil))
     (fst (SerializeRaw E fmempty (VObject (PSObject [''T''] [] [] [] [] VNil)) NewSerializer))) =
   Ret (bytes_of_string ''<Obj RefId=\"1\"><TNRef RefId=\"0\"/></Obj>'') \<and>
   unmarshal E (bytes_of_string ''<Obj RefId=\"1\"><TNRef RefId=\"0\"/></Obj>'') =
   Ret [VObject (PSObject [] [] [] [] [] VNil)]"
  by (rule conjI; code_simp)

section \<open>Where the two sides disagree\<close>

text \<open>
  An object with members and properties is read with its properties only: each of the two
  sections replaces what the other one gave.
\<close>

theorem members_overwritten:
  "marshal E fmempty (VObject (PSObject [] [(''p'', VInt32 1)] [(''m'', VInt32 2)] [] [] VNil)) =
   Ret (bytes_of_string (''<Obj RefId=\"0\"><MS><I32 N=\"m\">2</I32></MS>'' @
     ''<Props><I32 N=\"p\">1</I32></Props></Obj>'')) \<and>
   unmarshal E (bytes_of_string (''<Obj RefId=\"0\"><MS><I32 N=\"m\">2</I32></MS>'' @
     ''<Props><I32 N=\"p\">1</I32></Props></Obj>'')) =
   Ret [VObject (PSObject [] [(''p'', VInt32 1)] [] [] [] VNil)]"
  by (rule conjI; code_simp)

text \<open>
  A string with a character that XML excludes (here U+FFFE) is written as it is, and the
  deserializer refuses the document.
\<close>

theorem noncharacter_refused:
  "marshal E fmempty (VString (utf8 [65534])) =
   Ret (bytes_of_string (''<S>'' @ utf8 [65534] @ ''</S>'')) \<and>
   unmarshal E (bytes_of_string (''<S>'' @ utf8 [65534] @ ''</S>'')) =
   Fail (EWrap ''decode string'' syntax_error)"
  by (rule conjI; code_simp)

section \<open>A concrete value\<close>

lemma good_string_ascii: "list_all (\<lambda>c. 32 \<le> code c \<and> code c < 127) s \<Longrightarrow> good_string s"
proof (induction s)
  case Nil
  show ?case unfolding good_string_def by (rule exI [of _ "[]"]) simp
next
  case (Cons c s)
  then obtain rs where "s = utf8 rs" "\<forall>r\<in>set rs. valid_rune r \<and> r \<noteq> 65534 \<and> r \<noteq> 65535"
    by (auto simp: good_string_def)
  with Cons.prems show ?case unfolding good_string_def
    by (intro exI [of _ "code c # rs"]) (simp add: encode_valid_code valid_rune_def)
qed

lemma comes_back_example:
  "comes_back E (VMap [(''b'', VSlice [VInt 5000000000, VString ''x<y'', VNil]), (''a'', VBool True)])
    (VMap [(''a'', VBool True), (''b'', VSlice [VInt32 2147483647, VString ''x<y'', VNil])])"
proof (rule back_map)
  have k: "map_keys [(''b'', v), (''a'', w)] = [''a'', ''b'']" for v w :: goval
    by code_simp
  have "comes_back E (VInt 5000000000) (VInt32 2147483647)"
    using back_int [of E 5000000000] by (simp add: safeInt32_def MaxInt32_def)
  moreover have "comes_back E (VString ''x<y'') (VString ''x<y'')"
    by (intro back_string good_string_ascii) (simp add: of_char_def)
  ultimately have "comes_back E (VSlice [VInt 5000000000, VString ''x<y'', VNil])
      (VSlice [VInt32 2147483647, VString ''x<y'', VNil])"
    by (intro back_slice) (simp add: back_nil)
  then show "list_all2 (rel_prod (=) (comes_back E))
      (fields_of [(''b'', VSlice [VInt 5000000000, VString ''x<y'', VNil]), (''a'', VBool True)]
        (map_keys [(''b'', VSlice [VInt 5000000000, VString ''x<y'', VNil]), (''a'', VBool True)]))
      [(''a'', VBool True), (''b'', VSlice [VInt32 2147483647, VString ''x<y'', VNil])]"
    unfolding k by (simp add: fields_of_def lookup_or_nil_def rel_prod_conv back_bool)
  have "clean ''a''" "clean ''b''" by (rule clean_ascii, simp add: of_char_def)+
  moreover have "decodeCLIXMLString ''a'' = ''a''" "decodeCLIXMLString ''b'' = ''b''" by code_simp+
  ultimately show "list_all plain_key (map fst [(''b'', VSlice [VInt 5000000000, VString ''x<y'', VNil]),
      (''a'', VBool True)])"
    by (simp add: plain_key_def)
qed

definition no_env :: codec_env where
  "no_env = \<lparr>format_float = (\<lambda>_. []), parse_float = (\<lambda>_. None), format_time = (\<lambda>_. []),
     parse_time = (\<lambda>_. None), uuid_String = (\<lambda>_. []), uuid_Parse = (\<lambda>_. None),
     sprint_v = (\<lambda>_. []), NewSecureString = Ret\<rparr>"

theorem clixml_roundtrip_witness:
  "\<exists>bs. marshal no_env fmempty
      (VMap [(''b'', VSlice [VInt 5000000000, VString ''x<y'', VNil]), (''a'', VBool True)]) = Ret bs \<and>
    (MaxInt < int (length bs) \<or> unmarshal no_env bs =
      Ret [VMap [(''a'', VBool True), (''b'', VSlice [VInt32 2147483647, VString ''x<y'', VNil])]])"
  by (rule conjunct1 [OF clixml_roundtrip [OF comes_back_example]]) simp

end
