(* ===== verification/Fragments.thy ===== *)
theory Fragments
  imports Binary_Codec
begin

text \<open>
  The fragment layer (\<open>fragments/fragments.go\<close>): the wire form of a fragment, the
  \<open>Fragmenter\<close> that splits an encoded message, and the \<open>Assembler\<close> that puts the fragments
  of interleaved messages back together under its two limits. The properties of this layer
  are in theory \<open>Fragments_Correct\<close>.
\<close>

section \<open>Fragments and their wire form\<close>

definition Frag_HeaderSize :: nat where
  "Frag_HeaderSize = 21"

definition FlagStart :: byte where
  "FlagStart = 1"

definition FlagEnd :: byte where
  "FlagEnd = 2"

record fragment =
  ObjectID :: uint64
  FragmentID :: uint64
  Start :: bool
  End :: bool
  FragData :: bytes

definition Fragment_flags :: "fragment \<Rightarrow> byte" where
  "Fragment_flags f =
     or (if Start f then FlagStart else 0) (if End f then FlagEnd else 0)"

definition Fragment_Encode :: "fragment \<Rightarrow> bytes outcome" where
  "Fragment_Encode f =
     (if MaxUint32 < int (length (FragData f)) then Fail (EMsg ''fragment data too large'')
      else Ret (BigEndian_PutUint64 (ObjectID f) @ BigEndian_PutUint64 (FragmentID f) @
                [Fragment_flags f] @
                BigEndian_PutUint32 (word_of_nat (length (FragData f))) @ FragData f))"

text \<open>
  \<open>data[21:21+blobLen]\<close> adds in \<open>uint32\<close>, so the upper bound of the slice wraps for the
  largest blob lengths; Go then panics because the bounds are reversed.
\<close>

definition Fragment_Decode :: "bytes \<Rightarrow> fragment outcome" where
  "Fragment_Decode data =
     (if length data < Frag_HeaderSize then Fail (EIs ErrInvalidFragment)
      else let flags = data ! 16;
               blobLen = BigEndian_Uint32 (slice data 17 21);
               hi = unat (21 + blobLen) in
        if length data < Frag_HeaderSize + unat blobLen then Fail (EIs ErrInvalidFragment)
        else if hi < 21 then Panic PanicSliceBounds
        else Ret \<lparr>ObjectID = BigEndian_Uint64 (slice data 0 8),
                  FragmentID = BigEndian_Uint64 (slice data 8 16),
                  Start = (and flags FlagStart \<noteq> 0),
                  End = (and flags FlagEnd \<noteq> 0),
                  FragData = slice data 21 hi\<rparr>)"

section \<open>The fragmenter\<close>

record fragmenter =
  maxSize :: int
  objectID :: uint64

definition NewFragmenter :: "int \<Rightarrow> fragmenter" where
  "NewFragmenter m = \<lparr>maxSize = m, objectID = 0\<rparr>"

definition NewFragmenterWithID :: "int \<Rightarrow> uint64 \<Rightarrow> fragmenter" where
  "NewFragmenterWithID m currentObjectID = \<lparr>maxSize = m, objectID = currentObjectID\<rparr>"

definition SetObjectID :: "fragmenter \<Rightarrow> uint64 \<Rightarrow> fragmenter" where
  "SetObjectID f i = f\<lparr>objectID := i\<rparr>"

text \<open>
  The loop of \<open>Fragment\<close>, from an offset. It runs only with a positive payload size. Where
  \<open>len(data) + maxPayload - 1\<close> did not wrap, \<open>offset + maxPayload\<close> does not either; where it
  wrapped and no panic followed, the payload size exceeds the data and the loop runs once,
  from offset 0. So the offsets are natural numbers that never wrap.
\<close>

function frag_loop :: "uint64 \<Rightarrow> nat \<Rightarrow> bytes \<Rightarrow> nat \<Rightarrow> uint64 \<Rightarrow> fragment list" where
  "frag_loop oid maxPayload data offset fid =
     (if offset < length data \<and> 0 < maxPayload then
        let e = (if length data < offset + maxPayload then length data
                 else offset + maxPayload) in
        \<lparr>ObjectID = oid, FragmentID = fid, Start = (offset = 0), End = (e = length data),
         FragData = slice data offset e\<rparr> # frag_loop oid maxPayload data e (fid + 1)
      else [])"
  by pat_completeness auto
termination
  by (relation "measure (\<lambda>(oid, mp, data, off, fid). length data - off)") auto

declare frag_loop.simps [simp del]

definition maxPayload_of :: "int \<Rightarrow> bytes \<Rightarrow> int" where
  "maxPayload_of m data =
     (let mp = i64 (m - int Frag_HeaderSize) in if mp \<le> 0 then int (length data) else mp)"

text \<open>
  \<open>Fragment\<close>. The counter is advanced first, on every path. The division by \<open>maxPayload\<close>
  panics when it is 0 (a fragment size of at most 21 and an empty message), and \<open>make\<close> panics
  on a negative capacity (a sum that wrapped).
\<close>

definition Fragmenter_Fragment :: "fragmenter \<Rightarrow> bytes \<Rightarrow> fragmenter \<times> fragment list outcome"
  where
  "Fragmenter_Fragment f data =
     (let f' = f\<lparr>objectID := objectID f + 1\<rparr>;
          oid = objectID f';
          mp = maxPayload_of (maxSize f) data in
      (f', if mp = 0 then Panic PanicDivide
           else if go_quot (i64 (int (length data) + mp - 1)) mp < 0 then Panic PanicMakeCap
           else let fs = frag_loop oid (nat mp) data 0 0 in
             Ret (if fs = [] then
                    [\<lparr>ObjectID = oid, FragmentID = 0, Start = True, End = True, FragData = []\<rparr>]
                  else fs)))"

section \<open>The assembler\<close>

record pendingMessage =
  fragments :: "(uint64, bytes) fmap"
  total :: int
  received :: int

record assembler =
  pending :: "(uint64, pendingMessage) fmap"
  maxPendingMessages :: int
  maxFragmentsPerMsg :: int

definition NewAssemblerWithLimits :: "int \<Rightarrow> int \<Rightarrow> assembler" where
  "NewAssemblerWithLimits maxPending maxFragments =
     \<lparr>pending = fmempty, maxPendingMessages = maxPending, maxFragmentsPerMsg = maxFragments\<rparr>"

definition NewAssembler :: assembler where
  "NewAssembler = NewAssemblerWithLimits 1000 10000"

definition new_pendingMessage :: pendingMessage where
  "new_pendingMessage = \<lparr>fragments = fmempty, total = -1, received = 0\<rparr>"

definition fragment_at :: "pendingMessage \<Rightarrow> uint64 \<Rightarrow> bytes" where
  "fragment_at pm i = (case fmlookup (fragments pm) i of None \<Rightarrow> [] | Some d \<Rightarrow> d)"

definition reassemble :: "pendingMessage \<Rightarrow> bytes" where
  "reassemble pm = concat (map (\<lambda>i. fragment_at pm (of_nat i)) [0..<nat (total pm)])"

text \<open>
  \<open>Add\<close> from the point where the pending message is known: \<open>pm\<close> is the entry of the map,
  which the code updates through a pointer, so every exit that changed it stores it back.
\<close>

definition Assembler_Add_pm ::
  "assembler \<Rightarrow> pendingMessage \<Rightarrow> fragment \<Rightarrow> assembler \<times> bytes option outcome" where
  "Assembler_Add_pm a pm f =
     (let oid = ObjectID f; fid = FragmentID f in
      if maxFragmentsPerMsg a \<le> received pm then
        (a\<lparr>pending := fmdrop oid (pending a)\<rparr>, Fail (EMsg ''too many fragments for message''))
      else if fmlookup (fragments pm) fid \<noteq> None then
        (a\<lparr>pending := fmupd oid pm (pending a)\<rparr>, Fail (EIs ErrDuplicateFragment))
      else
        let pm1 = pm\<lparr>fragments := fmupd fid (FragData f) (fragments pm),
                     received := received pm + 1\<rparr> in
        if End f \<and> MaxInt - 1 < int (unat fid) then
          (a\<lparr>pending := fmupd oid pm1 (pending a)\<rparr>, Fail (EMsg ''fragment ID too large''))
        else
          let pm2 = (if End f then pm1\<lparr>total := int (unat fid) + 1\<rparr> else pm1) in
          if 0 < total pm2 \<and> received pm2 = total pm2 then
            (a\<lparr>pending := fmdrop oid (pending a)\<rparr>, Ret (Some (reassemble pm2)))
          else (a\<lparr>pending := fmupd oid pm2 (pending a)\<rparr>, Ret None))"

definition Assembler_Add :: "assembler \<Rightarrow> fragment \<Rightarrow> assembler \<times> bytes option outcome" where
  "Assembler_Add a f =
     (case fmlookup (pending a) (ObjectID f) of
        Some pm \<Rightarrow> Assembler_Add_pm a pm f
      | None \<Rightarrow>
          if maxPendingMessages a \<le> int (fmsize (pending a)) then
            (a, Fail (EMsg ''too many pending messages''))
          else Assembler_Add_pm
                 (a\<lparr>pending := fmupd (ObjectID f) new_pendingMessage (pending a)\<rparr>)
                 new_pendingMessage f)"

text \<open>Feeding a list of fragments, collecting the result of every call.\<close>

fun Add_all :: "assembler \<Rightarrow> fragment list \<Rightarrow> assembler \<times> bytes option outcome list" where
  "Add_all a [] = (a, [])"
| "Add_all a (f # fs) =
     (let (a1, r) = Assembler_Add a f; (a2, rs) = Add_all a1 fs in (a2, r # rs))"

lemma Add_all_append:
  "Add_all a (xs @ ys) =
     (let (a1, rs) = Add_all a xs; (a2, ss) = Add_all a1 ys in (a2, rs @ ss))"
  by (induction xs arbitrary: a) (auto simp: Let_def split: prod.splits)

end
