(* ===== verification/Host.thy ===== *)
theory Host
  imports Values "HOL-Library.Char_ord"
begin

text \<open>
  The host interface (\<open>host/host.go\<close>), its default implementation \<open>NullHost\<close>, and the method
  identifiers of the host callbacks (\<open>host/callback.go\<close>). The user interface belongs to the
  caller of the library: it is a record of operations on a state \<open>'s\<close> of its own. The getters of
  a host are taken to be constant.
\<close>

section \<open>Types\<close>

record hostVersion =
  hvMajor :: int
  hvMinor :: int
  hvBuild :: int
  hvRevision :: int

record fieldDescription =
  fdName :: string
  fdLabel :: string
  fdParameterTypeName :: string
  fdParameterTypeFullName :: string
  fdHelpMessage :: string
  fdIsMandatory :: bool

record choiceDescription =
  cdLabel :: string
  cdHelpMessage :: string

definition CredentialTypeGeneric :: int where
  "CredentialTypeGeneric = 1"

definition CredentialTypeDomain :: int where
  "CredentialTypeDomain = 2"

definition CredentialTypeDefault :: int where
  "CredentialTypeDefault = 3"

definition CredentialUIOptionNone :: int where
  "CredentialUIOptionNone = 0"

text \<open>A credential: the user name and the encrypted password; \<open>None\<close> is the nil pointer.\<close>

type_synonym psCredential = "(string \<times> bytes) option"

record 's hostUI =
  uiReadLine :: "'s \<Rightarrow> 's \<times> string outcome"
  uiReadLineAsSecureString :: "'s \<Rightarrow> 's \<times> bytes outcome"
  uiWrite :: "string \<Rightarrow> 's \<Rightarrow> 's"
  uiWriteLine :: "string \<Rightarrow> 's \<Rightarrow> 's"
  uiWriteErrorLine :: "string \<Rightarrow> 's \<Rightarrow> 's"
  uiWriteDebugLine :: "string \<Rightarrow> 's \<Rightarrow> 's"
  uiWriteVerboseLine :: "string \<Rightarrow> 's \<Rightarrow> 's"
  uiWriteWarningLine :: "string \<Rightarrow> 's \<Rightarrow> 's"
  uiWriteProgress :: "int \<Rightarrow> progressRecord option \<Rightarrow> 's \<Rightarrow> 's"
  uiPrompt :: "string \<Rightarrow> string \<Rightarrow> fieldDescription list \<Rightarrow> 's \<Rightarrow> 's \<times> (string \<times> goval) list outcome"
  uiPromptForCredential ::
    "string \<Rightarrow> string \<Rightarrow> string \<Rightarrow> string \<Rightarrow> int \<Rightarrow> int \<Rightarrow> 's \<Rightarrow> 's \<times> psCredential outcome"
  uiPromptForChoice :: "string \<Rightarrow> string \<Rightarrow> choiceDescription list \<Rightarrow> int \<Rightarrow> 's \<Rightarrow> 's \<times> int outcome"

record 's host =
  hostName :: string
  hostVersion :: hostVersion
  hostInstanceID :: string
  hostCurrentCulture :: string
  hostCurrentUICulture :: string
  hostUI :: "'s hostUI option"

section \<open>NullHost\<close>

definition nil_guid_text :: string where
  "nil_guid_text = ''00000000-0000-0000-0000-000000000000''"

definition NullHostUI :: "(bytes \<Rightarrow> bytes outcome) \<Rightarrow> 's hostUI" where
  "NullHostUI newSecure =
     \<lparr>uiReadLine = (\<lambda>s. (s, Ret [])),
      uiReadLineAsSecureString = (\<lambda>s. (s, newSecure [])),
      uiWrite = (\<lambda>t s. s), uiWriteLine = (\<lambda>t s. s), uiWriteErrorLine = (\<lambda>t s. s),
      uiWriteDebugLine = (\<lambda>t s. s), uiWriteVerboseLine = (\<lambda>t s. s), uiWriteWarningLine = (\<lambda>t s. s),
      uiWriteProgress = (\<lambda>i r s. s),
      uiPrompt = (\<lambda>c m ds s. (s, Ret [])),
      uiPromptForCredential = (\<lambda>c m u t a op s. (s, Ret None)),
      uiPromptForChoice = (\<lambda>c m cs dflt s. (s, Ret dflt))\<rparr>"

definition NewNullHost :: "(bytes \<Rightarrow> bytes outcome) \<Rightarrow> 's host" where
  "NewNullHost newSecure =
     \<lparr>hostName = ''go-psrp'',
      hostVersion = \<lparr>hvMajor = 1, hvMinor = 0, hvBuild = 0, hvRevision = 0\<rparr>,
      hostInstanceID = nil_guid_text, hostCurrentCulture = ''en-US'',
      hostCurrentUICulture = ''en-US'', hostUI = Some (NullHostUI newSecure)\<rparr>"

section \<open>Method identifiers\<close>

definition MethodIDGetName :: int where
  "MethodIDGetName = 1"

definition MethodIDGetVersion :: int where
  "MethodIDGetVersion = 2"

definition MethodIDGetInstanceID :: int where
  "MethodIDGetInstanceID = 3"

definition MethodIDGetCurrentCulture :: int where
  "MethodIDGetCurrentCulture = 4"

definition MethodIDGetCurrentUICulture :: int where
  "MethodIDGetCurrentUICulture = 5"

definition MethodIDSetShouldExit :: int where
  "MethodIDSetShouldExit = 6"

definition MethodIDEnterNestedPrompt :: int where
  "MethodIDEnterNestedPrompt = 7"

definition MethodIDExitNestedPrompt :: int where
  "MethodIDExitNestedPrompt = 8"

definition MethodIDNotifyBeginApplication :: int where
  "MethodIDNotifyBeginApplication = 9"

definition MethodIDNotifyEndApplication :: int where
  "MethodIDNotifyEndApplication = 10"

definition MethodIDReadLine :: int where
  "MethodIDReadLine = 11"

definition MethodIDReadLineAsSecureString :: int where
  "MethodIDReadLineAsSecureString = 12"

definition MethodIDWrite1 :: int where
  "MethodIDWrite1 = 13"

definition MethodIDWrite2 :: int where
  "MethodIDWrite2 = 14"

definition MethodIDWriteLine1 :: int where
  "MethodIDWriteLine1 = 15"

definition MethodIDWriteLine2 :: int where
  "MethodIDWriteLine2 = 16"

definition MethodIDWriteLine3 :: int where
  "MethodIDWriteLine3 = 17"

definition MethodIDWriteErrorLine :: int where
  "MethodIDWriteErrorLine = 18"

definition MethodIDWriteDebugLine :: int where
  "MethodIDWriteDebugLine = 19"

definition MethodIDWriteProgress :: int where
  "MethodIDWriteProgress = 20"

definition MethodIDWriteVerboseLine :: int where
  "MethodIDWriteVerboseLine = 21"

definition MethodIDWriteWarningLine :: int where
  "MethodIDWriteWarningLine = 22"

definition MethodIDPrompt :: int where
  "MethodIDPrompt = 23"

definition MethodIDPromptForCredential1 :: int where
  "MethodIDPromptForCredential1 = 24"

definition MethodIDPromptForCredential2 :: int where
  "MethodIDPromptForCredential2 = 25"

definition MethodIDPromptForChoice :: int where
  "MethodIDPromptForChoice = 26"

definition MethodIDGetForegroundColor :: int where
  "MethodIDGetForegroundColor = 27"

definition MethodIDSetForegroundColor :: int where
  "MethodIDSetForegroundColor = 28"

definition MethodIDGetBackgroundColor :: int where
  "MethodIDGetBackgroundColor = 29"

definition MethodIDSetBackgroundColor :: int where
  "MethodIDSetBackgroundColor = 30"

definition MethodIDGetCursorPosition :: int where
  "MethodIDGetCursorPosition = 31"

definition MethodIDSetCursorPosition :: int where
  "MethodIDSetCursorPosition = 32"

definition MethodIDGetWindowPosition :: int where
  "MethodIDGetWindowPosition = 33"

definition MethodIDSetWindowPosition :: int where
  "MethodIDSetWindowPosition = 34"

definition MethodIDGetCursorSize :: int where
  "MethodIDGetCursorSize = 35"

definition MethodIDSetCursorSize :: int where
  "MethodIDSetCursorSize = 36"

definition MethodIDGetBufferSize :: int where
  "MethodIDGetBufferSize = 37"

definition MethodIDSetBufferSize :: int where
  "MethodIDSetBufferSize = 38"

definition MethodIDGetWindowSize :: int where
  "MethodIDGetWindowSize = 39"

definition MethodIDSetWindowSize :: int where
  "MethodIDSetWindowSize = 40"

definition MethodIDGetWindowTitle :: int where
  "MethodIDGetWindowTitle = 41"

definition MethodIDSetWindowTitle :: int where
  "MethodIDSetWindowTitle = 42"

definition MethodIDGetMaxWindowSize :: int where
  "MethodIDGetMaxWindowSize = 43"

definition MethodIDGetMaxPhysicalWindowSize :: int where
  "MethodIDGetMaxPhysicalWindowSize = 44"

definition MethodIDGetKeyAvailable :: int where
  "MethodIDGetKeyAvailable = 45"

definition MethodIDReadKey :: int where
  "MethodIDReadKey = 46"

definition MethodIDFlushInputBuffer :: int where
  "MethodIDFlushInputBuffer = 47"

definition MethodIDSetBufferContents1 :: int where
  "MethodIDSetBufferContents1 = 48"

definition MethodIDSetBufferContents2 :: int where
  "MethodIDSetBufferContents2 = 49"

definition MethodIDGetBufferContents :: int where
  "MethodIDGetBufferContents = 50"

definition MethodIDScrollBufferContents :: int where
  "MethodIDScrollBufferContents = 51"

definition MethodIDPushRunspace :: int where
  "MethodIDPushRunspace = 52"

definition MethodIDPopRunspace :: int where
  "MethodIDPopRunspace = 53"

definition MethodIDGetIsRunspacePushed :: int where
  "MethodIDGetIsRunspacePushed = 54"

definition MethodIDGetRunspace :: int where
  "MethodIDGetRunspace = 55"

definition MethodIDPromptForChoiceMultipleSelection :: int where
  "MethodIDPromptForChoiceMultipleSelection = 56"

definition methodNames :: "(int \<times> string) list" where
  "methodNames =
     [(MethodIDGetName, ''GetName''),
      (MethodIDGetVersion, ''GetVersion''),
      (MethodIDGetInstanceID, ''GetInstanceId''),
      (MethodIDGetCurrentCulture, ''GetCurrentCulture''),
      (MethodIDGetCurrentUICulture, ''GetCurrentUICulture''),
      (MethodIDSetShouldExit, ''SetShouldExit''),
      (MethodIDEnterNestedPrompt, ''EnterNestedPrompt''),
      (MethodIDExitNestedPrompt, ''ExitNestedPrompt''),
      (MethodIDNotifyBeginApplication, ''NotifyBeginApplication''),
      (MethodIDNotifyEndApplication, ''NotifyEndApplication''),
      (MethodIDReadLine, ''ReadLine''),
      (MethodIDReadLineAsSecureString, ''ReadLineAsSecureString''),
      (MethodIDWrite1, ''Write1''),
      (MethodIDWrite2, ''Write2''),
      (MethodIDWriteLine1, ''WriteLine1''),
      (MethodIDWriteLine2, ''WriteLine2''),
      (MethodIDWriteLine3, ''WriteLine3''),
      (MethodIDWriteErrorLine, ''WriteErrorLine''),
      (MethodIDWriteDebugLine, ''WriteDebugLine''),
      (MethodIDWriteProgress, ''WriteProgress''),
      (MethodIDWriteVerboseLine, ''WriteVerboseLine''),
      (MethodIDWriteWarningLine, ''WriteWarningLine''),
      (MethodIDPrompt, ''Prompt''),
      (MethodIDPromptForCredential1, ''PromptForCredential1''),
      (MethodIDPromptForCredential2, ''PromptForCredential2''),
      (MethodIDPromptForChoice, ''PromptForChoice''),
      (MethodIDGetForegroundColor, ''GetForegroundColor''),
      (MethodIDSetForegroundColor, ''SetForegroundColor''),
      (MethodIDGetBackgroundColor, ''GetBackgroundColor''),
      (MethodIDSetBackgroundColor, ''SetBackgroundColor''),
      (MethodIDGetCursorPosition, ''GetCursorPosition''),
      (MethodIDSetCursorPosition, ''SetCursorPosition''),
      (MethodIDGetWindowPosition, ''GetWindowPosition''),
      (MethodIDSetWindowPosition, ''SetWindowPosition''),
      (MethodIDGetCursorSize, ''GetCursorSize''),
      (MethodIDSetCursorSize, ''SetCursorSize''),
      (MethodIDGetBufferSize, ''GetBufferSize''),
      (MethodIDSetBufferSize, ''SetBufferSize''),
      (MethodIDGetWindowSize, ''GetWindowSize''),
      (MethodIDSetWindowSize, ''SetWindowSize''),
      (MethodIDGetWindowTitle, ''GetWindowTitle''),
      (MethodIDSetWindowTitle, ''SetWindowTitle''),
      (MethodIDGetMaxWindowSize, ''GetMaxWindowSize''),
      (MethodIDGetMaxPhysicalWindowSize, ''GetMaxPhysicalWindowSize''),
      (MethodIDGetKeyAvailable, ''GetKeyAvailable''),
      (MethodIDReadKey, ''ReadKey''),
      (MethodIDFlushInputBuffer, ''FlushInputBuffer''),
      (MethodIDSetBufferContents1, ''SetBufferContents1''),
      (MethodIDSetBufferContents2, ''SetBufferContents2''),
      (MethodIDGetBufferContents, ''GetBufferContents''),
      (MethodIDScrollBufferContents, ''ScrollBufferContents''),
      (MethodIDPushRunspace, ''PushRunspace''),
      (MethodIDPopRunspace, ''PopRunspace''),
      (MethodIDGetIsRunspacePushed, ''GetIsRunspacePushed''),
      (MethodIDGetRunspace, ''GetRunspace''),
      (MethodIDPromptForChoiceMultipleSelection, ''PromptForChoiceMultipleSelection'')]"

lemmas method_id_defs =
  MethodIDGetName_def MethodIDGetVersion_def MethodIDGetInstanceID_def MethodIDGetCurrentCulture_def MethodIDGetCurrentUICulture_def MethodIDSetShouldExit_def MethodIDEnterNestedPrompt_def MethodIDExitNestedPrompt_def MethodIDNotifyBeginApplication_def MethodIDNotifyEndApplication_def MethodIDReadLine_def MethodIDReadLineAsSecureString_def MethodIDWrite1_def MethodIDWrite2_def MethodIDWriteLine1_def MethodIDWriteLine2_def MethodIDWriteLine3_def MethodIDWriteErrorLine_def MethodIDWriteDebugLine_def MethodIDWriteProgress_def MethodIDWriteVerboseLine_def MethodIDWriteWarningLine_def MethodIDPrompt_def MethodIDPromptForCredential1_def MethodIDPromptForCredential2_def MethodIDPromptForChoice_def MethodIDGetForegroundColor_def MethodIDSetForegroundColor_def MethodIDGetBackgroundColor_def MethodIDSetBackgroundColor_def MethodIDGetCursorPosition_def MethodIDSetCursorPosition_def MethodIDGetWindowPosition_def MethodIDSetWindowPosition_def MethodIDGetCursorSize_def MethodIDSetCursorSize_def MethodIDGetBufferSize_def MethodIDSetBufferSize_def MethodIDGetWindowSize_def MethodIDSetWindowSize_def MethodIDGetWindowTitle_def MethodIDSetWindowTitle_def MethodIDGetMaxWindowSize_def MethodIDGetMaxPhysicalWindowSize_def MethodIDGetKeyAvailable_def MethodIDReadKey_def MethodIDFlushInputBuffer_def MethodIDSetBufferContents1_def MethodIDSetBufferContents2_def MethodIDGetBufferContents_def MethodIDScrollBufferContents_def MethodIDPushRunspace_def MethodIDPopRunspace_def MethodIDGetIsRunspacePushed_def MethodIDGetRunspace_def MethodIDPromptForChoiceMultipleSelection_def

definition MethodID_String :: "int \<Rightarrow> string" where
  "MethodID_String m =
     (case map_of methodNames m of Some n \<Rightarrow> n | None \<Rightarrow> ''Unknown('' @ itoa m @ '')'')"

definition DefaultCulture :: string where
  "DefaultCulture = ''en-US''"

text \<open>Every identifier from 1 to 56 has a name, and no other one.\<close>

lemma methodNames_ids: "map fst methodNames = [1..56]"
  by (simp add: methodNames_def method_id_defs upto_rec_numeral upto.simps)

section \<open>Texts of errors and types\<close>

fun sentinel_text :: "sentinel \<Rightarrow> string" where
  "sentinel_text ErrUnsupportedType = ''unsupported type''"
| "sentinel_text ErrInvalidCLIXML = ''invalid CLIXML''"
| "sentinel_text ErrMaxRecursionDepth = ''maximum recursion depth exceeded''"
| "sentinel_text IoEOF = ''EOF''"
| "sentinel_text IoUnexpectedEOF = ''unexpected EOF''"
| "sentinel_text CtxCanceled = ''context canceled''"
| "sentinel_text CtxDeadlineExceeded = ''context deadline exceeded''"
| "sentinel_text ErrInvalidFragment = ''invalid fragment''"
| "sentinel_text ErrDuplicateFragment = ''duplicate fragment''"
| "sentinel_text ErrMessageTooShort = ''message too short''"
| "sentinel_text ErrPipelineInvalidState = ''invalid pipeline state''"
| "sentinel_text ErrBufferFull = ''channel buffer full, message delivery timed out''"
| "sentinel_text ErrPoolInvalidState = ''invalid runspace pool state''"
| "sentinel_text ErrAlreadyOpen = ''runspace pool already open''"
| "sentinel_text ErrNotOpen = ''runspace pool not open''"
| "sentinel_text ErrClosed = ''runspace pool is closed''"
| "sentinel_text ErrBroken = ''runspace pool is broken''"
| "sentinel_text ErrProtocolViolation = ''protocol violation''"
| "sentinel_text NetTimeout = ''i/o timeout''"
| "sentinel_text NetClosed = ''use of closed network connection''"

fun err_text :: "gerr \<Rightarrow> string" where
  "err_text (EIs t) = sentinel_text t"
| "err_text (EMsg m) = m"
| "err_text (EWrap m e) = m @ '': '' @ err_text e"

text \<open>The \<open>%T\<close> of a value.\<close>

fun go_type :: "goval \<Rightarrow> string" where
  "go_type VNil = ''<nil>''"
| "go_type (VString s) = ''string''"
| "go_type (VInt i) = ''int''"
| "go_type (VInt32 i) = ''int32''"
| "go_type (VInt64 i) = ''int64''"
| "go_type (VBool b) = ''bool''"
| "go_type (VFloat f) = ''float64''"
| "go_type (VBytes b) = ''[]uint8''"
| "go_type (VTime t) = ''time.Time''"
| "go_type (VUUID u) = ''uuid.UUID''"
| "go_type (VSlice xs) = ''[]interface {}''"
| "go_type (VMap m) = ''map[string]interface {}''"
| "go_type (VGMap m) = ''map[interface {}]interface {}''"
| "go_type (VPtr a) = ''*serialization.PSObject''"
| "go_type (VObject ob) = ''*serialization.PSObject''"
| "go_type (VEnum t i s) = ''*serialization.PSRPEnum''"
| "go_type (VTyped ts xs) = ''*serialization.TypedList''"
| "go_type (VSecure b) = ''*objects.SecureString''"
| "go_type (VScript t) = ''*objects.ScriptBlock''"
| "go_type (VVersion a b c d) = ''objects.Version''"
| "go_type (VError e) = ''*objects.ErrorRecord''"
| "go_type (VProgress r) = ''*objects.ProgressRecord''"
| "go_type (VPowerShell p) = ''*objects.PowerShell''"
| "go_type (VCommand c) = ''*objects.Command''"
| "go_type (VParam n v) = ''*objects.CommandParameter''"
| "go_type (VOther t) = t"

end
