(* ===== verification/Host_Callback.thy ===== *)
theory Host_Callback
  imports Host
begin

text \<open>
  The dispatch of host callbacks (\<open>host/callback.go\<close>, \<open>host/progress_conversion.go\<close>). A handler
  gives the value to return or the error whose text goes back to the server; it changes the
  state of the user interface only through the operations of the host. The Go branches for
  native \<open>[]FieldDescription\<close> and \<open>[]ChoiceDescription\<close> arguments, which no decoded call has, are
  left out.
\<close>

record remoteHostCall =
  CallID :: int
  MethodID :: int
  MethodParameters :: "goval list"

record remoteHostResponse =
  RespCallID :: int
  ExceptionRaised :: bool
  ReturnValue :: goval

section \<open>Conversion of arguments\<close>

definition string_prop :: "(string \<times> goval) list \<Rightarrow> string \<Rightarrow> string" where
  "string_prop props k = (case map_of props k of Some (VString t) \<Rightarrow> t | _ \<Rightarrow> [])"

definition int32_prop :: "(string \<times> goval) list \<Rightarrow> string \<Rightarrow> int \<Rightarrow> int" where
  "int32_prop props k dflt = (case map_of props k of Some (VInt32 i) \<Rightarrow> i | _ \<Rightarrow> dflt)"

definition props_of :: "string \<Rightarrow> goval \<Rightarrow> (string \<times> goval) list outcome" where
  "props_of what v =
     (case v of
        VObject ob \<Rightarrow> Ret (Properties ob)
      | VMap m \<Rightarrow> Ret m
      | _ \<Rightarrow> Fail (EMsg (''expected PSObject or map for '' @ what @ '', got '' @ go_type v)))"

definition convertToFieldDescription :: "goval \<Rightarrow> fieldDescription outcome" where
  "convertToFieldDescription v =
     and_then (props_of ''field description'' v) (\<lambda>props. Ret
       \<lparr>fdName = string_prop props ''Name'', fdLabel = string_prop props ''Label'',
        fdParameterTypeName = string_prop props ''ParameterTypeName'',
        fdParameterTypeFullName = string_prop props ''ParameterTypeFullName'',
        fdHelpMessage = string_prop props ''HelpMessage'',
        fdIsMandatory = (map_of props ''IsMandatory'' = Some (VBool True))\<rparr>)"

definition convertToChoiceDescription :: "goval \<Rightarrow> choiceDescription outcome" where
  "convertToChoiceDescription v =
     and_then (props_of ''choice description'' v) (\<lambda>props. Ret
       \<lparr>cdLabel = string_prop props ''Label'', cdHelpMessage = string_prop props ''HelpMessage''\<rparr>)"

fun convert_all :: "('a \<Rightarrow> 'b outcome) \<Rightarrow> 'a list \<Rightarrow> 'b list outcome" where
  "convert_all f [] = Ret []"
| "convert_all f (x # xs) = and_then (f x) (\<lambda>y. and_then (convert_all f xs) (\<lambda>ys. Ret (y # ys)))"

definition convert_list :: "string \<Rightarrow> (goval \<Rightarrow> 'b outcome) \<Rightarrow> goval \<Rightarrow> 'b list outcome" where
  "convert_list what f v =
     (case v of
        VSlice xs \<Rightarrow> convert_all f xs
      | VObject ob \<Rightarrow> convert_all f [v]
      | _ \<Rightarrow> Fail (EMsg (''expected list or PSObject for '' @ what @ '', got '' @ go_type v)))"

definition convertToFieldDescriptions :: "goval \<Rightarrow> fieldDescription list outcome" where
  "convertToFieldDescriptions v = convert_list ''field descriptions'' convertToFieldDescription v"

definition convertToChoiceDescriptions :: "goval \<Rightarrow> choiceDescription list outcome" where
  "convertToChoiceDescriptions v = convert_list ''choice descriptions'' convertToChoiceDescription v"

definition convertToProgressRecord :: "goval \<Rightarrow> progressRecord outcome" where
  "convertToProgressRecord v =
     and_then (props_of ''ProgressRecord'' v) (\<lambda>props. Ret
       \<lparr>prActivityID = int32_prop props ''ActivityId'' 0,
        prParentActivityID = int32_prop props ''ParentActivityId'' (- 1),
        prActivity = string_prop props ''Activity'',
        prStatusDescription = string_prop props ''StatusDescription'',
        prCurrentOperation = string_prop props ''CurrentOperation'',
        prPercentComplete = int32_prop props ''PercentComplete'' (- 1),
        prSecondsRemaining = int32_prop props ''SecondsRemaining'' (- 1),
        prRecordType = int32_prop props ''RecordType'' 0\<rparr>)"

text \<open>An integer of any of the three widths.\<close>

definition as_int :: "goval \<Rightarrow> int option" where
  "as_int v = (case v of VInt i \<Rightarrow> Some i | VInt32 i \<Rightarrow> Some i | VInt64 i \<Rightarrow> Some i | _ \<Rightarrow> None)"

definition param_string :: "string \<Rightarrow> goval \<Rightarrow> string outcome" where
  "param_string what v =
     (case v of
        VString t \<Rightarrow> Ret t
      | _ \<Rightarrow> Fail (EMsg (what @ '' must be string, got '' @ go_type v)))"

definition need_params :: "string \<Rightarrow> nat \<Rightarrow> remoteHostCall \<Rightarrow> goval list outcome" where
  "need_params name n call =
     (if length (MethodParameters call) < n then
        Fail (EMsg (name @ '' requires '' @ itoa (int n) @
          (if n = 1 then '' parameter'' else '' parameters'') @ '', got '' @
          itoa (int (length (MethodParameters call)))))
      else Ret (MethodParameters call))"

definition checked :: "'a outcome \<Rightarrow> ('a \<Rightarrow> 's \<Rightarrow> 's \<times> 'b outcome) \<Rightarrow> 's \<Rightarrow> 's \<times> 'b outcome" where
  "checked r f s =
     (case r of Ret x \<Rightarrow> f x s | Fail e \<Rightarrow> (s, Fail e) | Panic p \<Rightarrow> (s, Panic p))"

definition returning :: "('a \<Rightarrow> goval) \<Rightarrow> 's \<times> 'a outcome \<Rightarrow> 's \<times> goval outcome" where
  "returning f r = (fst r, and_then (snd r) (\<lambda>x. Ret (f x)))"

text \<open>\<open>h.host.UI()\<close>, and an output operation on it, which does nothing without one.\<close>

definition the_ui :: "'s host option \<Rightarrow> 's hostUI option" where
  "the_ui h = (case h of None \<Rightarrow> None | Some x \<Rightarrow> hostUI x)"

definition sink_ui :: "('s hostUI \<Rightarrow> 'a \<Rightarrow> 's \<Rightarrow> 's) \<Rightarrow> 's host option \<Rightarrow> 'a \<Rightarrow> 's \<Rightarrow> 's" where
  "sink_ui sink h x s = (case the_ui h of None \<Rightarrow> s | Some ui \<Rightarrow> sink ui x s)"

section \<open>Methods of the host\<close>

definition handleGetName :: "'s host option \<Rightarrow> remoteHostCall \<Rightarrow> 's \<Rightarrow> 's \<times> goval outcome" where
  "handleGetName h call s = (s, Ret (VString (case h of None \<Rightarrow> [] | Some x \<Rightarrow> hostName x)))"

text \<open>The version is a value of a type that the serializer does not know.\<close>

definition handleGetVersion :: "'s host option \<Rightarrow> remoteHostCall \<Rightarrow> 's \<Rightarrow> 's \<times> goval outcome" where
  "handleGetVersion h call s = (s, Ret (VOther ''host.Version''))"

definition handleGetInstanceID :: "'s host option \<Rightarrow> remoteHostCall \<Rightarrow> 's \<Rightarrow> 's \<times> goval outcome" where
  "handleGetInstanceID h call s =
     (s, Ret (VString (case h of None \<Rightarrow> nil_guid_text | Some x \<Rightarrow> hostInstanceID x)))"

definition handleGetCurrentCulture ::
  "'s host option \<Rightarrow> remoteHostCall \<Rightarrow> 's \<Rightarrow> 's \<times> goval outcome" where
  "handleGetCurrentCulture h call s =
     (s, Ret (VString (case h of None \<Rightarrow> DefaultCulture | Some x \<Rightarrow> hostCurrentCulture x)))"

definition handleGetCurrentUICulture ::
  "'s host option \<Rightarrow> remoteHostCall \<Rightarrow> 's \<Rightarrow> 's \<times> goval outcome" where
  "handleGetCurrentUICulture h call s =
     (s, Ret (VString (case h of None \<Rightarrow> DefaultCulture | Some x \<Rightarrow> hostCurrentUICulture x)))"

definition handleSetShouldExit :: "remoteHostCall \<Rightarrow> 's \<Rightarrow> 's \<times> goval outcome" where
  "handleSetShouldExit call s = (s, Ret VNil)"

definition handleEnterNestedPrompt :: "remoteHostCall \<Rightarrow> 's \<Rightarrow> 's \<times> goval outcome" where
  "handleEnterNestedPrompt call s = (s, Fail (EMsg ''EnterNestedPrompt not supported''))"

definition handleExitNestedPrompt :: "remoteHostCall \<Rightarrow> 's \<Rightarrow> 's \<times> goval outcome" where
  "handleExitNestedPrompt call s = (s, Fail (EMsg ''ExitNestedPrompt not supported''))"

definition handleNotifyBeginApplication :: "remoteHostCall \<Rightarrow> 's \<Rightarrow> 's \<times> goval outcome" where
  "handleNotifyBeginApplication call s = (s, Ret VNil)"

definition handleNotifyEndApplication :: "remoteHostCall \<Rightarrow> 's \<Rightarrow> 's \<times> goval outcome" where
  "handleNotifyEndApplication call s = (s, Ret VNil)"

section \<open>Methods of the user interface\<close>

definition handleReadLine :: "'s host option \<Rightarrow> remoteHostCall \<Rightarrow> 's \<Rightarrow> 's \<times> goval outcome" where
  "handleReadLine h call s =
     (case the_ui h of
        None \<Rightarrow> (s, Ret (VString []))
      | Some ui \<Rightarrow> returning VString (uiReadLine ui s))"

definition handleReadLineAsSecureString ::
  "(bytes \<Rightarrow> bytes outcome) \<Rightarrow> 's host option \<Rightarrow> remoteHostCall \<Rightarrow> 's \<Rightarrow> 's \<times> goval outcome" where
  "handleReadLineAsSecureString ns h call s =
     (case the_ui h of
        None \<Rightarrow> returning VSecure (s, ns [])
      | Some ui \<Rightarrow> returning VSecure (uiReadLineAsSecureString ui s))"

definition handleWrite1 :: "'s host option \<Rightarrow> remoteHostCall \<Rightarrow> 's \<Rightarrow> 's \<times> goval outcome" where
  "handleWrite1 h call s =
     checked (need_params ''Write1'' 1 call) (\<lambda>ps s.
       checked (param_string ''Write1 parameter'' (ps ! 0)) (\<lambda>t s.
         (sink_ui uiWrite h t s, Ret VNil)) s) s"

definition handleWrite2 :: "'s host option \<Rightarrow> remoteHostCall \<Rightarrow> 's \<Rightarrow> 's \<times> goval outcome" where
  "handleWrite2 h call s =
     checked (need_params ''Write2'' 3 call) (\<lambda>ps s.
       checked (param_string ''Write2 text parameter'' (ps ! 2)) (\<lambda>t s.
         (sink_ui uiWrite h t s, Ret VNil)) s) s"

definition handleWriteLine1 :: "'s host option \<Rightarrow> remoteHostCall \<Rightarrow> 's \<Rightarrow> 's \<times> goval outcome" where
  "handleWriteLine1 h call s = (sink_ui uiWriteLine h [] s, Ret VNil)"

definition handleWriteLine2 :: "'s host option \<Rightarrow> remoteHostCall \<Rightarrow> 's \<Rightarrow> 's \<times> goval outcome" where
  "handleWriteLine2 h call s =
     checked (need_params ''WriteLine2'' 1 call) (\<lambda>ps s.
       checked (param_string ''WriteLine2 parameter'' (ps ! 0)) (\<lambda>t s.
         (sink_ui uiWriteLine h t s, Ret VNil)) s) s"

definition handleWriteLine3 :: "'s host option \<Rightarrow> remoteHostCall \<Rightarrow> 's \<Rightarrow> 's \<times> goval outcome" where
  "handleWriteLine3 h call s =
     checked (need_params ''WriteLine3'' 3 call) (\<lambda>ps s.
       checked (param_string ''WriteLine3 text parameter'' (ps ! 2)) (\<lambda>t s.
         (sink_ui uiWriteLine h t s, Ret VNil)) s) s"

definition handleWriteErrorLine :: "'s host option \<Rightarrow> remoteHostCall \<Rightarrow> 's \<Rightarrow> 's \<times> goval outcome" where
  "handleWriteErrorLine h call s =
     checked (need_params ''WriteErrorLine'' 1 call) (\<lambda>ps s.
       checked (param_string ''WriteErrorLine parameter'' (ps ! 0)) (\<lambda>t s.
         (sink_ui uiWriteErrorLine h t s, Ret VNil)) s) s"

definition handleWriteDebugLine :: "'s host option \<Rightarrow> remoteHostCall \<Rightarrow> 's \<Rightarrow> 's \<times> goval outcome" where
  "handleWriteDebugLine h call s =
     checked (need_params ''WriteDebugLine'' 1 call) (\<lambda>ps s.
       checked (param_string ''WriteDebugLine parameter'' (ps ! 0)) (\<lambda>t s.
         (sink_ui uiWriteDebugLine h t s, Ret VNil)) s) s"

definition handleWriteVerboseLine :: "'s host option \<Rightarrow> remoteHostCall \<Rightarrow> 's \<Rightarrow> 's \<times> goval outcome" where
  "handleWriteVerboseLine h call s =
     checked (need_params ''WriteVerboseLine'' 1 call) (\<lambda>ps s.
       checked (param_string ''WriteVerboseLine parameter'' (ps ! 0)) (\<lambda>t s.
         (sink_ui uiWriteVerboseLine h t s, Ret VNil)) s) s"

definition handleWriteWarningLine :: "'s host option \<Rightarrow> remoteHostCall \<Rightarrow> 's \<Rightarrow> 's \<times> goval outcome" where
  "handleWriteWarningLine h call s =
     checked (need_params ''WriteWarningLine'' 1 call) (\<lambda>ps s.
       checked (param_string ''WriteWarningLine parameter'' (ps ! 0)) (\<lambda>t s.
         (sink_ui uiWriteWarningLine h t s, Ret VNil)) s) s"

definition handleWriteProgress :: "'s host option \<Rightarrow> remoteHostCall \<Rightarrow> 's \<Rightarrow> 's \<times> goval outcome" where
  "handleWriteProgress h call s =
     checked (need_params ''WriteProgress'' 2 call) (\<lambda>ps s.
       case as_int (ps ! 0) of
         None \<Rightarrow> (s, Fail (EMsg (''WriteProgress sourceID must be int, got '' @ go_type (ps ! 0))))
       | Some src \<Rightarrow>
           (sink_ui (\<lambda>ui. uiWriteProgress ui src) h
              (case convertToProgressRecord (ps ! 1) of Ret r \<Rightarrow> Some r | _ \<Rightarrow> None) s, Ret VNil)) s"

definition handlePrompt :: "'s host option \<Rightarrow> remoteHostCall \<Rightarrow> 's \<Rightarrow> 's \<times> goval outcome" where
  "handlePrompt h call s =
     checked (need_params ''Prompt'' 3 call) (\<lambda>ps s.
     checked (param_string ''Prompt caption'' (ps ! 0)) (\<lambda>caption s.
     checked (param_string ''Prompt message'' (ps ! 1)) (\<lambda>message s.
     checked (wrap_err ''failed to convert field descriptions''
         (convertToFieldDescriptions (ps ! 2))) (\<lambda>descriptions s.
       case the_ui h of
         None \<Rightarrow> (s, Ret (VMap []))
       | Some ui \<Rightarrow> returning VMap (uiPrompt ui caption message descriptions s)) s) s) s) s"

text \<open>
  A credential has a type that the serializer does not know; the nil pointer too, because Go
  puts it into an interface value that is not nil.
\<close>

definition handlePromptForCredential1 ::
  "'s host option \<Rightarrow> remoteHostCall \<Rightarrow> 's \<Rightarrow> 's \<times> goval outcome" where
  "handlePromptForCredential1 h call s =
     checked (need_params ''PromptForCredential1'' 4 call) (\<lambda>ps s.
     checked (param_string ''PromptForCredential1 caption'' (ps ! 0)) (\<lambda>caption s.
     checked (param_string ''PromptForCredential1 message'' (ps ! 1)) (\<lambda>message s.
     checked (param_string ''PromptForCredential1 userName'' (ps ! 2)) (\<lambda>userName s.
     checked (param_string ''PromptForCredential1 targetName'' (ps ! 3)) (\<lambda>targetName s.
       case the_ui h of
         None \<Rightarrow> (s, Ret VNil)
       | Some ui \<Rightarrow> returning (\<lambda>c. VOther ''*objects.PSCredential'')
           (uiPromptForCredential ui caption message userName targetName CredentialTypeDefault
              CredentialUIOptionNone s)) s) s) s) s) s"

definition handlePromptForCredential2 ::
  "'s host option \<Rightarrow> remoteHostCall \<Rightarrow> 's \<Rightarrow> 's \<times> goval outcome" where
  "handlePromptForCredential2 h call s =
     checked (need_params ''PromptForCredential2'' 6 call) (\<lambda>ps s.
     checked (param_string ''PromptForCredential2 caption'' (ps ! 0)) (\<lambda>caption s.
     checked (param_string ''PromptForCredential2 message'' (ps ! 1)) (\<lambda>message s.
     checked (param_string ''PromptForCredential2 userName'' (ps ! 2)) (\<lambda>userName s.
     checked (param_string ''PromptForCredential2 targetName'' (ps ! 3)) (\<lambda>targetName s.
       case the_ui h of
         None \<Rightarrow> (s, Ret VNil)
       | Some ui \<Rightarrow> returning (\<lambda>c. VOther ''*objects.PSCredential'')
           (uiPromptForCredential ui caption message userName targetName
              (case as_int (ps ! 4) of Some i \<Rightarrow> i | None \<Rightarrow> CredentialTypeDefault)
              (case as_int (ps ! 5) of Some i \<Rightarrow> i | None \<Rightarrow> CredentialUIOptionNone) s)) s) s) s) s) s"

definition handlePromptForChoice :: "'s host option \<Rightarrow> remoteHostCall \<Rightarrow> 's \<Rightarrow> 's \<times> goval outcome" where
  "handlePromptForChoice h call s =
     checked (need_params ''PromptForChoice'' 4 call) (\<lambda>ps s.
     checked (param_string ''PromptForChoice caption'' (ps ! 0)) (\<lambda>caption s.
     checked (param_string ''PromptForChoice message'' (ps ! 1)) (\<lambda>message s.
     checked (wrap_err ''failed to convert choice descriptions''
         (convertToChoiceDescriptions (ps ! 2))) (\<lambda>choices s.
       case as_int (ps ! 3) of
         None \<Rightarrow>
           (s, Fail (EMsg (''PromptForChoice defaultChoice must be int, got '' @ go_type (ps ! 3))))
       | Some dflt \<Rightarrow>
           (case the_ui h of
              None \<Rightarrow> (s, Ret (VInt dflt))
            | Some ui \<Rightarrow> returning VInt (uiPromptForChoice ui caption message choices dflt s))) s) s) s) s"

definition first_choice :: "goval \<Rightarrow> goval list" where
  "first_choice v = (case v of VSlice (VInt i # _) \<Rightarrow> [VInt i] | _ \<Rightarrow> [])"

definition handlePromptForChoiceMultipleSelection ::
  "'s host option \<Rightarrow> remoteHostCall \<Rightarrow> 's \<Rightarrow> 's \<times> goval outcome" where
  "handlePromptForChoiceMultipleSelection h call s =
     checked (need_params ''PromptForChoiceMultipleSelection'' 4 call) (\<lambda>ps s.
     checked (param_string ''PromptForChoiceMultipleSelection caption'' (ps ! 0)) (\<lambda>caption s.
     checked (param_string ''PromptForChoiceMultipleSelection message'' (ps ! 1)) (\<lambda>message s.
     checked (wrap_err ''failed to convert choice descriptions''
         (convertToChoiceDescriptions (ps ! 2))) (\<lambda>choices s.
       (s, Ret (VSlice (if the_ui h = None then [] else first_choice (ps ! 3))))) s) s) s) s"

section \<open>Dispatch\<close>

definition raw_ui_methods :: "int list" where
  "raw_ui_methods =
     [MethodIDGetForegroundColor, MethodIDSetForegroundColor,
        MethodIDGetBackgroundColor, MethodIDSetBackgroundColor,
        MethodIDGetCursorPosition, MethodIDSetCursorPosition, MethodIDGetWindowPosition,
        MethodIDSetWindowPosition, MethodIDGetCursorSize, MethodIDSetCursorSize,
        MethodIDGetBufferSize, MethodIDSetBufferSize, MethodIDGetWindowSize,
        MethodIDSetWindowSize, MethodIDGetWindowTitle, MethodIDSetWindowTitle,
        MethodIDGetMaxWindowSize, MethodIDGetMaxPhysicalWindowSize,
        MethodIDGetKeyAvailable, MethodIDReadKey, MethodIDFlushInputBuffer,
        MethodIDSetBufferContents1, MethodIDSetBufferContents2,
        MethodIDGetBufferContents, MethodIDScrollBufferContents]"

definition runspace_methods :: "int list" where
  "runspace_methods =
     [MethodIDPushRunspace, MethodIDPopRunspace, MethodIDGetIsRunspacePushed,
        MethodIDGetRunspace]"

definition dispatch ::
  "(bytes \<Rightarrow> bytes outcome) \<Rightarrow> 's host option \<Rightarrow> remoteHostCall \<Rightarrow> 's \<Rightarrow> 's \<times> goval outcome" where
  "dispatch ns h call s =
     (let m = MethodID call in
      if m = MethodIDGetName then handleGetName h call s
      else if m = MethodIDGetVersion then handleGetVersion h call s
      else if m = MethodIDGetInstanceID then handleGetInstanceID h call s
      else if m = MethodIDGetCurrentCulture then handleGetCurrentCulture h call s
      else if m = MethodIDGetCurrentUICulture then handleGetCurrentUICulture h call s
      else if m = MethodIDSetShouldExit then handleSetShouldExit call s
      else if m = MethodIDEnterNestedPrompt then handleEnterNestedPrompt call s
      else if m = MethodIDExitNestedPrompt then handleExitNestedPrompt call s
      else if m = MethodIDNotifyBeginApplication then handleNotifyBeginApplication call s
      else if m = MethodIDNotifyEndApplication then handleNotifyEndApplication call s
      else if m = MethodIDReadLine then handleReadLine h call s
      else if m = MethodIDReadLineAsSecureString then handleReadLineAsSecureString ns h call s
      else if m = MethodIDWrite1 then handleWrite1 h call s
      else if m = MethodIDWrite2 then handleWrite2 h call s
      else if m = MethodIDWriteLine1 then handleWriteLine1 h call s
      else if m = MethodIDWriteLine2 then handleWriteLine2 h call s
      else if m = MethodIDWriteLine3 then handleWriteLine3 h call s
      else if m = MethodIDWriteErrorLine then handleWriteErrorLine h call s
      else if m = MethodIDWriteDebugLine then handleWriteDebugLine h call s
      else if m = MethodIDWriteProgress then handleWriteProgress h call s
      else if m = MethodIDWriteVerboseLine then handleWriteVerboseLine h call s
      else if m = MethodIDWriteWarningLine then handleWriteWarningLine h call s
      else if m = MethodIDPrompt then handlePrompt h call s
      else if m = MethodIDPromptForCredential1 then handlePromptForCredential1 h call s
      else if m = MethodIDPromptForCredential2 then handlePromptForCredential2 h call s
      else if m = MethodIDPromptForChoice then handlePromptForChoice h call s
      else if m = MethodIDPromptForChoiceMultipleSelection then handlePromptForChoiceMultipleSelection h call s
      else if m \<in> set raw_ui_methods then
        (s, Fail (EMsg (''RawUI method '' @ MethodID_String m @ '' not implemented'')))
      else if m \<in> set runspace_methods then
        (s, Fail (EMsg (''runspace method '' @ MethodID_String m @ '' not implemented'')))
      else (s, Fail (EMsg (''unsupported host method ID: '' @ itoa m))))"

definition HandleCall ::
  "(bytes \<Rightarrow> bytes outcome) \<Rightarrow> 's host option \<Rightarrow> remoteHostCall \<Rightarrow> 's \<Rightarrow>
    's \<times> remoteHostResponse outcome" where
  "HandleCall ns h call s =
     (case dispatch ns h call s of
        (s1, Ret v) \<Rightarrow>
          (s1, Ret \<lparr>RespCallID = CallID call, ExceptionRaised = False, ReturnValue = v\<rparr>)
      | (s1, Fail e) \<Rightarrow>
          (s1, Ret \<lparr>RespCallID = CallID call, ExceptionRaised = True,
                    ReturnValue = VString (err_text e)\<rparr>)
      | (s1, Panic p) \<Rightarrow> (s1, Panic p))"

end
