(* ===== verification/Host_Wire.thy ===== *)
theory Host_Wire
  imports Host_Callback Clixml_Theorems
begin

text \<open>
  The wire form of host callbacks (\<open>host/serialization.go\<close>) and the properties of the callback
  handling: the round trips of calls, responses and progress records through CLIXML, what a
  response always answers, and the calls whose answer cannot be encoded.
\<close>

section \<open>Encoding and decoding\<close>

definition host_call_type :: string where
  "host_call_type = ''Microsoft.PowerShell.Remoting.Internal.RemoteHostCall''"

definition host_response_type :: string where
  "host_response_type = ''Microsoft.PowerShell.Remoting.Internal.RemoteHostResponse''"

definition host_call_object :: "remoteHostCall \<Rightarrow> goval psobject" where
  "host_call_object call =
     props_object [host_call_type]
       [(''ci'', VInt64 (CallID call)), (''mi'', VInt32 (MethodID call)),
        (''mp'', VSlice (MethodParameters call))] []"

definition EncodeRemoteHostCall :: "codec_env \<Rightarrow> heap \<Rightarrow> remoteHostCall \<Rightarrow> bytes outcome" where
  "EncodeRemoteHostCall E h call =
     snd (Serialize E h (VObject (host_call_object call)) NewSerializer)"

definition decode_object :: "codec_env \<Rightarrow> string \<Rightarrow> bytes \<Rightarrow> (string \<times> goval) list outcome" where
  "decode_object E what data =
     and_then (wrap_err what (unmarshal E data)) (\<lambda>results.
       case results of
         [] \<Rightarrow> Fail (EMsg ''no objects in CLIXML'')
       | VObject ob # _ \<Rightarrow> Ret (Properties ob)
       | v # _ \<Rightarrow> Fail (EMsg (''expected PSObject, got '' @ go_type v)))"

definition call_id :: "(string \<times> goval) list \<Rightarrow> int outcome" where
  "call_id props =
     (case map_of props ''ci'' of
        None \<Rightarrow> Fail (EMsg ''missing CallID (ci) property'')
      | Some v \<Rightarrow>
          (case as_int v of
             Some i \<Rightarrow> Ret i
           | None \<Rightarrow> Fail (EMsg (''invalid CallID type: '' @ go_type v))))"

definition method_id :: "(string \<times> goval) list \<Rightarrow> int outcome" where
  "method_id props =
     (case map_of props ''mi'' of
        None \<Rightarrow> Fail (EMsg ''missing MethodID (mi) property'')
      | Some v \<Rightarrow>
          (case as_int v of
             Some i \<Rightarrow>
               if i < MinInt32 \<or> MaxInt32 < i then
                 Fail (EMsg (''MethodID out of range: '' @ itoa i))
               else Ret i
           | None \<Rightarrow> Fail (EMsg (''invalid MethodID type: '' @ go_type v))))"

definition method_params :: "(string \<times> goval) list \<Rightarrow> goval list outcome" where
  "method_params props =
     (case map_of props ''mp'' of
        None \<Rightarrow> Ret []
      | Some (VSlice ps) \<Rightarrow> Ret ps
      | Some v \<Rightarrow> Fail (EMsg (''invalid MethodParameters type: '' @ go_type v)))"

definition DecodeRemoteHostCall :: "codec_env \<Rightarrow> bytes \<Rightarrow> remoteHostCall outcome" where
  "DecodeRemoteHostCall E data =
     and_then (decode_object E ''deserialize host call'' data) (\<lambda>props.
     and_then (call_id props) (\<lambda>ci.
     and_then (method_id props) (\<lambda>mi.
     and_then (method_params props) (\<lambda>mp.
       Ret \<lparr>CallID = ci, MethodID = mi, MethodParameters = mp\<rparr>))))"

definition host_response_object :: "remoteHostResponse \<Rightarrow> goval psobject" where
  "host_response_object r =
     props_object [host_response_type]
       [(''ci'', VInt64 (RespCallID r)), (''er'', VBool (ExceptionRaised r)),
        (''rv'', ReturnValue r)] []"

definition EncodeRemoteHostResponse ::
  "codec_env \<Rightarrow> heap \<Rightarrow> remoteHostResponse \<Rightarrow> bytes outcome" where
  "EncodeRemoteHostResponse E h r =
     snd (Serialize E h (VObject (host_response_object r)) NewSerializer)"

definition exception_raised :: "(string \<times> goval) list \<Rightarrow> bool outcome" where
  "exception_raised props =
     (case map_of props ''er'' of
        None \<Rightarrow> Ret False
      | Some (VBool b) \<Rightarrow> Ret b
      | Some v \<Rightarrow> Fail (EMsg (''invalid ExceptionRaised type: '' @ go_type v)))"

definition DecodeRemoteHostResponse :: "codec_env \<Rightarrow> bytes \<Rightarrow> remoteHostResponse outcome" where
  "DecodeRemoteHostResponse E data =
     and_then (decode_object E ''deserialize host response'' data) (\<lambda>props.
     and_then (call_id props) (\<lambda>ci.
     and_then (exception_raised props) (\<lambda>er.
       Ret \<lparr>RespCallID = ci, ExceptionRaised = er, ReturnValue = lookup_or_nil props ''rv''\<rparr>)))"

section \<open>Round trips\<close>

lemma clean_names:
  "clean_value ''ci''" "clean_value ''mi''" "clean_value ''mp''" "clean_value ''er''" "clean_value ''rv''"
proof -
  have "name_ok n" if "n \<in> {''ci'', ''mi'', ''mp'', ''er'', ''rv''}" for n
    using that by (intro name_ok_ascii) (auto simp: of_char_def)
  then show "clean_value ''ci''" "clean_value ''mi''" "clean_value ''mp''" "clean_value ''er''"
    "clean_value ''rv''"
    by (auto simp: name_ok_def)
qed

lemma map_keys_sorted: "sorted (map fst m) \<Longrightarrow> distinct (map fst m) \<Longrightarrow> map_keys m = map fst m"
  by (simp add: map_keys_def sorted_sort_id distinct_remdups_id)

lemma fields_of_distinct: "distinct (map fst m) \<Longrightarrow> fields_of m (map fst m) = m"
proof (induction m)
  case (Cons a m)
  have "fields_of (a # m) (map fst m) = fields_of m (map fst m)"
    using Cons.prems by (cases a) (auto simp: fields_of_def lookup_or_nil_def image_iff)
  with Cons show ?case by (cases a) (auto simp: fields_of_def lookup_or_nil_def)
qed (simp add: fields_of_def)

text \<open>An object whose properties are listed in the order of their names.\<close>

lemma sorted_object_comes_back:
  assumes "sorted (map fst ps)" and "distinct (map fst ps)"
    and "list_all (\<lambda>(k, v). k \<noteq> [] \<and> clean_value k) ps"
    and "good_types tns" and "list_all clean tns" and "good_string str"
    and "list_all2 (rel_prod (=) (comes_back E)) ps items"
  shows "comes_back E (VObject (props_object tns ps str)) (VObject (PSObject tns items [] [] str VNil))"
proof -
  let ?ob = "props_object tns ps str"
  have k: "fields_of ps (map_keys ps) = ps"
    using assms(1,2) by (simp add: map_keys_sorted fields_of_distinct)
  have f: "obj_fields ?ob = ps" by (simp add: obj_fields_def props_object_def k)
  have "good_object ?ob"
    using assms(2-6) f by (simp add: good_object_def props_object_def)
  from back_object [OF this, of E items] assms(7) f show ?thesis
    by (simp add: props_object_def)
qed

lemma good_string_Nil [simp]: "good_string []"
  by (rule good_string_ascii) simp

lemma host_types:
  "good_types [host_call_type]" "list_all clean [host_call_type]"
  "good_types [host_response_type]" "list_all clean [host_response_type]"
proof -
  have "clean host_call_type" "clean host_response_type"
    by (rule clean_ascii, simp add: host_call_type_def host_response_type_def of_char_def)+
  then show "list_all clean [host_call_type]" "list_all clean [host_response_type]" by simp_all
qed (simp_all add: good_types_def host_call_type_def host_response_type_def typeNameHashtable_def)

lemma host_call_comes_back:
  assumes "in_signed 64 (CallID call)" and "in_signed 32 (MethodID call)"
    and "list_all2 (comes_back E) (MethodParameters call) ws"
  shows "comes_back E (VObject (host_call_object call)) (VObject (PSObject [host_call_type]
    [(''ci'', VInt64 (CallID call)), (''mi'', VInt32 (MethodID call)), (''mp'', VSlice ws)] [] [] [] VNil))"
  unfolding host_call_object_def
proof (rule sorted_object_comes_back)
  show "sorted (map fst [(''ci'', VInt64 (CallID call)), (''mi'', VInt32 (MethodID call)),
      (''mp'', VSlice (MethodParameters call))])" by simp
  show "list_all2 (rel_prod (=) (comes_back E))
      [(''ci'', VInt64 (CallID call)), (''mi'', VInt32 (MethodID call)), (''mp'', VSlice (MethodParameters call))]
      [(''ci'', VInt64 (CallID call)), (''mi'', VInt32 (MethodID call)), (''mp'', VSlice ws)]"
    using assms by (simp add: rel_prod_conv back_int64 back_int32 back_slice)
qed (simp_all add: clean_names host_types [simplified])

lemma host_response_comes_back:
  assumes "in_signed 64 (RespCallID r)" and "comes_back E (ReturnValue r) w"
  shows "comes_back E (VObject (host_response_object r)) (VObject (PSObject [host_response_type]
    [(''ci'', VInt64 (RespCallID r)), (''er'', VBool (ExceptionRaised r)), (''rv'', w)] [] [] [] VNil))"
  unfolding host_response_object_def
proof (rule sorted_object_comes_back)
  show "sorted (map fst [(''ci'', VInt64 (RespCallID r)), (''er'', VBool (ExceptionRaised r)),
      (''rv'', ReturnValue r)])" by simp
  show "list_all2 (rel_prod (=) (comes_back E))
      [(''ci'', VInt64 (RespCallID r)), (''er'', VBool (ExceptionRaised r)), (''rv'', ReturnValue r)]
      [(''ci'', VInt64 (RespCallID r)), (''er'', VBool (ExceptionRaised r)), (''rv'', w)]"
    using assms by (simp add: rel_prod_conv back_int64 back_bool)
qed (simp_all add: clean_names host_types [simplified])

lemma call_roundtrip:
  assumes "in_signed 64 (CallID call)" and "in_signed 32 (MethodID call)"
    and "list_all2 (comes_back E) (MethodParameters call) ws"
    and "\<forall>w\<in>set ws. height w \<le> 98"
  shows "\<exists>bs. EncodeRemoteHostCall E h call = Ret bs \<and>
    (MaxInt < int (length bs) \<or> DecodeRemoteHostCall E bs = Ret (call\<lparr>MethodParameters := ws\<rparr>))"
proof -
  let ?w = "VObject (PSObject [host_call_type]
    [(''ci'', VInt64 (CallID call)), (''mi'', VInt32 (MethodID call)), (''mp'', VSlice ws)] [] [] [] VNil)"
  have "foldr (\<lambda>x. max (height x)) ws 0 \<le> 98" using assms(4) by (induction ws) auto
  then have h: "height ?w \<le> 100" by simp
  have r: "MinInt32 \<le> MethodID call" "MethodID call \<le> MaxInt32"
    using assms(2) by (simp_all add: in_signed_def MinInt32_def MaxInt32_def)
  obtain bs where bs: "EncodeRemoteHostCall E h call = Ret bs"
    "MaxInt < int (length bs) \<or> unmarshal E bs = Ret [?w]"
    using document_roundtrip [OF host_call_comes_back [OF assms(1-3)] h]
    by (auto simp: EncodeRemoteHostCall_def)
  have "unmarshal E bs = Ret [?w] \<Longrightarrow> DecodeRemoteHostCall E bs = Ret (call\<lparr>MethodParameters := ws\<rparr>)"
    using r by (simp add: DecodeRemoteHostCall_def decode_object_def call_id_def method_id_def
        method_params_def as_int_def)
  with bs show ?thesis by auto
qed

text \<open>
  C28. A host call that is encoded and decoded is the same call, with its parameters as CLIXML
  brings them back, unless the document is longer than any Go slice.
\<close>

theorem host_call_roundtrip:
  assumes "in_signed 64 (CallID call)" and "in_signed 32 (MethodID call)"
    and "list_all2 (comes_back E) (MethodParameters call) ws"
    and "\<forall>w\<in>set ws. height w \<le> 98"
  shows "\<exists>bs. EncodeRemoteHostCall E h call = Ret bs \<and>
    (MaxInt < int (length bs) \<or> DecodeRemoteHostCall E bs = Ret (call\<lparr>MethodParameters := ws\<rparr>))"
  by (rule call_roundtrip [OF assms])

lemma response_roundtrip:
  assumes "in_signed 64 (RespCallID r)" and "comes_back E (ReturnValue r) w" and "height w \<le> 99"
  shows "\<exists>bs. EncodeRemoteHostResponse E h r = Ret bs \<and>
    (MaxInt < int (length bs) \<or> DecodeRemoteHostResponse E bs = Ret (r\<lparr>ReturnValue := w\<rparr>))"
proof -
  let ?w = "VObject (PSObject [host_response_type]
    [(''ci'', VInt64 (RespCallID r)), (''er'', VBool (ExceptionRaised r)), (''rv'', w)] [] [] [] VNil)"
  have h: "height ?w \<le> 100" using assms(3) by simp
  obtain bs where bs: "EncodeRemoteHostResponse E h r = Ret bs"
    "MaxInt < int (length bs) \<or> unmarshal E bs = Ret [?w]"
    using document_roundtrip [OF host_response_comes_back [OF assms(1,2)] h]
    by (auto simp: EncodeRemoteHostResponse_def)
  have "unmarshal E bs = Ret [?w] \<Longrightarrow> DecodeRemoteHostResponse E bs = Ret (r\<lparr>ReturnValue := w\<rparr>)"
    by (simp add: DecodeRemoteHostResponse_def decode_object_def call_id_def exception_raised_def
        lookup_or_nil_def as_int_def)
  with bs show ?thesis by auto
qed

text \<open>
  C16. A host response that is encoded and decoded is the same response, with its return value as
  CLIXML brings it back.
\<close>

theorem host_response_roundtrip:
  assumes "in_signed 64 (RespCallID r)" and "comes_back E (ReturnValue r) w" and "height w \<le> 99"
  shows "\<exists>bs. EncodeRemoteHostResponse E h r = Ret bs \<and>
    (MaxInt < int (length bs) \<or> DecodeRemoteHostResponse E bs = Ret (r\<lparr>ReturnValue := w\<rparr>))"
  by (rule response_roundtrip [OF assms])

theorem host_call_roundtrip_witness:
  "\<exists>bs. EncodeRemoteHostCall no_env fmempty \<lparr>CallID = 7, MethodID = 15, MethodParameters = [VInt 3, VNil]\<rparr> = Ret bs \<and>
    (MaxInt < int (length bs) \<or> DecodeRemoteHostCall no_env bs =
      Ret \<lparr>CallID = 7, MethodID = 15, MethodParameters = [VInt32 3, VNil]\<rparr>)"
proof -
  have "comes_back no_env (VInt 3) (VInt32 3)"
    using back_int [of no_env 3] by (simp add: safeInt32_def MaxInt32_def MinInt32_def)
  then show ?thesis
    using host_call_roundtrip [of "\<lparr>CallID = 7, MethodID = 15, MethodParameters = [VInt 3, VNil]\<rparr>"
        no_env "[VInt32 3, VNil]" fmempty]
    by (simp add: in_signed_def back_nil)
qed

theorem host_response_roundtrip_witness:
  "\<exists>bs. EncodeRemoteHostResponse no_env fmempty
      \<lparr>RespCallID = 7, ExceptionRaised = False, ReturnValue = VBool True\<rparr> = Ret bs \<and>
    (MaxInt < int (length bs) \<or> DecodeRemoteHostResponse no_env bs =
      Ret \<lparr>RespCallID = 7, ExceptionRaised = False, ReturnValue = VBool True\<rparr>)"
  using host_response_roundtrip [of "\<lparr>RespCallID = 7, ExceptionRaised = False, ReturnValue = VBool True\<rparr>"
      no_env "VBool True" fmempty]
  by (simp add: in_signed_def back_bool)

section \<open>Progress records\<close>

text \<open>The record with its numbers brought into the range of an \<open>int32\<close>.\<close>

definition clamp_progress :: "progressRecord \<Rightarrow> progressRecord" where
  "clamp_progress r =
     r\<lparr>prActivityID := safeInt32 (prActivityID r), prParentActivityID := safeInt32 (prParentActivityID r),
       prPercentComplete := safeInt32 (prPercentComplete r),
       prSecondsRemaining := safeInt32 (prSecondsRemaining r),
       prRecordType := safeInt32 (prRecordType r)\<rparr>"

lemma safeInt32_small [simp]: "in_signed 32 i \<Longrightarrow> safeInt32 i = i"
  by (simp add: in_signed_def safeInt32_def MaxInt32_def MinInt32_def)

lemma safeInt32_range [simp]: "in_signed 32 (safeInt32 i)"
  by (simp add: in_signed_def safeInt32_def MaxInt32_def MinInt32_def)

text \<open>The fields of a progress record in the order of the document.\<close>

definition progress_fields :: "progressRecord \<Rightarrow> (string \<times> goval) list" where
  "progress_fields r =
     [(''Activity'', VString (prActivity r)), (''ActivityId'', VInt32 (safeInt32 (prActivityID r))),
      (''CurrentOperation'', VString (prCurrentOperation r)),
      (''ParentActivityId'', VInt32 (safeInt32 (prParentActivityID r))),
      (''PercentComplete'', VInt32 (safeInt32 (prPercentComplete r))),
      (''RecordType'', VInt32 (safeInt32 (prRecordType r))),
      (''SecondsRemaining'', VInt32 (safeInt32 (prSecondsRemaining r))),
      (''StatusDescription'', VString (prStatusDescription r))]"

lemma progress_keys:
  "obj_fields (ProgressRecordToPSObject r) = progress_fields r"
proof -
  have "map_keys (Properties (ProgressRecordToPSObject r)) = map fst (progress_fields r)"
    by (simp add: ProgressRecordToPSObject_def props_object_def map_keys_def progress_fields_def)
  moreover have "Members (ProgressRecordToPSObject r) = []"
    by (simp add: ProgressRecordToPSObject_def props_object_def)
  ultimately show ?thesis
    by (simp add: obj_fields_def fields_of_def lookup_or_nil_def progress_fields_def
        ProgressRecordToPSObject_def props_object_def)
qed

lemma progress_comes_back:
  assumes "list_all good_string [prActivity r, prStatusDescription r, prCurrentOperation r]"
  shows "comes_back E (VProgress r)
    (VObject (PSObject (TypeNames (ProgressRecordToPSObject r)) (progress_fields r) [] [] [] VNil))"
proof (rule back_progress)
  let ?ob = "ProgressRecordToPSObject r"
  have t: "TypeNames ?ob = [''System.Management.Automation.ProgressRecord'', ''System.Object'']"
    "ObjToString ?ob = []" "Members ?ob = []"
    by (simp_all add: ProgressRecordToPSObject_def props_object_def)
  have c: "clean ''System.Management.Automation.ProgressRecord''" "clean ''System.Object''"
    by (rule clean_ascii, simp add: of_char_def)+
  have n: "clean_value n" if "n \<in> fst ` set (progress_fields r)" for n
  proof -
    have "name_ok n" using that by (intro name_ok_ascii) (auto simp: progress_fields_def of_char_def)
    then show ?thesis using that by (auto simp: name_ok_def progress_fields_def)
  qed
  have "good_object ?ob"
    using t c n
    by (auto simp: good_object_def progress_keys good_types_def progress_fields_def)
  moreover have "list_all2 (rel_prod (=) (comes_back E)) (obj_fields ?ob) (progress_fields r)"
    unfolding progress_keys using assms
    by (simp add: progress_fields_def rel_prod_conv back_string back_int32)
  ultimately show "comes_back E (VObject ?ob)
      (VObject (PSObject (TypeNames ?ob) (progress_fields r) [] [] [] VNil))"
    using back_object [of ?ob E "progress_fields r"] t(2) by simp
qed

text \<open>
  A progress record goes through CLIXML into the record that the callback handler makes of
  it again, with numbers outside the range of an \<open>int32\<close> brought to its bounds.
\<close>

theorem progress_roundtrip:
  assumes "list_all good_string [prActivity r, prStatusDescription r, prCurrentOperation r]"
  shows "\<exists>bs. marshal E h (VProgress r) = Ret bs \<and>
    (MaxInt < int (length bs) \<or>
     (\<exists>v. unmarshal E bs = Ret [v] \<and> convertToProgressRecord v = Ret (clamp_progress r)))"
proof -
  let ?w = "VObject (PSObject (TypeNames (ProgressRecordToPSObject r)) (progress_fields r) [] [] [] VNil)"
  have "height ?w \<le> 100" by (simp add: progress_fields_def)
  from document_roundtrip [OF progress_comes_back [OF assms] this] obtain bs where
    "marshal E h (VProgress r) = Ret bs" "MaxInt < int (length bs) \<or> unmarshal E bs = Ret [?w]"
    by blast
  moreover have "convertToProgressRecord ?w = Ret (clamp_progress r)"
    by (simp add: convertToProgressRecord_def props_of_def clamp_progress_def progress_fields_def
        string_prop_def int32_prop_def)
  ultimately show ?thesis by auto
qed

definition demo_progress :: progressRecord where
  "demo_progress =
     \<lparr>prActivityID = 1, prParentActivityID = - 1, prActivity = ''Copy'', prStatusDescription = ''half'',
      prCurrentOperation = [], prPercentComplete = 50, prSecondsRemaining = 3000000000, prRecordType = 0\<rparr>"

theorem progress_roundtrip_witness:
  "\<exists>bs. marshal no_env fmempty (VProgress demo_progress) = Ret bs \<and>
    (MaxInt < int (length bs) \<or>
     (\<exists>v. unmarshal no_env bs = Ret [v] \<and>
        convertToProgressRecord v = Ret (demo_progress\<lparr>prSecondsRemaining := 2147483647\<rparr>)))"
proof -
  have "list_all good_string [prActivity demo_progress, prStatusDescription demo_progress,
      prCurrentOperation demo_progress]"
    by (simp add: demo_progress_def good_string_ascii of_char_def)
  from progress_roundtrip [OF this, of no_env fmempty] show ?thesis
    by (simp add: clamp_progress_def demo_progress_def safeInt32_def MaxInt32_def MinInt32_def)
qed

section \<open>Answers\<close>

lemmas handler_defs =
  handleGetName_def handleGetVersion_def handleGetInstanceID_def handleGetCurrentCulture_def
  handleGetCurrentUICulture_def handleSetShouldExit_def handleEnterNestedPrompt_def
  handleExitNestedPrompt_def handleNotifyBeginApplication_def handleNotifyEndApplication_def
  handleReadLine_def handleReadLineAsSecureString_def handleWrite1_def handleWrite2_def
  handleWriteLine1_def handleWriteLine2_def handleWriteLine3_def handleWriteErrorLine_def
  handleWriteDebugLine_def handleWriteProgress_def handleWriteVerboseLine_def
  handleWriteWarningLine_def handlePrompt_def handlePromptForCredential1_def
  handlePromptForCredential2_def handlePromptForChoice_def
  handlePromptForChoiceMultipleSelection_def

lemma method_id_numbers:
  "set raw_ui_methods = {27..51}" "set runspace_methods = {52..55}"
proof -
  have raw: "raw_ui_methods = [27..51]"
    by (simp add: raw_ui_methods_def method_id_defs upto_rec_numeral upto.simps)
  have rs: "runspace_methods = [52..55]"
    by (simp add: runspace_methods_def method_id_defs upto_rec_numeral upto.simps)
  show "set raw_ui_methods = {27..51}" unfolding raw by (rule set_upto)
  show "set runspace_methods = {52..55}" unfolding rs by (rule set_upto)
qed

text \<open>
  A method that the client does not implement (the nested prompts, the raw user interface and
  the runspace methods, and every identifier outside 1 to 56) touches nothing and is answered
  with an exception.
\<close>

theorem unimplemented_method_refused:
  assumes "MethodID call \<in> {7, 8} \<union> {27..55} \<or> MethodID call < 1 \<or> 56 < MethodID call"
  shows "\<exists>t. HandleCall ns h call s =
    (s, Ret \<lparr>RespCallID = CallID call, ExceptionRaised = True, ReturnValue = VString t\<rparr>)"
proof -
  have "MethodID call \<noteq> 56 \<and> (MethodID call < 1 \<or> 26 < MethodID call \<or> MethodID call = 7 \<or> MethodID call = 8)"
    using assms by auto
  then have "\<exists>t. dispatch ns h call s = (s, Fail (EMsg t))"
    unfolding dispatch_def Let_def method_id_numbers
    by (elim conjE disjE)
      (auto simp: method_id_defs handleEnterNestedPrompt_def handleExitNestedPrompt_def)
  then show ?thesis by (auto simp: HandleCall_def)
qed

theorem unimplemented_method_refused_witness:
  "\<exists>t. HandleCall Ret (None :: unit host option) \<lparr>CallID = 9, MethodID = 27, MethodParameters = []\<rparr> () =
    ((), Ret \<lparr>RespCallID = 9, ExceptionRaised = True, ReturnValue = VString t\<rparr>)"
  using unimplemented_method_refused [of "\<lparr>CallID = 9, MethodID = 27, MethodParameters = []\<rparr>" Ret
      "None :: unit host option" "()"] by simp

text \<open>The answers that no serializer takes.\<close>

lemma unsupported_return:
  "\<exists>e. EncodeRemoteHostResponse E hp \<lparr>RespCallID = i, ExceptionRaised = x, ReturnValue = VOther t\<rparr> = Fail e \<and>
    errors_is e ErrUnsupportedType"
proof -
  let ?ob = "host_response_object \<lparr>RespCallID = i, ExceptionRaised = x, ReturnValue = VOther t\<rparr>"
  have k: "map_keys (Properties ?ob) = [''ci'', ''er'', ''rv'']" "Members ?ob = []" "Properties ?ob \<noteq> []"
    by (simp_all add: host_response_object_def props_object_def map_keys_def)
  have v: "lookup_or_nil (Properties ?ob) ''ci'' = VInt64 i" "lookup_or_nil (Properties ?ob) ''er'' = VBool x"
    "lookup_or_nil (Properties ?ob) ''rv'' = VOther t"
    by (simp_all add: host_response_object_def props_object_def lookup_or_nil_def)
  show ?thesis
    by (simp add: EncodeRemoteHostResponse_def Serialize_def returning_buf_def ser_obj.simps k v
        ok_def [symmetric])
qed

lemma getversion_unencodable:
  assumes "MethodID call = MethodIDGetVersion"
  shows "\<exists>r e. HandleCall ns h call s = (s, Ret r) \<and> EncodeRemoteHostResponse E hp r = Fail e \<and>
    errors_is e ErrUnsupportedType"
proof -
  have "dispatch ns h call s = (s, Ret (VOther ''host.Version''))"
    using assms by (simp add: dispatch_def handleGetVersion_def method_id_defs)
  then show ?thesis
    using unsupported_return [of E hp "CallID call" False "''host.Version''"]
    by (simp add: HandleCall_def)
qed

text \<open>
  The answer to GetVersion cannot be encoded, whatever the host is: the version is a type that
  the serializer does not know. The answer to a credential prompt cannot be encoded either, also
  when \<open>NullHost\<close> answers that there is no credential.
\<close>

theorem version_answer_unencodable:
  "(MethodID call = MethodIDGetVersion \<longrightarrow>
    (\<exists>r e. HandleCall ns h call s = (s, Ret r) \<and> EncodeRemoteHostResponse E hp r = Fail e \<and>
       errors_is e ErrUnsupportedType)) \<and>
   (MethodID call = MethodIDPromptForCredential1 \<longrightarrow>
      MethodParameters call = [VString c, VString m, VString u, VString t] \<longrightarrow>
    (\<exists>r e. HandleCall ns (Some (NewNullHost ns)) call s = (s, Ret r) \<and>
       EncodeRemoteHostResponse E hp r = Fail e \<and> errors_is e ErrUnsupportedType))"
proof (intro conjI impI)
  assume "MethodID call = MethodIDGetVersion"
  then show "\<exists>r e. HandleCall ns h call s = (s, Ret r) \<and> EncodeRemoteHostResponse E hp r = Fail e \<and>
      errors_is e ErrUnsupportedType"
    by (rule getversion_unencodable)
next
  assume "MethodID call = MethodIDPromptForCredential1"
    and "MethodParameters call = [VString c, VString m, VString u, VString t]"
  then have "dispatch ns (Some (NewNullHost ns)) call s = (s, Ret (VOther ''*objects.PSCredential''))"
    by (simp add: dispatch_def handlePromptForCredential1_def method_id_defs checked_def need_params_def
        param_string_def the_ui_def NewNullHost_def NullHostUI_def returning_def numeral_nat)
  then show "\<exists>r e. HandleCall ns (Some (NewNullHost ns)) call s = (s, Ret r) \<and>
      EncodeRemoteHostResponse E hp r = Fail e \<and> errors_is e ErrUnsupportedType"
    using unsupported_return [of E hp "CallID call" False "''*objects.PSCredential''"]
    by (simp add: HandleCall_def)
qed

theorem version_answer_unencodable_witness:
  "\<exists>r e. HandleCall Ret (None :: unit host option) \<lparr>CallID = 1, MethodID = 2, MethodParameters = []\<rparr> () =
      ((), Ret r) \<and> EncodeRemoteHostResponse no_env fmempty r = Fail e \<and> errors_is e ErrUnsupportedType"
  using version_answer_unencodable [THEN conjunct1, rule_format,
      of "\<lparr>CallID = 1, MethodID = 2, MethodParameters = []\<rparr>" Ret "None :: unit host option" "()" no_env fmempty]
  by (simp add: MethodIDGetVersion_def)

text \<open>
  The interface of a host whose methods only move the client's state along a relation: then so does
  every host call.
\<close>

locale confined_host =
  fixes h :: "'s host option" and R :: "'s \<Rightarrow> 's \<Rightarrow> bool"
  assumes stays: "R s s"
    and writes: "the_ui h = Some ui \<Longrightarrow> R s (uiWrite ui t s) \<and> R s (uiWriteLine ui t s) \<and>
      R s (uiWriteErrorLine ui t s) \<and> R s (uiWriteDebugLine ui t s) \<and>
      R s (uiWriteVerboseLine ui t s) \<and> R s (uiWriteWarningLine ui t s) \<and>
      R s (uiWriteProgress ui i r s)"
    and reads: "the_ui h = Some ui \<Longrightarrow> R s (fst (uiReadLine ui s)) \<and>
      R s (fst (uiReadLineAsSecureString ui s)) \<and> R s (fst (uiPrompt ui c m ds s)) \<and>
      R s (fst (uiPromptForCredential ui c m u t ct co s)) \<and>
      R s (fst (uiPromptForChoice ui c m cs i s))"
begin

lemma sinks:
  "R s (sink_ui uiWrite h t s)" "R s (sink_ui uiWriteLine h t s)" "R s (sink_ui uiWriteErrorLine h t s)"
  "R s (sink_ui uiWriteDebugLine h t s)" "R s (sink_ui uiWriteVerboseLine h t s)"
  "R s (sink_ui uiWriteWarningLine h t s)" "R s (sink_ui (\<lambda>ui. uiWriteProgress ui i) h r s)"
  using stays writes by (simp_all add: sink_ui_def split: option.split)

lemma checked_confined: "(\<And>x. R s (fst (f x s))) \<Longrightarrow> R s (fst (checked r f s))"
  using stays by (cases r) (simp_all add: checked_def)

lemma returning_confined: "R s (fst r) \<Longrightarrow> R s (fst (returning f r))"
  by (simp add: returning_def)

lemmas confined = stays sinks checked_confined returning_confined

lemma handlers:
  "R s (fst (handleGetName h call s))" "R s (fst (handleGetVersion h call s))"
  "R s (fst (handleGetInstanceID h call s))" "R s (fst (handleGetCurrentCulture h call s))"
  "R s (fst (handleGetCurrentUICulture h call s))" "R s (fst (handleSetShouldExit call s))"
  "R s (fst (handleEnterNestedPrompt call s))" "R s (fst (handleExitNestedPrompt call s))"
  "R s (fst (handleNotifyBeginApplication call s))" "R s (fst (handleNotifyEndApplication call s))"
  "R s (fst (handleReadLine h call s))" "R s (fst (handleReadLineAsSecureString ns h call s))"
  "R s (fst (handleWrite1 h call s))" "R s (fst (handleWrite2 h call s))"
  "R s (fst (handleWriteLine1 h call s))" "R s (fst (handleWriteLine2 h call s))"
  "R s (fst (handleWriteLine3 h call s))" "R s (fst (handleWriteErrorLine h call s))"
  "R s (fst (handleWriteDebugLine h call s))" "R s (fst (handleWriteProgress h call s))"
  "R s (fst (handleWriteVerboseLine h call s))" "R s (fst (handleWriteWarningLine h call s))"
  "R s (fst (handlePrompt h call s))" "R s (fst (handlePromptForCredential1 h call s))"
  "R s (fst (handlePromptForCredential2 h call s))" "R s (fst (handlePromptForChoice h call s))"
  "R s (fst (handlePromptForChoiceMultipleSelection h call s))"
  by (simp_all add: handler_defs stays, (auto intro!: confined simp: reads stays split: option.split)+)

lemma HandleCall_confined: "R s (fst (HandleCall ns h call s))"
proof -
  have "R s (fst (dispatch ns h call s))"
    unfolding dispatch_def Let_def by (simp add: handlers stays)
  then show ?thesis by (auto simp: HandleCall_def split: prod.splits outcome.splits)
qed

end

interpretation null_host: confined_host "Some (NewNullHost ns)" "(=)" for ns
  by unfold_locales (auto simp: the_ui_def NewNullHost_def NullHostUI_def)

text \<open>
  The default host is inert: no call, whatever its method and its arguments, changes the state
  of the client.
\<close>

theorem null_host_inert: "fst (HandleCall ns (Some (NewNullHost ns)) call s) = s"
  using null_host.HandleCall_confined [of s ns ns call] by simp

end
