(* ===== verification/Pipeline.thy ===== *)
theory Pipeline
  imports Go_Chan Fragments Host_Wire
begin

text \<open>
  The command pipeline (\<open>pipeline/pipeline.go\<close>): its record, the constructors, the client's
  operations, the delivery of the server's messages and the state transitions. The transport that
  the pipeline was created with, an interface of the source, is an argument of the operations that
  send: a record of its two methods, over a state of type \<open>'t\<close> that the transport owns. Blocking
  is made explicit: a delivery that finds the buffer of its stream full is \<open>Blocked\<close>, and
  \<open>blocked_send\<close> is the select statement that the goroutine waits in. Logging is left out.
\<close>

section \<open>State\<close>

datatype pipelineState =
    StateNotStarted | StateRunning | StateStopping | StateStopped | StateCompleted | StateFailed
  | StateDisconnected

fun State_String :: "pipelineState \<Rightarrow> string" where
  "State_String StateNotStarted = ''NotStarted''"
| "State_String StateRunning = ''Running''"
| "State_String StateStopping = ''Stopping''"
| "State_String StateStopped = ''Stopped''"
| "State_String StateCompleted = ''Completed''"
| "State_String StateFailed = ''Failed''"
| "State_String StateDisconnected = ''Disconnected''"

text \<open>The seven channels of a pipeline, by the stream that each carries.\<close>

datatype stream =
    OutputStream | ErrorStream | WarningStream | VerboseStream | DebugStream | ProgressStream
  | InformationStream

definition all_streams :: "stream list" where
  "all_streams =
     [OutputStream, ErrorStream, WarningStream, VerboseStream, DebugStream, ProgressStream,
      InformationStream]"

fun stream_name :: "stream \<Rightarrow> string" where
  "stream_name OutputStream = ''output''"
| "stream_name ErrorStream = ''error''"
| "stream_name WarningStream = ''warning''"
| "stream_name VerboseStream = ''verbose''"
| "stream_name DebugStream = ''debug''"
| "stream_name ProgressStream = ''progress''"
| "stream_name InformationStream = ''information''"

record 't transport =
  tSendMessage :: "context_state \<Rightarrow> message \<Rightarrow> 't \<Rightarrow> 't \<times> unit outcome"
  tHost :: "'t host option"

record pipeline =
  pipeID :: uuid
  pipeRunspace :: uuid
  pipeState :: pipelineState
  pipePowerShell :: "goval powershell"
  pipeStreams :: "stream \<Rightarrow> message chan"
  pipeDone :: bool
  pipeErr :: "gerr option"
  pipeCtx :: context_state
  pipeTimeout :: int
  skipInvokeSend :: bool

definition DefaultChannelTimeout :: int where
  "DefaultChannelTimeout = 5000000000"

definition streamBuffer :: nat where
  "streamBuffer = 100"

text \<open>
  The constructors. \<open>uuid.New\<close> is random: the new identifier is an argument. The context is that of
  the caller, or the background context, which is never done.
\<close>

definition NewWithContext :: "uuid \<Rightarrow> context_state \<Rightarrow> uuid \<Rightarrow> string \<Rightarrow> pipeline" where
  "NewWithContext newID ctx rpid command =
     \<lparr>pipeID = newID, pipeRunspace = rpid, pipeState = StateNotStarted,
      pipePowerShell = PowerShell_AddCommand NewPowerShell command True,
      pipeStreams = (\<lambda>s. make_chan streamBuffer), pipeDone = False, pipeErr = None, pipeCtx = ctx,
      pipeTimeout = DefaultChannelTimeout, skipInvokeSend = False\<rparr>"

definition NewPipeline :: "uuid \<Rightarrow> uuid \<Rightarrow> string \<Rightarrow> pipeline" where
  "NewPipeline newID rpid command = NewWithContext newID None rpid command"

definition NewWithID :: "uuid \<Rightarrow> uuid \<Rightarrow> pipeline" where
  "NewWithID rpid pid =
     \<lparr>pipeID = pid, pipeRunspace = rpid, pipeState = StateRunning, pipePowerShell = NewPowerShell,
      pipeStreams = (\<lambda>s. make_chan streamBuffer), pipeDone = False, pipeErr = None, pipeCtx = None,
      pipeTimeout = DefaultChannelTimeout, skipInvokeSend = False\<rparr>"

definition NewBuilder :: "uuid \<Rightarrow> uuid \<Rightarrow> pipeline" where
  "NewBuilder newID rpid =
     \<lparr>pipeID = newID, pipeRunspace = rpid, pipeState = StateNotStarted,
      pipePowerShell = NewPowerShell,
      pipeStreams = (\<lambda>s. make_chan streamBuffer), pipeDone = False, pipeErr = None, pipeCtx = None,
      pipeTimeout = DefaultChannelTimeout, skipInvokeSend = False\<rparr>"

lemmas constructors = NewWithContext_def NewPipeline_def NewWithID_def NewBuilder_def

section \<open>Configuration\<close>

definition SkipInvokeSend :: "pipeline \<Rightarrow> pipeline" where
  "SkipInvokeSend p = p\<lparr>skipInvokeSend := True\<rparr>"

definition AddCommand :: "string \<Rightarrow> bool \<Rightarrow> pipeline \<Rightarrow> pipeline" where
  "AddCommand name isScript p =
     p\<lparr>pipePowerShell := PowerShell_AddCommand (pipePowerShell p) name isScript\<rparr>"

definition AddParameter :: "string \<Rightarrow> goval \<Rightarrow> pipeline \<Rightarrow> pipeline" where
  "AddParameter name v p =
     p\<lparr>pipePowerShell := PowerShell_AddParameter (pipePowerShell p) name v\<rparr>"

definition AddArgument :: "goval \<Rightarrow> pipeline \<Rightarrow> pipeline" where
  "AddArgument v p = AddParameter [] v p"

definition SetChannelTimeout :: "int \<Rightarrow> pipeline \<Rightarrow> pipeline" where
  "SetChannelTimeout timeout p = p\<lparr>pipeTimeout := timeout\<rparr>"

definition Cancel :: "pipeline \<Rightarrow> pipeline" where
  "Cancel p = p\<lparr>pipeCtx := ctx_cancel CtxCanceled (pipeCtx p)\<rparr>"

lemmas config_defs =
  SkipInvokeSend_def AddCommand_def AddParameter_def AddArgument_def SetChannelTimeout_def Cancel_def

section \<open>Transitions\<close>

definition terminal :: "pipelineState \<Rightarrow> bool" where
  "terminal st \<longleftrightarrow>
     st = StateCompleted \<or> st = StateFailed \<or> st = StateStopped \<or> st = StateDisconnected"

fun close_streams ::
  "stream list \<Rightarrow> (stream \<Rightarrow> message chan) \<Rightarrow> (stream \<Rightarrow> message chan) outcome" where
  "close_streams [] chans = Ret chans"
| "close_streams (s # ss) chans =
     and_then (chan_close (chans s)) (\<lambda>c. close_streams ss (chans(s := c)))"

definition close_all :: "pipeline \<Rightarrow> pipeline \<times> unit outcome" where
  "close_all p =
     (let p1 = p\<lparr>pipeDone := True\<rparr> in
      case close_streams all_streams (pipeStreams p1) of
        Ret chans \<Rightarrow> ok (Cancel (p1\<lparr>pipeStreams := chans\<rparr>))
      | Fail e \<Rightarrow> (p1, Fail e)
      | Panic x \<Rightarrow> (p1, Panic x))"

definition transition :: "pipelineState \<Rightarrow> gerr option \<Rightarrow> pipeline \<Rightarrow> pipeline \<times> unit outcome" where
  "transition newState err p =
     (if pipeState p = newState then ok p
      else if terminal (pipeState p) then ok p
      else
        let p1 = p\<lparr>pipeState := newState, pipeErr := err\<rparr> in
        if terminal newState then (if pipeDone p1 then ok p1 else close_all p1)
        else ok p1)"

definition Pipeline_Fail :: "gerr \<Rightarrow> pipeline \<Rightarrow> pipeline \<times> unit outcome" where
  "Pipeline_Fail err p = transition StateFailed (Some err) p"

section \<open>Messages for the transport\<close>

fun flatten_fragments :: "string \<Rightarrow> fragment list \<Rightarrow> bytes outcome" where
  "flatten_fragments what [] = Ret []"
| "flatten_fragments what (f # fs) =
     and_then (wrap_err what (Fragment_Encode f)) (\<lambda>b.
     and_then (flatten_fragments what fs) (\<lambda>bs. Ret (b @ bs)))"

definition message_fragments :: "fragmenter \<Rightarrow> message \<Rightarrow> fragment list outcome" where
  "message_fragments fr msg =
     and_then (wrap_err ''encode message'' (Message_Encode msg)) (\<lambda>encoded.
       wrap_err ''fragment message'' (snd (Fragmenter_Fragment fr encoded)))"

definition create_pipeline_data ::
  "codec_env \<Rightarrow> heap \<Rightarrow> fragmenter \<Rightarrow> pipeline \<Rightarrow> bytes outcome" where
  "create_pipeline_data E h fr p =
     and_then (wrap_err ''serialize command''
         (snd (SerializeRaw E h (VPowerShell (pipePowerShell p)) NewSerializer))) (\<lambda>cmdData.
     and_then (message_fragments fr (NewCreatePipeline (pipeRunspace p) (pipeID p) cmdData)) (\<lambda>frags.
       if frags = [] then Fail (EMsg ''no fragments generated'')
       else flatten_fragments ''encode fragment'' frags))"

definition GetCreatePipelineData :: "codec_env \<Rightarrow> heap \<Rightarrow> pipeline \<Rightarrow> bytes outcome" where
  "GetCreatePipelineData E h p = create_pipeline_data E h (NewFragmenter 307200) p"

definition GetCreatePipelineDataWithID ::
  "codec_env \<Rightarrow> heap \<Rightarrow> uint64 \<Rightarrow> pipeline \<Rightarrow> bytes outcome" where
  "GetCreatePipelineDataWithID E h startObjectID p =
     create_pipeline_data E h (NewFragmenterWithID 32768 (startObjectID - 1)) p"

definition GetCloseInputData :: "pipeline \<Rightarrow> bytes outcome" where
  "GetCloseInputData p =
     and_then (message_fragments (NewFragmenter 32768)
         (NewEndOfPipelineInput (pipeRunspace p) (pipeID p))) (flatten_fragments ''encode fragment'')"

section \<open>The client's operations\<close>

text \<open>A failure of \<open>Invoke\<close> also fails the pipeline.\<close>

definition invoke_failed ::
  "string \<Rightarrow> gerr \<Rightarrow> pipeline \<Rightarrow> 't \<Rightarrow> (pipeline \<times> 't) \<times> unit outcome" where
  "invoke_failed what e p t =
     (case transition StateFailed (Some e) p of
        (p1, Panic x) \<Rightarrow> ((p1, t), Panic x)
      | (p1, _) \<Rightarrow> ((p1, t), Fail (EWrap what e)))"

definition Invoke ::
  "codec_env \<Rightarrow> heap \<Rightarrow> 't transport \<Rightarrow> context_state \<Rightarrow> pipeline \<times> 't \<Rightarrow>
    (pipeline \<times> 't) \<times> unit outcome" where
  "Invoke E h tr ctx = (\<lambda>(p, t).
     if pipeState p \<noteq> StateNotStarted then ((p, t), Fail (EIs ErrPipelineInvalidState))
     else
       let p1 = p\<lparr>pipeState := StateRunning\<rparr> in
       if skipInvokeSend p1 then ok (p1, t)
       else case snd (SerializeRawUnsafe E h (VPowerShell (pipePowerShell p1)) NewSerializer) of
           Panic x \<Rightarrow> ((p1, t), Panic x)
         | Fail e \<Rightarrow> invoke_failed ''serialize command'' e p1 t
         | Ret cmdData \<Rightarrow>
             (case tSendMessage tr ctx (NewCreatePipeline (pipeRunspace p1) (pipeID p1) cmdData) t of
                (t1, Ret _) \<Rightarrow> ok (p1, t1)
              | (t1, Fail e) \<Rightarrow> invoke_failed ''send create pipeline'' e p1 t1
              | (t1, Panic x) \<Rightarrow> ((p1, t1), Panic x)))"

text \<open>The operations of a running pipeline send one message, or refuse.\<close>

definition not_running :: "string \<Rightarrow> pipeline \<Rightarrow> gerr" where
  "not_running what p =
     EWrap (what @ '' (state='' @ State_String (pipeState p) @ '')'') (EIs ErrPipelineInvalidState)"

definition send_from ::
  "'t transport \<Rightarrow> context_state \<Rightarrow> string \<Rightarrow> message \<Rightarrow> pipeline \<Rightarrow> 't \<Rightarrow>
    (pipeline \<times> 't) \<times> unit outcome" where
  "send_from tr ctx what msg p t =
     (case tSendMessage tr ctx msg t of (t1, r) \<Rightarrow> ((p, t1), wrap_err what r))"

definition Stop ::
  "'t transport \<Rightarrow> context_state \<Rightarrow> pipeline \<times> 't \<Rightarrow> (pipeline \<times> 't) \<times> unit outcome" where
  "Stop tr ctx = (\<lambda>(p, t).
     if pipeState p \<noteq> StateRunning then
       ((p, t), Fail (not_running ''cannot stop pipeline that is not running'' p))
     else
       let p1 = p\<lparr>pipeState := StateStopping\<rparr> in
       send_from tr ctx ''send signal'' (NewSignal (pipeRunspace p1) (pipeID p1)) p1 t)"

definition SendInput ::
  "codec_env \<Rightarrow> heap \<Rightarrow> 't transport \<Rightarrow> context_state \<Rightarrow> goval \<Rightarrow> pipeline \<times> 't \<Rightarrow>
    (pipeline \<times> 't) \<times> unit outcome" where
  "SendInput E h tr ctx data = (\<lambda>(p, t).
     if pipeState p \<noteq> StateRunning then
       ((p, t), Fail (not_running ''cannot send input to pipeline that is not running'' p))
     else case wrap_err ''serialize input'' (snd (SerializeRawUnsafe E h data NewSerializer)) of
         Panic x \<Rightarrow> ((p, t), Panic x)
       | Fail e \<Rightarrow> ((p, t), Fail e)
       | Ret xmlData \<Rightarrow>
           send_from tr ctx ''send pipeline input''
             (NewPipelineInput (pipeRunspace p) (pipeID p) xmlData) p t)"

definition CloseInput ::
  "'t transport \<Rightarrow> context_state \<Rightarrow> pipeline \<times> 't \<Rightarrow> (pipeline \<times> 't) \<times> unit outcome" where
  "CloseInput tr ctx = (\<lambda>(p, t).
     if pipeState p \<noteq> StateRunning then
       ((p, t), Fail (not_running ''cannot close input of pipeline that is not running'' p))
     else send_from tr ctx ''send end of pipeline input''
       (NewEndOfPipelineInput (pipeRunspace p) (pipeID p)) p t)"

text \<open>\<open>Wait\<close> blocks (\<open>None\<close>) until the pipeline is done.\<close>

definition Wait :: "pipeline \<Rightarrow> gerr option option" where
  "Wait p = (if pipeDone p then Some (pipeErr p) else None)"

section \<open>Delivery\<close>

text \<open>
  How a delivery ends: it returns, or its goroutine blocks until the stream has room, or it starts
  a goroutine that answers the host call and returns nil.
\<close>

datatype handled = Returned "unit outcome" | Blocked stream message | Answering message

text \<open>\<open>sendToChannel\<close> up to its second select, and that select for each of its cases.\<close>

definition sendToChannel :: "stream \<Rightarrow> message \<Rightarrow> pipeline \<Rightarrow> pipeline \<times> handled" where
  "sendToChannel s msg p =
     (case chan_offer msg (pipeStreams p s) of
        Ret (Some c) \<Rightarrow> (p\<lparr>pipeStreams := (pipeStreams p)(s := c)\<rparr>, Returned (Ret ()))
      | Ret None \<Rightarrow> (p, Blocked s msg)
      | Fail e \<Rightarrow> (p, Returned (Fail e))
      | Panic x \<Rightarrow> (p, Returned (Panic x)))"

datatype wake = SendReady | TimerFired | ContextDone

fun blocked_send :: "wake \<Rightarrow> stream \<Rightarrow> message \<Rightarrow> pipeline \<Rightarrow> pipeline \<times> handled" where
  "blocked_send SendReady s msg p = sendToChannel s msg p"
| "blocked_send TimerFired s msg p =
     (p, Returned (Fail (EWrap (stream_name s @ '' channel timeout'') (EIs ErrBufferFull))))"
| "blocked_send ContextDone s msg p =
     (case pipeCtx p of
        None \<Rightarrow> (p, Blocked s msg)
      | Some e \<Rightarrow> (p, Returned (Fail (EIs e))))"

text \<open>The stream that a type of message belongs to.\<close>

definition stream_of :: "uint32 \<Rightarrow> stream option" where
  "stream_of ty =
     (if ty = MessageTypePipelineOutput then Some OutputStream
      else if ty = MessageTypeErrorRecord then Some ErrorStream
      else if ty = MessageTypeWarningRecord then Some WarningStream
      else if ty = MessageTypeVerboseRecord then Some VerboseStream
      else if ty = MessageTypeDebugRecord then Some DebugStream
      else if ty = MessageTypeProgressRecord then Some ProgressStream
      else if ty = MessageTypeInformationRecord then Some InformationStream
      else None)"

text \<open>
  What a state message says: the number of the state and the exception, or nothing that the code
  recognises.
\<close>

definition reported_state :: "goval \<Rightarrow> (int \<times> goval) option" where
  "reported_state v =
     (case v of
        VInt32 i \<Rightarrow> Some (i, VNil)
      | VObject ob \<Rightarrow>
          let exc = (case map_of (Members ob) ''ExceptionAsErrorRecord'' of
                       Some e \<Rightarrow> e
                     | None \<Rightarrow> lookup_or_nil (Properties ob) ''ExceptionAsErrorRecord'') in
          (case map_of (Members ob) ''PipelineState'' of
             Some (VInt32 i) \<Rightarrow> Some (i, exc)
           | _ \<Rightarrow> (case map_of (Properties ob) ''PipelineState'' of
                     Some (VInt32 i) \<Rightarrow> Some (i, exc)
                   | _ \<Rightarrow> None))
      | _ \<Rightarrow> None)"

text \<open>The text of \<open>%v\<close>, which is \<open>String\<close> for a pointer to a \<open>PSObject\<close>.\<close>

definition exception_text :: "codec_env \<Rightarrow> goval \<Rightarrow> string" where
  "exception_text E v = (case v of VObject ob \<Rightarrow> PSObject_String E (Some ob) | _ \<Rightarrow> sprint_v E v)"

definition failed_message :: "codec_env \<Rightarrow> goval \<Rightarrow> string" where
  "failed_message E exc =
     (if exc \<noteq> VNil then ''pipeline failed: '' @ exception_text E exc
      else ''pipeline failed on server'')"

definition apply_state :: "codec_env \<Rightarrow> int \<Rightarrow> goval \<Rightarrow> pipeline \<Rightarrow> pipeline \<times> unit outcome" where
  "apply_state E n exc p =
     (if n = 0 then ok (p\<lparr>pipeState := StateNotStarted\<rparr>)
      else if n = 1 then ok (p\<lparr>pipeState := StateRunning\<rparr>)
      else if n = 2 then ok (p\<lparr>pipeState := StateStopping\<rparr>)
      else if n = 3 then transition StateStopped None p
      else if n = 4 then transition StateCompleted None p
      else if n = 5 then transition StateFailed (Some (EMsg (failed_message E exc))) p
      else if n = 6 then transition StateDisconnected None p
      else ok p)"

text \<open>Wrapping a nil error with \<open>%w\<close> gives an error that wraps nothing.\<close>

definition handle_state :: "codec_env \<Rightarrow> bytes \<Rightarrow> pipeline \<Rightarrow> pipeline \<times> unit outcome" where
  "handle_state E data p =
     (case unmarshal E data of
        Panic x \<Rightarrow> (p, Panic x)
      | Fail e \<Rightarrow> transition StateFailed (Some (EWrap ''parse pipeline state'' e)) p
      | Ret [] \<Rightarrow> transition StateFailed (Some (EMsg ''parse pipeline state: %!w(<nil>)'')) p
      | Ret (v # _) \<Rightarrow>
          (case reported_state v of
             None \<Rightarrow> transition StateCompleted None p
           | Some (n, exc) \<Rightarrow> apply_state E n exc p))"

definition HandleMessage :: "codec_env \<Rightarrow> message \<Rightarrow> pipeline \<Rightarrow> pipeline \<times> handled" where
  "HandleMessage E msg p =
     (case stream_of (MType msg) of
        Some s \<Rightarrow> sendToChannel s msg p
      | None \<Rightarrow>
          if MType msg = MessageTypePipelineState then
            (case handle_state E (MsgData msg) p of (p1, r) \<Rightarrow> (p1, Returned r))
          else if MType msg = MessageTypePipelineHostCall then (p, Answering msg)
          else (p, Returned (Ret ())))"

section \<open>Host calls\<close>

definition answer_call ::
  "codec_env \<Rightarrow> heap \<Rightarrow> 't host option \<Rightarrow> bytes \<Rightarrow> 't \<Rightarrow> 't \<times> bytes outcome" where
  "answer_call E h hst data t =
     (case wrap_err ''decode host call'' (DecodeRemoteHostCall E data) of
        Panic x \<Rightarrow> (t, Panic x)
      | Fail e \<Rightarrow> (t, Fail e)
      | Ret call \<Rightarrow>
          (case HandleCall (NewSecureString E) hst call t of
             (t1, Panic x) \<Rightarrow> (t1, Panic x)
           | (t1, Fail e) \<Rightarrow> (t1, Fail e)
           | (t1, Ret response) \<Rightarrow>
               (t1, wrap_err ''encode host response'' (EncodeRemoteHostResponse E h response))))"

definition handleHostCall ::
  "codec_env \<Rightarrow> heap \<Rightarrow> 't transport \<Rightarrow> context_state \<Rightarrow> message \<Rightarrow> pipeline \<Rightarrow> 't \<Rightarrow>
    't \<times> unit outcome" where
  "handleHostCall E h tr ctx msg p t =
     (case answer_call E h (tHost tr) (MsgData msg) t of
        (t1, Panic x) \<Rightarrow> (t1, Panic x)
      | (t1, Fail e) \<Rightarrow> (t1, Fail e)
      | (t1, Ret responseData) \<Rightarrow>
          (case tSendMessage tr ctx
              (NewPipelineHostResponse (pipeRunspace p) (pipeID p) responseData) t1 of
             (t2, r) \<Rightarrow> (t2, wrap_err ''send host response'' r)))"

text \<open>The goroutine that \<open>HandleMessage\<close> starts.\<close>

definition host_call_goroutine ::
  "codec_env \<Rightarrow> heap \<Rightarrow> 't transport \<Rightarrow> message \<Rightarrow> pipeline \<times> 't \<Rightarrow>
    (pipeline \<times> 't) \<times> unit outcome" where
  "host_call_goroutine E h tr msg = (\<lambda>(p, t).
     case handleHostCall E h tr (pipeCtx p) msg p t of
       (t1, Ret _) \<Rightarrow> ok (p, t1)
     | (t1, Fail e) \<Rightarrow>
         (case transition StateFailed (Some (EWrap ''handle host call'' e)) p of
            (p1, r) \<Rightarrow> ((p1, t1), r))
     | (t1, Panic x) \<Rightarrow> ((p, t1), Panic x))"

end
