(* ===== verification/Runspace.thy ===== *)
theory Runspace
  imports Pipeline Go_Io
begin

text \<open>
  The runspace pool (\<open>runspace/runspace.go\<close>, \<open>runspace/security.go\<close>): its record, the constructors
  and setters, sending and receiving of messages, the documents that the server sends, the
  handshake and the closing of a pool. The loop that dispatches incoming messages is in theory
  \<open>Dispatch\<close>.

  The transport and the user's host work on one state of type \<open>'w\<close>, the world outside the pool.
  Operations that read from the transport may never return, which is \<open>None\<close>. The map of pipelines
  holds the pipelines themselves, which the source shares through pointers; a pipeline that is
  removed from the map is the client's alone. The channels \<open>outgoingCh\<close> and \<open>readyCh\<close> of the source are
  never used. Logging is left out.
\<close>

section \<open>State\<close>

datatype poolState =
    PoolBeforeOpen | PoolOpening | PoolConnecting | PoolOpened | PoolClosing | PoolClosed
  | PoolDisconnected | PoolBroken

fun PoolState_String :: "poolState \<Rightarrow> string" where
  "PoolState_String PoolBeforeOpen = ''BeforeOpen''"
| "PoolState_String PoolOpening = ''Opening''"
| "PoolState_String PoolConnecting = ''Connecting''"
| "PoolState_String PoolOpened = ''Opened''"
| "PoolState_String PoolClosing = ''Closing''"
| "PoolState_String PoolClosed = ''Closed''"
| "PoolState_String PoolDisconnected = ''Disconnected''"
| "PoolState_String PoolBroken = ''Broken''"

definition DefaultMaxFragmentSize :: int where
  "DefaultMaxFragmentSize = 307200"

definition DefaultMaxConcurrentHostCalls :: nat where
  "DefaultMaxConcurrentHostCalls = 64"

record 'w pool =
  poolID :: uuid
  poolState :: poolState
  poolTransport :: "'w readWriter"
  world :: 'w
  SkipHandshakeSend :: bool
  minRunspaces :: int
  maxRunspaces :: int
  poolFragmenter :: fragmenter
  poolAssembler :: assembler
  serverProtocolVersion :: string
  serverPSVersion :: string
  negotiatedMaxRunspaces :: int
  negotiatedMinRunspaces :: int
  availableRunspaces :: int
  receivedAvailabilityMsg :: bool
  poolHost :: "'w host option"
  metadataCh :: "message chan"
  hostCallLimiter :: "unit chan"
  pipelines :: "(uuid, pipeline) fmap"
  stateCh :: "poolState chan"
  poolDone :: bool
  poolCtx :: context_state
  cleanedUp :: bool
  cleanupError :: "gerr option"
  dispatchLoopStarted :: bool
  securityCallback :: "(string \<Rightarrow> (string \<times> goval) list \<Rightarrow> 'w \<Rightarrow> 'w) option"

definition NewPoolWithContext ::
  "(bytes \<Rightarrow> bytes outcome) \<Rightarrow> context_state \<Rightarrow> 'w readWriter \<Rightarrow> 'w \<Rightarrow> uuid \<Rightarrow> 'w pool" where
  "NewPoolWithContext newSecure ctx transport w i =
     \<lparr>poolID = i, poolState = PoolBeforeOpen, poolTransport = transport, world = w,
      SkipHandshakeSend = False, minRunspaces = 1, maxRunspaces = 1,
      poolFragmenter = NewFragmenter DefaultMaxFragmentSize, poolAssembler = NewAssembler,
      serverProtocolVersion = [], serverPSVersion = [], negotiatedMaxRunspaces = 0,
      negotiatedMinRunspaces = 0, availableRunspaces = 0, receivedAvailabilityMsg = False,
      poolHost = Some (NewNullHost newSecure), metadataCh = make_chan 1,
      hostCallLimiter = make_chan DefaultMaxConcurrentHostCalls, pipelines = fmempty,
      stateCh = make_chan 1, poolDone = False, poolCtx = ctx, cleanedUp = False,
      cleanupError = None, dispatchLoopStarted = False, securityCallback = None\<rparr>"

definition NewPool :: "(bytes \<Rightarrow> bytes outcome) \<Rightarrow> 'w readWriter \<Rightarrow> 'w \<Rightarrow> uuid \<Rightarrow> 'w pool" where
  "NewPool newSecure transport w i = NewPoolWithContext newSecure None transport w i"

section \<open>Setters\<close>

definition before_open :: "('w pool \<Rightarrow> 'w pool \<times> unit outcome) \<Rightarrow> 'w pool \<Rightarrow> 'w pool \<times> unit outcome" where
  "before_open f p =
     (if poolState p \<noteq> PoolBeforeOpen then (p, Fail (EIs ErrPoolInvalidState)) else f p)"

definition SetHost :: "'w host option \<Rightarrow> 'w pool \<Rightarrow> 'w pool \<times> unit outcome" where
  "SetHost h = before_open (\<lambda>p. ok (p\<lparr>poolHost := h\<rparr>))"

definition SetMinRunspaces :: "int \<Rightarrow> 'w pool \<Rightarrow> 'w pool \<times> unit outcome" where
  "SetMinRunspaces n = before_open (\<lambda>p.
     if n < 1 then (p, Fail (EMsg (''min runspaces must be >= 1, got '' @ itoa n)))
     else ok (p\<lparr>minRunspaces := n\<rparr>))"

definition SetMaxRunspaces :: "int \<Rightarrow> 'w pool \<Rightarrow> 'w pool \<times> unit outcome" where
  "SetMaxRunspaces n = before_open (\<lambda>p.
     if n < 1 then (p, Fail (EMsg (''max runspaces must be >= 1, got '' @ itoa n)))
     else ok (p\<lparr>maxRunspaces := n\<rparr>))"

definition SetMessageID :: "uint64 \<Rightarrow> 'w pool \<Rightarrow> 'w pool" where
  "SetMessageID i p = p\<lparr>poolFragmenter := SetObjectID (poolFragmenter p) i\<rparr>"

definition SetTransport :: "'w readWriter \<Rightarrow> 'w pool \<Rightarrow> 'w pool" where
  "SetTransport t p = p\<lparr>poolTransport := t\<rparr>"

definition SetSecurityEventCallback ::
  "(string \<Rightarrow> (string \<times> goval) list \<Rightarrow> 'w \<Rightarrow> 'w) option \<Rightarrow> 'w pool \<Rightarrow> 'w pool" where
  "SetSecurityEventCallback cb p = p\<lparr>securityCallback := cb\<rparr>"

definition emitSecurityEventLocked :: "string \<Rightarrow> (string \<times> goval) list \<Rightarrow> 'w pool \<Rightarrow> 'w pool" where
  "emitSecurityEventLocked event details p =
     (case securityCallback p of
        None \<Rightarrow> p
      | Some cb \<Rightarrow> p\<lparr>world := cb event details (world p)\<rparr>)"

definition RunspaceUtilization :: "'w pool \<Rightarrow> int \<times> int" where
  "RunspaceUtilization p =
     (availableRunspaces p,
      if negotiatedMaxRunspaces p = 0 then maxRunspaces p else negotiatedMaxRunspaces p)"

definition InitializeAvailabilityIfNeeded :: "'w pool \<Rightarrow> 'w pool" where
  "InitializeAvailabilityIfNeeded p =
     (if receivedAvailabilityMsg p then p else p\<lparr>availableRunspaces := maxRunspaces p\<rparr>)"

text \<open>The state channel has room for one; a notification that finds it full is dropped.\<close>

definition setState :: "poolState \<Rightarrow> 'w pool \<Rightarrow> 'w pool" where
  "setState newState p =
     (let p1 = p\<lparr>poolState := newState\<rparr> in
      case chan_offer newState (stateCh p1) of
        Ret (Some c) \<Rightarrow> p1\<lparr>stateCh := c\<rparr>
      | _ \<Rightarrow> p1)"

definition setBroken :: "'w pool \<Rightarrow> 'w pool" where
  "setBroken p = setState PoolBroken p"

definition opened_event :: "codec_env \<Rightarrow> 'w pool \<Rightarrow> (string \<times> goval) list" where
  "opened_event E p =
     [(''subtype'', VString ''open''), (''outcome'', VString ''success''),
      (''pool_id'', VString (uuid_String E (poolID p))),
      (''protocol_ver'', VString (serverProtocolVersion p)),
      (''ps_version'', VString (serverPSVersion p)),
      (''max_runspaces'', VInt (negotiatedMaxRunspaces p))]"

definition ResumeOpened :: "codec_env \<Rightarrow> 'w pool \<Rightarrow> 'w pool" where
  "ResumeOpened E p =
     (let p1 = p\<lparr>poolState := PoolOpened\<rparr> in
      emitSecurityEventLocked ''session_lifecycle'' (opened_event E p1) p1)"

definition AdoptPipeline :: "pipeline \<Rightarrow> 'w pool \<Rightarrow> 'w pool \<times> unit outcome" where
  "AdoptPipeline pl p =
     (if poolState p \<noteq> PoolOpened \<and> poolState p \<noteq> PoolConnecting then (p, Fail (EIs ErrNotOpen))
      else if fmlookup (pipelines p) (pipeID pl) \<noteq> None then
        (p, Fail (EMsg ''pipeline already exists''))
      else ok (p\<lparr>pipelines := fmupd (pipeID pl) pl (pipelines p)\<rparr>))"

text \<open>The order of Go's \<open>Range\<close> is arbitrary; here the identifiers are sorted.\<close>

definition GetActivePipelineIDs :: "'w pool \<Rightarrow> uuid list" where
  "GetActivePipelineIDs p = sorted_list_of_fset (fmdom (pipelines p))"

section \<open>Sending\<close>

definition prepareMessage :: "message \<Rightarrow> 'w pool \<Rightarrow> 'w pool \<times> fragment list outcome" where
  "prepareMessage msg p =
     bind_st (p, wrap_err ''encode message'' (Message_Encode msg)) (\<lambda>encoded p.
       case Fragmenter_Fragment (poolFragmenter p) encoded of
         (fr, r) \<Rightarrow> (p\<lparr>poolFragmenter := fr\<rparr>, wrap_err ''fragment message'' r))"

definition write_fragment :: "message \<Rightarrow> bytes \<Rightarrow> 'w pool \<Rightarrow> 'w pool \<times> unit outcome" where
  "write_fragment msg fragData p =
     (case (if PipelineID msg \<noteq> uuid_Nil then rwMux (poolTransport p) else None) of
        Some mux \<Rightarrow>
          (case muxSendPipelineData mux (PipelineID msg) fragData (world p) of
             (w, r) \<Rightarrow> (p\<lparr>world := w\<rparr>, wrap_err ''write fragment (mux)'' r))
      | None \<Rightarrow>
          (case rwWrite (poolTransport p) fragData (world p) of
             (w, r) \<Rightarrow> (p\<lparr>world := w\<rparr>, wrap_err ''write fragment'' r)))"

fun send_fragments ::
  "context_state \<Rightarrow> message \<Rightarrow> fragment list \<Rightarrow> 'w pool \<Rightarrow> 'w pool \<times> unit outcome" where
  "send_fragments ctx msg [] p = ok p"
| "send_fragments ctx msg (f # fs) p =
     bind_st (p, wrap_err ''encode fragment'' (Fragment_Encode f)) (\<lambda>fragData p.
       case ctx of
         Some e \<Rightarrow> (p, Fail (EIs e))
       | None \<Rightarrow> then_do (write_fragment msg fragData p) (send_fragments ctx msg fs))"

definition sendMessage :: "context_state \<Rightarrow> message \<Rightarrow> 'w pool \<Rightarrow> 'w pool \<times> unit outcome" where
  "sendMessage ctx msg p = bind_st (prepareMessage msg p) (\<lambda>frags p. send_fragments ctx msg frags p)"

definition SendMessage :: "context_state \<Rightarrow> message \<Rightarrow> 'w pool \<Rightarrow> 'w pool \<times> unit outcome" where
  "SendMessage ctx msg p = sendMessage ctx msg p"

section \<open>Receiving\<close>

definition maxFragmentBlobLen :: nat where
  "maxFragmentBlobLen = 10 * 1024 * 1024"

definition read_full :: "string \<Rightarrow> nat \<Rightarrow> 'w pool \<Rightarrow> ('w pool \<times> bytes outcome) option" where
  "read_full what n p =
     (case ReadFull (rwRead (poolTransport p)) n [] (world p) of
        None \<Rightarrow> None
      | Some (w, r) \<Rightarrow> Some (p\<lparr>world := w\<rparr>, wrap_err what r))"

text \<open>One fragment: the header, whose bytes 17 to 20 are the length of the blob, and the blob.\<close>

definition read_fragment :: "'w pool \<Rightarrow> ('w pool \<times> fragment outcome) option" where
  "read_fragment p =
     and_run (read_full ''read fragment header'' Frag_HeaderSize p) (\<lambda>header p.
       let blobLen = unat (BigEndian_Uint32 (slice header 17 21)) in
       if maxFragmentBlobLen < blobLen then
         Some (p, Fail (EMsg ''fragment blob length exceeds maximum allowed size''))
       else
         and_run (if 0 < blobLen then read_full ''read fragment data'' blobLen p
                  else Some (p, Ret [])) (\<lambda>blob p.
           Some (p, wrap_err ''decode fragment'' (Fragment_Decode (header @ blob)))))"

partial_function (option) receiveMessage ::
  "context_state \<Rightarrow> 'w pool \<Rightarrow> ('w pool \<times> message outcome) option" where
  "receiveMessage ctx p =
     (case ctx of
        Some e \<Rightarrow> Some (p, Fail (EIs e))
      | None \<Rightarrow>
          (case read_fragment p of
             None \<Rightarrow> None
           | Some (p1, Fail e) \<Rightarrow> Some (p1, Fail e)
           | Some (p1, Panic x) \<Rightarrow> Some (p1, Panic x)
           | Some (p1, Ret frag) \<Rightarrow>
               (case Assembler_Add (poolAssembler p1) frag of
                  (a, Fail e) \<Rightarrow>
                    Some (p1\<lparr>poolAssembler := a\<rparr>, Fail (EWrap ''assemble fragment'' e))
                | (a, Panic x) \<Rightarrow> Some (p1\<lparr>poolAssembler := a\<rparr>, Panic x)
                | (a, Ret None) \<Rightarrow> receiveMessage ctx (p1\<lparr>poolAssembler := a\<rparr>)
                | (a, Ret (Some msgData)) \<Rightarrow>
                    Some (p1\<lparr>poolAssembler := a\<rparr>,
                          wrap_err ''decode message'' (Message_Decode msgData)))))"

section \<open>Host calls of the pool\<close>

definition pool_handleHostCall ::
  "codec_env \<Rightarrow> heap \<Rightarrow> context_state \<Rightarrow> message \<Rightarrow> 'w pool \<Rightarrow> 'w pool \<times> unit outcome" where
  "pool_handleHostCall E h ctx msg p =
     (case answer_call E h (poolHost p) (MsgData msg) (world p) of
        (w, r) \<Rightarrow> bind_st (p\<lparr>world := w\<rparr>, r) (\<lambda>responseData p.
          wrap_st ''send host response''
            (sendMessage ctx (NewRunspaceHostResponse (poolID p) responseData) p)))"

partial_function (option) receiveMessageWithHostCallbacks ::
  "codec_env \<Rightarrow> heap \<Rightarrow> context_state \<Rightarrow> 'w pool \<Rightarrow> ('w pool \<times> message outcome) option" where
  "receiveMessageWithHostCallbacks E h ctx p =
     (case receiveMessage ctx p of
        None \<Rightarrow> None
      | Some (p1, Fail e) \<Rightarrow> Some (p1, Fail e)
      | Some (p1, Panic x) \<Rightarrow> Some (p1, Panic x)
      | Some (p1, Ret msg) \<Rightarrow>
          if MType msg = MessageTypeRunspaceHostCall then
            (case pool_handleHostCall E h ctx msg p1 of
               (p2, Fail e) \<Rightarrow> Some (p2, Fail (EWrap ''handle host call'' e))
             | (p2, Panic x) \<Rightarrow> Some (p2, Panic x)
             | (p2, Ret _) \<Rightarrow> receiveMessageWithHostCallbacks E h ctx p2)
          else Some (p1, Ret msg))"

end
