(* ===== verification/Handshake.thy ===== *)
theory Handshake
  imports Runspace
begin

text \<open>
  Opening, connecting, disconnecting and closing a pool (\<open>runspace/runspace.go\<close>): the documents that
  the client writes, the parsing of those that the server sends, \<open>Open\<close>, \<open>Connect\<close>, \<open>Disconnect\<close>,
  \<open>Close\<close> and the requests that wait for an answer. An operation that waits for several channels is
  cut into the part before the wait and the events that end it.
\<close>

section \<open>The client's documents\<close>

definition capability_document :: string where
  "capability_document =
     ''<Obj RefId=\"0\"><MS><Version N=\"protocolversion\">2.3</Version>'' @
     ''<Version N=\"PSVersion\">2.0</Version><Version N=\"SerializationVersion\">1.1.0.1</Version></MS></Obj>''"

definition createSessionCapabilityMessage :: "'w pool \<Rightarrow> message" where
  "createSessionCapabilityMessage p =
     NewSessionCapability (poolID p) (bytes_of_string capability_document)"

definition createRunspacePoolInitXML :: "int \<Rightarrow> int \<Rightarrow> string" where
  "createRunspacePoolInitXML minR maxR =
     ''<Obj RefId=\"0\"><MS>'' @
     ''<I32 N=\"MinRunspaces\">'' @ itoa minR @ ''</I32>'' @
     ''<I32 N=\"MaxRunspaces\">'' @ itoa maxR @ ''</I32>'' @
     ''<Obj N=\"PSThreadOptions\" RefId=\"1\">'' @
     ''<TN RefId=\"0\"><T>System.Management.Automation.Runspaces.PSThreadOptions</T>'' @
     ''<T>System.Enum</T><T>System.ValueType</T><T>System.Object</T></TN>'' @
     ''<ToString>Default</ToString><I32>0</I32></Obj>'' @
     ''<Obj N=\"ApartmentState\" RefId=\"2\">'' @
     ''<TN RefId=\"1\"><T>System.Threading.ApartmentState</T>'' @
     ''<T>System.Enum</T><T>System.ValueType</T><T>System.Object</T></TN>'' @
     ''<ToString>Unknown</ToString><I32>2</I32></Obj>'' @
     ''<Obj N=\"HostInfo\" RefId=\"3\"><MS>'' @
     ''<B N=\"_isHostNull\">true</B>'' @
     ''<B N=\"_isHostUINull\">true</B>'' @
     ''<B N=\"_isHostRawUINull\">true</B>'' @
     ''<B N=\"_useRunspaceHost\">true</B>'' @
     ''</MS></Obj>'' @
     ''<Nil N=\"ApplicationArguments\"/>'' @
     ''<Obj N=\"ApplicationPrivateData\" RefId=\"4\"><MS>'' @
     ''<B N=\"PSVersionTable\">true</B>'' @
     ''</MS></Obj>'' @
     ''</MS></Obj>''"

definition createInitRunspacePoolMessage :: "int \<Rightarrow> int \<Rightarrow> 'w pool \<Rightarrow> message" where
  "createInitRunspacePoolMessage minR maxR p =
     NewInitRunspacePool (poolID p) (bytes_of_string (createRunspacePoolInitXML minR maxR))"

definition sendSessionCapability :: "context_state \<Rightarrow> 'w pool \<Rightarrow> 'w pool \<times> unit outcome" where
  "sendSessionCapability ctx p = sendMessage ctx (createSessionCapabilityMessage p) p"

definition sendInitRunspacePool :: "context_state \<Rightarrow> 'w pool \<Rightarrow> 'w pool \<times> unit outcome" where
  "sendInitRunspacePool ctx p =
     sendMessage ctx (createInitRunspacePoolMessage (minRunspaces p) (maxRunspaces p) p) p"

definition sendConnectRunspacePool :: "context_state \<Rightarrow> 'w pool \<Rightarrow> 'w pool \<times> unit outcome" where
  "sendConnectRunspacePool ctx p =
     sendMessage ctx (NewConnectRunspacePool (poolID p)
       (bytes_of_string (createRunspacePoolInitXML (minRunspaces p) (maxRunspaces p)))) p"

text \<open>The fragments of two messages in a row, for a transport that sends them by itself.\<close>

definition prepared :: "string \<Rightarrow> message \<Rightarrow> message \<Rightarrow> 'w pool \<Rightarrow> 'w pool \<times> bytes outcome" where
  "prepared what m1 m2 p =
     bind_st (wrap_st ''prepare capability fragments'' (prepareMessage m1 p)) (\<lambda>fs1 p.
     bind_st (wrap_st (''prepare '' @ what @ '' fragments'') (prepareMessage m2 p)) (\<lambda>fs2 p.
       (p, and_then (flatten_fragments ''encode capability fragment'' fs1) (\<lambda>b1.
           and_then (flatten_fragments (''encode '' @ what @ '' fragment'') fs2) (\<lambda>b2.
             Ret (b1 @ b2))))))"

definition GetHandshakeFragments :: "'w pool \<Rightarrow> 'w pool \<times> bytes outcome" where
  "GetHandshakeFragments p =
     prepared ''init'' (createSessionCapabilityMessage p)
       (createInitRunspacePoolMessage (minRunspaces p) (maxRunspaces p) p) p"

definition GetConnectHandshakeFragments :: "'w pool \<Rightarrow> 'w pool \<times> bytes outcome" where
  "GetConnectHandshakeFragments p =
     prepared ''connect'' (createSessionCapabilityMessage p)
       (NewConnectRunspacePool (poolID p) (bytes_of_string ''<S></S>'')) p"

section \<open>The server's documents\<close>

definition string_property :: "(string \<times> goval) list \<Rightarrow> string \<Rightarrow> string" where
  "string_property ps k = (case map_of ps k of Some (VString s) \<Rightarrow> s | _ \<Rightarrow> [])"

definition int32_property :: "(string \<times> goval) list \<Rightarrow> string \<Rightarrow> int option" where
  "int32_property ps k = (case map_of ps k of Some (VInt32 i) \<Rightarrow> Some i | _ \<Rightarrow> None)"

record capabilityData =
  ProtocolVersion :: string
  PSVersion :: string
  SerializationVersion :: string

definition parseCapabilityData :: "codec_env \<Rightarrow> bytes \<Rightarrow> capabilityData outcome" where
  "parseCapabilityData E data =
     and_then (wrap_err ''deserialize capability data'' (unmarshal E data)) (\<lambda>objs.
       case objs of
         [] \<Rightarrow> Fail (EMsg ''no capability object in message'')
       | VObject ob # _ \<Rightarrow>
           Ret \<lparr>ProtocolVersion = string_property (Properties ob) ''protocolversion'',
                PSVersion = string_property (Properties ob) ''PSVersion'',
                SerializationVersion = string_property (Properties ob) ''SerializationVersion''\<rparr>
       | v # _ \<Rightarrow> Fail (EMsg (''capability is not a PSObject, got '' @ go_type v)))"

record poolStateInfo =
  siState :: int
  siMinRunspaces :: int
  siMaxRunspaces :: int

text \<open>Any property that is an \<open>int32\<close>; the order of Go's \<open>range\<close> over a map is arbitrary.\<close>

definition any_int32 :: "(string \<times> goval) list \<Rightarrow> int option" where
  "any_int32 ps =
     (case concat (map (\<lambda>k. case map_of ps k of Some (VInt32 i) \<Rightarrow> [i] | _ \<Rightarrow> []) (map fst ps)) of
        [] \<Rightarrow> None
      | i # _ \<Rightarrow> Some i)"

definition first_some :: "'a option list \<Rightarrow> 'a \<Rightarrow> 'a" where
  "first_some xs d = (case filter (\<lambda>x. x \<noteq> None) xs of Some x # _ \<Rightarrow> x | _ \<Rightarrow> d)"

text \<open>The counts of runspaces in the properties of an object, where it has them.\<close>

definition with_counts :: "(string \<times> goval) list \<Rightarrow> poolStateInfo \<Rightarrow> poolStateInfo" where
  "with_counts ps info =
     info\<lparr>siMinRunspaces := first_some [int32_property ps ''MinRunspaces''] (siMinRunspaces info),
          siMaxRunspaces := first_some [int32_property ps ''MaxRunspaces''] (siMaxRunspaces info)\<rparr>"

definition parseRunspacePoolState :: "codec_env \<Rightarrow> bytes \<Rightarrow> poolStateInfo outcome" where
  "parseRunspacePoolState E data =
     and_then (wrap_err ''deserialize state data'' (unmarshal E data)) (\<lambda>objs.
       and_then
         (case objs of
            [] \<Rightarrow> Fail (EMsg ''no state object in message'')
          | VInt32 i # _ \<Rightarrow> Ret \<lparr>siState = i, siMinRunspaces = 0, siMaxRunspaces = 0\<rparr>
          | VObject ob # _ \<Rightarrow>
              let ps = Properties ob in
              Ret (with_counts ps
                \<lparr>siState = first_some [int32_property ps ''RunspaceState'',
                            int32_property ps ''RunspacePoolState'', any_int32 ps] 0,
                 siMinRunspaces = 0, siMaxRunspaces = 0\<rparr>)
          | v # _ \<Rightarrow> Fail (EMsg (''state is not int32 or PSObject, got '' @ go_type v)))
         (\<lambda>info. Ret (case objs of _ # VObject ob # _ \<Rightarrow> with_counts (Properties ob) info | _ \<Rightarrow> info)))"

text \<open>A number in one of the properties with which servers report the availability.\<close>

definition availability_property :: "(string \<times> goval) list \<Rightarrow> int option" where
  "availability_property ps =
     (case concat (map (\<lambda>k. case map_of ps k of
          Some (VInt64 i) \<Rightarrow> [i] | Some (VInt32 i) \<Rightarrow> [i] | Some (VInt i) \<Rightarrow> [i] | _ \<Rightarrow> [])
        [''SetMinMaxRunspacesResponse'', ''ci'', ''Count'', ''Availability'']) of
        [] \<Rightarrow> None
      | i # _ \<Rightarrow> Some i)"

definition parseRunspaceAvailability :: "codec_env \<Rightarrow> bytes \<Rightarrow> int outcome" where
  "parseRunspaceAvailability E data =
     and_then (wrap_err ''deserialize availability'' (unmarshal E data)) (\<lambda>objs.
       case objs of
         [] \<Rightarrow> Ret 0
       | VInt64 i # _ \<Rightarrow> Ret i
       | VInt32 i # _ \<Rightarrow> Ret i
       | VInt i # _ \<Rightarrow> Ret i
       | VObject ob # _ \<Rightarrow>
           (case ObjValue ob of
              VInt64 i \<Rightarrow> Ret i
            | VInt32 i \<Rightarrow> Ret i
            | VInt i \<Rightarrow> Ret i
            | v \<Rightarrow>
                (case availability_property (Properties ob) of
                   Some i \<Rightarrow> Ret i
                 | None \<Rightarrow>
                     if v = VNil then Ret 0
                     else Fail (EMsg (''PSObject value is unexpected type: '' @ go_type v))))
       | VNil # _ \<Rightarrow> Ret 0
       | v # _ \<Rightarrow> Fail (EMsg (''unexpected type for availability: '' @ go_type v)))"

record commandMetadata =
  cmName :: string
  cmCommandType :: int
  cmParameters :: "(string \<times> string) list"

definition metadata_of :: "goval psobject \<Rightarrow> commandMetadata" where
  "metadata_of ob =
     (let ps = Properties ob in
      \<lparr>cmName = string_property ps ''Name'',
       cmCommandType = (case map_of ps ''CommandType'' of
           Some (VInt32 i) \<Rightarrow> i | Some (VInt i) \<Rightarrow> i | _ \<Rightarrow> 0),
       cmParameters = (case map_of ps ''Parameters'' of
           Some (VMap params) \<Rightarrow>
             map (\<lambda>(pname, pval). (pname, case pval of
                 VObject inner \<Rightarrow> string_property (Properties inner) ''ParameterType''
               | _ \<Rightarrow> [])) params
         | _ \<Rightarrow> [])\<rparr>)"

definition parseCommandMetadata :: "codec_env \<Rightarrow> bytes \<Rightarrow> commandMetadata list outcome" where
  "parseCommandMetadata E data =
     and_then (wrap_err ''deserialize metadata'' (unmarshal E data)) (\<lambda>objs.
       Ret (concat (map (\<lambda>v. case v of VObject ob \<Rightarrow> [metadata_of ob] | _ \<Rightarrow> []) objs)))"

section \<open>Open\<close>

definition receiveSessionCapability ::
  "codec_env \<Rightarrow> heap \<Rightarrow> context_state \<Rightarrow> 'w pool \<Rightarrow> ('w pool \<times> unit outcome) option" where
  "receiveSessionCapability E h ctx p =
     and_run (receiveMessageWithHostCallbacks E h ctx p) (\<lambda>msg p. Some (
       if MType msg \<noteq> MessageTypeSessionCapability then
         (p, Fail (EWrap ''expected SESSION_CAPABILITY'' (EIs ErrProtocolViolation)))
       else bind_st (p, wrap_err ''parse capability data'' (parseCapabilityData E (MsgData msg)))
         (\<lambda>caps p.
           if ProtocolVersion caps = [] then
             (p, Fail (EWrap ''server did not provide protocol version'' (EIs ErrProtocolViolation)))
           else if length (ProtocolVersion caps) < 2 \<or> hd (ProtocolVersion caps) \<noteq> CHR ''2'' then
             (p, Fail (EWrap ''incompatible protocol version'' (EIs ErrProtocolViolation)))
           else ok (p\<lparr>serverProtocolVersion := ProtocolVersion caps,
                      serverPSVersion := PSVersion caps\<rparr>))))"

definition RunspacePoolStateOpened :: int where "RunspacePoolStateOpened = 2"
definition RunspacePoolStateClosed :: int where "RunspacePoolStateClosed = 4"
definition RunspacePoolStateBroken :: int where "RunspacePoolStateBroken = 5"

text \<open>The state message that \<open>waitForOpened\<close> waits for.\<close>

definition accept_opened :: "codec_env \<Rightarrow> bytes \<Rightarrow> 'w pool \<Rightarrow> 'w pool \<times> unit outcome" where
  "accept_opened E data p =
     bind_st (p, wrap_err ''parse runspace pool state'' (parseRunspacePoolState E data)) (\<lambda>info p.
       if siState info \<noteq> RunspacePoolStateOpened then
         (p, Fail (EWrap ''expected state Opened'' (EIs ErrPoolInvalidState)))
       else ok (setState PoolOpened
         (p\<lparr>negotiatedMinRunspaces :=
              (if 0 < siMinRunspaces info then siMinRunspaces info else minRunspaces p),
            negotiatedMaxRunspaces :=
              (if 0 < siMaxRunspaces info then siMaxRunspaces info else maxRunspaces p)\<rparr>)))"

partial_function (option) waitForOpened ::
  "codec_env \<Rightarrow> heap \<Rightarrow> context_state \<Rightarrow> 'w pool \<Rightarrow> ('w pool \<times> unit outcome) option" where
  "waitForOpened E h ctx p =
     (case receiveMessageWithHostCallbacks E h ctx p of
        None \<Rightarrow> None
      | Some (p1, Fail e) \<Rightarrow> Some (p1, Fail e)
      | Some (p1, Panic x) \<Rightarrow> Some (p1, Panic x)
      | Some (p1, Ret msg) \<Rightarrow>
          if MType msg = MessageTypeApplicationPrivate \<or>
             MType msg = MessageTypeRunspacePoolInitData \<or>
             MType msg = MessageTypeSessionCapability then waitForOpened E h ctx p1
          else if MType msg = MessageTypeRunspacePoolState then
            Some (accept_opened E (MsgData msg) p1)
          else Some (p1, Fail (EWrap ''expected RUNSPACEPOOL_STATE'' (EIs ErrProtocolViolation))))"

text \<open>A step of \<open>Open\<close> that fails breaks the pool.\<close>

definition or_broken ::
  "string \<Rightarrow> ('w pool \<times> unit outcome) option \<Rightarrow> ('w pool \<times> unit outcome) option" where
  "or_broken what r =
     (case r of
        Some (p, Fail e) \<Rightarrow> Some (setBroken p, Fail (EWrap what e))
      | _ \<Rightarrow> r)"

definition open_refused :: "poolState \<Rightarrow> gerr" where
  "open_refused st =
     (if st = PoolOpened \<or> st = PoolOpening then EIs ErrAlreadyOpen
      else if st = PoolClosed then EIs ErrClosed
      else if st = PoolBroken then EIs ErrBroken
      else EWrap (''cannot open from state '' @ PoolState_String st) (EIs ErrPoolInvalidState))"

definition Open ::
  "codec_env \<Rightarrow> heap \<Rightarrow> context_state \<Rightarrow> 'w pool \<Rightarrow> ('w pool \<times> unit outcome) option" where
  "Open E h ctx p =
     (if poolState p \<noteq> PoolBeforeOpen then Some (p, Fail (open_refused (poolState p)))
      else
        let p1 = setState PoolOpening p in
        if SkipHandshakeSend p1 then
          or_broken ''wait for opened (creationXml flow)'' (waitForOpened E h ctx p1)
        else
          and_run (or_broken ''send session capability'' (Some (sendSessionCapability ctx p1))) (\<lambda>_ p.
          and_run (or_broken ''receive session capability'' (receiveSessionCapability E h ctx p)) (\<lambda>_ p.
          and_run (or_broken ''send init runspace pool'' (Some (sendInitRunspacePool ctx p))) (\<lambda>_ p.
          and_run (or_broken ''wait for opened'' (waitForOpened E h ctx p)) (\<lambda>_ p.
            Some (ok (p\<lparr>dispatchLoopStarted := True\<rparr>)))))))"

definition StartDispatchLoop :: "'w pool \<Rightarrow> 'w pool" where
  "StartDispatchLoop p = p\<lparr>dispatchLoopStarted := True\<rparr>"

section \<open>Connect, disconnect and close\<close>

text \<open>\<open>Connect\<close> returns, or waits for the dispatch loop.\<close>

datatype connecting = ConnectReturns "unit outcome" | ConnectWaits

definition Connect :: "context_state \<Rightarrow> 'w pool \<Rightarrow> 'w pool \<times> connecting" where
  "Connect ctx p =
     (if poolState p \<noteq> PoolBeforeOpen then (p, ConnectReturns (Fail (EIs ErrAlreadyOpen)))
      else
        let p1 = StartDispatchLoop (p\<lparr>poolState := PoolConnecting\<rparr>) in
        if SkipHandshakeSend p1 then
          (InitializeAvailabilityIfNeeded (setState PoolOpened p1), ConnectReturns (Ret ()))
        else case then_do (wrap_st ''send session capability'' (sendSessionCapability ctx p1)) (\<lambda>p.
            wrap_st ''send connect runspace pool'' (sendConnectRunspacePool ctx p)) of
            (p2, Ret _) \<Rightarrow> (p2, ConnectWaits)
          | (p2, r) \<Rightarrow> (p2, ConnectReturns r))"

text \<open>The wait: the state is looked at, or one of the channels of the select is ready.\<close>

datatype connect_event = StateSeen | StateReceived poolState | ConnectTimeout | CallerDone sentinel | PoolIsDone

definition connect_outcome :: "poolState \<Rightarrow> unit outcome option" where
  "connect_outcome st =
     (if st = PoolOpened then Some (Ret ())
      else if st = PoolBroken \<or> st = PoolClosed then Some (Fail (EIs ErrBroken))
      else None)"

fun connect_wait :: "connect_event \<Rightarrow> 'w pool \<Rightarrow> unit outcome option" where
  "connect_wait StateSeen p = connect_outcome (poolState p)"
| "connect_wait (StateReceived st) p = connect_outcome st"
| "connect_wait ConnectTimeout p =
     Some (Fail (EMsg ''connection timed out waiting for RUNSPACEPOOL_STATE (server might not support session persistence)''))"
| "connect_wait (CallerDone e) p = Some (Fail (EIs e))"
| "connect_wait PoolIsDone p = Some (Fail (EIs ErrClosed))"

definition Disconnect :: "'w pool \<Rightarrow> 'w pool \<times> unit outcome" where
  "Disconnect p =
     (if poolState p \<noteq> PoolOpened then
        (p, Fail (EMsg (''cannot disconnect from state '' @ PoolState_String (poolState p))))
      else
        let p1 = setState PoolDisconnected p in
        case rwClose (poolTransport p1) of
          None \<Rightarrow> ok p1
        | Some close \<Rightarrow> (case close (world p1) of (w, r) \<Rightarrow> (p1\<lparr>world := w\<rparr>, r)))"

text \<open>
  \<open>cleanup\<close>, once: the pipelines are failed with the error, or cancelled if there is none, in the
  order of their identifiers (Go's is arbitrary).
\<close>

fun end_pipelines ::
  "gerr option \<Rightarrow> uuid list \<Rightarrow> (uuid, pipeline) fmap \<Rightarrow> (uuid, pipeline) fmap \<times> unit outcome" where
  "end_pipelines err [] ps = ok ps"
| "end_pipelines err (i # is) ps =
     (case fmlookup ps i of
        None \<Rightarrow> end_pipelines err is ps
      | Some pl \<Rightarrow>
          then_do
            (case err of
               None \<Rightarrow> ok (fmupd i (Cancel pl) ps)
             | Some e \<Rightarrow>
                 (case Pipeline_Fail (EWrap ''runspace pool broken'' e) pl of
                    (pl1, r) \<Rightarrow> (fmupd i pl1 ps, r)))
            (end_pipelines err is))"

definition ended_event :: "poolState \<Rightarrow> gerr option \<Rightarrow> 'w pool \<Rightarrow> 'w pool" where
  "ended_event endState err p =
     (if endState = PoolBroken then
        emitSecurityEventLocked ''session_lifecycle''
          [(''subtype'', VString ''failed''), (''outcome'', VString ''failure''),
           (''error'', VString (case err of None \<Rightarrow> ''unknown error'' | Some e \<Rightarrow> err_text e))] p
      else if endState = PoolClosed then
        emitSecurityEventLocked ''session_lifecycle''
          [(''subtype'', VString ''closed''), (''outcome'', VString ''success'')] p
      else p)"

definition cleanup :: "poolState \<Rightarrow> gerr option \<Rightarrow> 'w pool \<Rightarrow> 'w pool \<times> unit outcome" where
  "cleanup endState err p =
     (if cleanedUp p then ok p
      else
        let p1 = p\<lparr>cleanedUp := True,
                   cleanupError := (if err = None then cleanupError p else err)\<rparr>;
            p2 = ended_event endState err (setState endState p1) in
        case end_pipelines err (sorted_list_of_fset (fmdom (pipelines p2))) (pipelines p2) of
          (ps, r) \<Rightarrow> then_do (p2\<lparr>pipelines := ps\<rparr>, r) (\<lambda>p.
            if poolDone p then (p, Panic PanicCloseClosed) else ok (p\<lparr>poolDone := True\<rparr>)))"

definition handleTransportError :: "gerr \<Rightarrow> 'w pool \<Rightarrow> 'w pool \<times> unit outcome" where
  "handleTransportError err p = cleanup PoolBroken (Some err) p"

text \<open>\<open>Close\<close> up to its wait, and the events that end the wait.\<close>

datatype closing = CloseReturns "unit outcome" | CloseWaits

definition close_document :: string where
  "close_document =
     ''<Objs Version=\"1.1.0.1\" xmlns=\"http://schemas.microsoft.com/powershell/2004/04\"><I32>'' @
     itoa RunspacePoolStateClosed @ ''</I32></Objs>''"

definition Close :: "context_state \<Rightarrow> 'w pool \<Rightarrow> 'w pool \<times> closing" where
  "Close ctx p =
     (if poolState p = PoolClosed \<or> poolState p = PoolClosing then (p, CloseReturns (Ret ()))
      else if poolState p \<noteq> PoolOpened then
        (p, CloseReturns (Fail (EWrap (''cannot close from state '' @ PoolState_String (poolState p))
                                  (EIs ErrPoolInvalidState))))
      else
        let p1 = setState PoolClosing p in
        case sendMessage ctx (NewRunspacePoolStateMessage (poolID p1) RunspacePoolStateClosed
            (bytes_of_string close_document)) p1 of
          (p2, Panic x) \<Rightarrow> (p2, CloseReturns (Panic x))
        | (p2, _) \<Rightarrow> (p2, CloseWaits))"

datatype close_event = ServerClosed | CloseTimeout | CloseCancelled sentinel

definition close_cancels :: "'w pool \<Rightarrow> 'w pool" where
  "close_cancels p = p\<lparr>poolCtx := ctx_cancel CtxCanceled (poolCtx p)\<rparr>"

fun Close_finish :: "close_event \<Rightarrow> 'w pool \<Rightarrow> 'w pool \<times> unit outcome" where
  "Close_finish ServerClosed p = ok (close_cancels p)"
| "Close_finish CloseTimeout p = then_do (cleanup PoolClosed None p) (\<lambda>p. ok (close_cancels p))"
| "Close_finish (CloseCancelled e) p =
     then_do (cleanup PoolClosed (Some (EIs e)) p) (\<lambda>p. ok (close_cancels p))"

section \<open>Requests\<close>

definition SendGetAvailableRunspaces :: "context_state \<Rightarrow> 'w pool \<Rightarrow> 'w pool \<times> unit outcome" where
  "SendGetAvailableRunspaces ctx p =
     (if poolState p \<noteq> PoolOpened then (p, Fail (EIs ErrNotOpen))
      else sendMessage ctx (NewGetAvailableRunspaces (poolID p) 1) p)"

text \<open>\<open>GetCommandMetadata\<close> sends its request and then waits.\<close>

definition GetCommandMetadata ::
  "codec_env \<Rightarrow> heap \<Rightarrow> context_state \<Rightarrow> string list \<Rightarrow> 'w pool \<Rightarrow> 'w pool \<times> unit outcome" where
  "GetCommandMetadata E h ctx names p =
     (if poolState p \<noteq> PoolOpened then (p, Fail (EIs ErrNotOpen))
      else
        let ns = (if names = [] then [''*''] else names) in
        bind_st (p, wrap_err ''serialize metadata request''
            (snd (SerializeRaw E h (VSlice (map VString ns)) NewSerializer))) (\<lambda>data p.
          wrap_st ''send metadata request''
            (sendMessage ctx (NewGetCommandMetadata (poolID p) data) p)))"

datatype metadata_event = MetadataReply | MetadataCancelled sentinel | MetadataPoolDone

fun metadata_wait ::
  "codec_env \<Rightarrow> metadata_event \<Rightarrow> 'w pool \<Rightarrow> ('w pool \<times> commandMetadata list outcome) option" where
  "metadata_wait E MetadataReply p =
     (case chan_take (metadataCh p) of
        None \<Rightarrow> None
      | Some (reply, c) \<Rightarrow>
          Some (p\<lparr>metadataCh := c\<rparr>, parseCommandMetadata E (MsgData reply)))"
| "metadata_wait E (MetadataCancelled e) p = Some (p, Fail (EIs e))"
| "metadata_wait E MetadataPoolDone p = (if poolDone p then Some (p, Fail (EIs ErrClosed)) else None)"

text \<open>\<open>WaitForAvailability\<close>: the checks before the wait, and the events of its loop.\<close>

definition WaitForAvailability :: "int \<Rightarrow> 'w pool \<Rightarrow> unit outcome option" where
  "WaitForAvailability n p =
     (if poolState p \<noteq> PoolOpened then
        Some (Fail (EMsg (''pool not opened (state: '' @ PoolState_String (poolState p) @ '')'')))
      else if n \<le> availableRunspaces p then Some (Ret ())
      else None)"

datatype availability_event = AvailabilityCancelled sentinel | AvailabilityNotified int | AvailabilityPolled

fun availability_wait :: "int \<Rightarrow> availability_event \<Rightarrow> 'w pool \<Rightarrow> unit outcome option" where
  "availability_wait n (AvailabilityCancelled e) p = Some (Fail (EIs e))"
| "availability_wait n (AvailabilityNotified k) p = (if n \<le> k then Some (Ret ()) else None)"
| "availability_wait n AvailabilityPolled p =
     (if n \<le> availableRunspaces p then Some (Ret ()) else None)"

end
