(* ===== verification/Dispatch.thy ===== *)
theory Dispatch
  imports Handshake "HOL-Library.Sublist"
begin

text \<open>
  The pool's message loop (\<open>dispatchLoop\<close> of \<open>runspace/runspace.go\<close>) and what hangs on it: the routing
  of messages to pipelines, the handling of the pool's own messages and of transport errors, the
  creation of pipelines and the goroutines that remove them, and the processing of fragments that
  came with the answer to a WSMan connect request. One iteration of the loop is one definition.
\<close>

section \<open>What an iteration of the loop comes to\<close>

text \<open>
  The loop goes on or ends; it is blocked, in a delivery to a pipeline whose stream is full or
  because too many host calls are being answered; or it has started a goroutine that answers a host
  call of a pipeline or of the pool, and goes on.
\<close>

datatype dispatched =
    NextMessage | ExitLoop | DeliveryWaits uuid stream message | LimiterWaits message
  | AnswersPipeline uuid message | AnswersPool message

definition register :: "uuid \<Rightarrow> pipeline \<Rightarrow> 'w pool \<Rightarrow> 'w pool" where
  "register i pl p = p\<lparr>pipelines := fmupd i pl (pipelines p)\<rparr>"

text \<open>A pipeline changes; one that was removed from the map is not put back.\<close>

definition update_pipeline :: "uuid \<Rightarrow> pipeline \<Rightarrow> 'w pool \<Rightarrow> 'w pool" where
  "update_pipeline i pl p = (if i |\<in>| fmdom (pipelines p) then register i pl p else p)"

text \<open>The result of a delivery; one that fails fails its pipeline.\<close>

fun after_delivery :: "uuid \<Rightarrow> pipeline \<times> handled \<Rightarrow> 'w pool \<Rightarrow> 'w pool \<times> dispatched outcome" where
  "after_delivery i (pl, Returned (Ret _)) p = (update_pipeline i pl p, Ret NextMessage)"
| "after_delivery i (pl, Returned (Fail e)) p =
     (case Pipeline_Fail e pl of
        (pl1, Panic x) \<Rightarrow> (update_pipeline i pl1 p, Panic x)
      | (pl1, _) \<Rightarrow> (update_pipeline i pl1 p, Ret NextMessage))"
| "after_delivery i (pl, Returned (Panic x)) p = (update_pipeline i pl p, Panic x)"
| "after_delivery i (pl, Blocked s m) p = (update_pipeline i pl p, Ret (DeliveryWaits i s m))"
| "after_delivery i (pl, Answering m) p = (update_pipeline i pl p, Ret (AnswersPipeline i m))"

definition route_to_pipeline :: "codec_env \<Rightarrow> message \<Rightarrow> 'w pool \<Rightarrow> 'w pool \<times> dispatched outcome" where
  "route_to_pipeline E msg p =
     (case fmlookup (pipelines p) (PipelineID msg) of
        None \<Rightarrow> (p, Ret NextMessage)
      | Some pl \<Rightarrow> after_delivery (PipelineID msg) (HandleMessage E msg pl) p)"

text \<open>A blocked delivery, which holds its pipeline, goes on with one of the cases of its select.\<close>

definition resume_delivery ::
  "wake \<Rightarrow> uuid \<Rightarrow> pipeline \<Rightarrow> stream \<Rightarrow> message \<Rightarrow> 'w pool \<Rightarrow> 'w pool \<times> dispatched outcome" where
  "resume_delivery w i pl s msg p = after_delivery i (blocked_send w s msg pl) p"

section \<open>The pool's own messages\<close>

definition on_capability :: "codec_env \<Rightarrow> bytes \<Rightarrow> 'w pool \<Rightarrow> 'w pool \<times> dispatched outcome" where
  "on_capability E data p =
     (case parseCapabilityData E data of
        Ret caps \<Rightarrow>
          (p\<lparr>serverProtocolVersion := ProtocolVersion caps, serverPSVersion := PSVersion caps\<rparr>,
           Ret NextMessage)
      | Fail e \<Rightarrow> (p, Ret NextMessage)
      | Panic x \<Rightarrow> (p, Panic x))"

text \<open>A host call takes a place of the limiter, or waits for one or for the end of the pool.\<close>

definition on_host_call :: "message \<Rightarrow> 'w pool \<Rightarrow> 'w pool \<times> dispatched outcome" where
  "on_host_call msg p =
     (case chan_offer () (hostCallLimiter p) of
        Ret (Some c) \<Rightarrow> (p\<lparr>hostCallLimiter := c\<rparr>, Ret (AnswersPool msg))
      | Ret None \<Rightarrow> (p, Ret (if poolCtx p \<noteq> None then ExitLoop else LimiterWaits msg))
      | Fail e \<Rightarrow> (p, Fail e)
      | Panic x \<Rightarrow> (p, Panic x))"

text \<open>The goroutine that answers a call of the pool and then gives its place back.\<close>

definition release_limiter :: "'w pool \<Rightarrow> 'w pool" where
  "release_limiter p =
     (case chan_take (hostCallLimiter p) of
        None \<Rightarrow> p
      | Some (_, c) \<Rightarrow> p\<lparr>hostCallLimiter := c\<rparr>)"

definition pool_call_goroutine ::
  "codec_env \<Rightarrow> heap \<Rightarrow> message \<Rightarrow> 'w pool \<Rightarrow> 'w pool \<times> unit outcome" where
  "pool_call_goroutine E h msg p =
     (case pool_handleHostCall E h (poolCtx p) msg p of
        (p1, Ret _) \<Rightarrow> ok (release_limiter p1)
      | (p1, Fail e) \<Rightarrow>
          then_do (handleTransportError (EWrap ''host call failed'' e) p1)
            (\<lambda>p2. ok (release_limiter p2))
      | (p1, Panic x) \<Rightarrow> (p1, Panic x))"

definition exiting :: "'w pool \<times> unit outcome \<Rightarrow> 'w pool \<times> dispatched outcome" where
  "exiting r = bind_st r (\<lambda>_ p. (p, Ret ExitLoop))"

definition on_pool_state :: "codec_env \<Rightarrow> bytes \<Rightarrow> 'w pool \<Rightarrow> 'w pool \<times> dispatched outcome" where
  "on_pool_state E data p =
     (case parseRunspacePoolState E data of
        Panic x \<Rightarrow> (p, Panic x)
      | Fail e \<Rightarrow> (p, Ret NextMessage)
      | Ret info \<Rightarrow>
          if siState info = RunspacePoolStateClosed then exiting (cleanup PoolClosed None p)
          else if siState info = RunspacePoolStateBroken then
            exiting (cleanup PoolBroken (Some (EMsg ''server reported broken state'')) p)
          else if siState info = RunspacePoolStateOpened then
            (let p1 = setState PoolOpened p in
             (emitSecurityEventLocked ''session_lifecycle'' (opened_event E p1) p1, Ret NextMessage))
          else (p, Ret NextMessage))"

definition on_availability :: "codec_env \<Rightarrow> bytes \<Rightarrow> 'w pool \<Rightarrow> 'w pool \<times> dispatched outcome" where
  "on_availability E data p =
     (case parseRunspaceAvailability E data of
        Panic x \<Rightarrow> (p, Panic x)
      | Fail e \<Rightarrow> (p, Ret NextMessage)
      | Ret count \<Rightarrow>
          (p\<lparr>receivedAvailabilityMsg := True, availableRunspaces := count\<rparr>, Ret NextMessage))"

definition dispatch_message :: "codec_env \<Rightarrow> message \<Rightarrow> 'w pool \<Rightarrow> 'w pool \<times> dispatched outcome" where
  "dispatch_message E msg p =
     (if PipelineID msg \<noteq> uuid_Nil then route_to_pipeline E msg p
      else if MType msg = MessageTypeSessionCapability then on_capability E (MsgData msg) p
      else if MType msg = MessageTypeRunspaceHostCall then on_host_call msg p
      else if MType msg = MessageTypeRunspacePoolState then on_pool_state E (MsgData msg) p
      else if MType msg = MessageTypeRunspaceAvailability then on_availability E (MsgData msg) p
      else (p, Ret NextMessage))"

section \<open>Transport errors\<close>

definition isTimeoutError :: "gerr \<Rightarrow> bool" where
  "isTimeoutError err \<longleftrightarrow> errors_is err NetTimeout \<or> errors_is err CtxDeadlineExceeded"

definition isClosedNetworkError :: "gerr \<Rightarrow> bool" where
  "isClosedNetworkError err \<longleftrightarrow>
     errors_is err NetClosed \<or> sublist ''closed network connection'' (err_text err)"

definition transient :: "gerr \<Rightarrow> bool" where
  "transient err \<longleftrightarrow>
     errors_is err IoEOF \<or> errors_is err CtxCanceled \<or> errors_is err CtxDeadlineExceeded \<or>
     isTimeoutError err"

definition dispatch_error :: "gerr \<Rightarrow> 'w pool \<Rightarrow> 'w pool \<times> dispatched outcome" where
  "dispatch_error err p =
     (if poolCtx p \<noteq> None then (p, Ret ExitLoop)
      else if transient err then
        (p, Ret (if poolState p = PoolClosed \<or> poolState p = PoolBroken \<or>
                    poolState p = PoolDisconnected then ExitLoop
                 else if isClosedNetworkError err then ExitLoop
                 else NextMessage))
      else exiting (handleTransportError err p))"

text \<open>
  One iteration: the state is looked at, then a message is received and dispatched; \<open>None\<close> when the
  receive does not return. While the loop is in the receive, other goroutines go on.
\<close>

definition loop_ends :: "'w pool \<Rightarrow> bool" where
  "loop_ends p \<longleftrightarrow> poolState p = PoolClosed \<or> poolState p = PoolBroken"

definition receive_and_dispatch :: "codec_env \<Rightarrow> 'w pool \<Rightarrow> ('w pool \<times> dispatched outcome) option" where
  "receive_and_dispatch E p =
     (case receiveMessage (poolCtx p) p of
        None \<Rightarrow> None
      | Some (p1, Panic x) \<Rightarrow> Some (p1, Panic x)
      | Some (p1, Fail e) \<Rightarrow> Some (dispatch_error e p1)
      | Some (p1, Ret msg) \<Rightarrow> Some (dispatch_message E msg p1))"

definition dispatch_once :: "codec_env \<Rightarrow> 'w pool \<Rightarrow> ('w pool \<times> dispatched outcome) option" where
  "dispatch_once E p = (if loop_ends p then Some (p, Ret ExitLoop) else receive_and_dispatch E p)"

section \<open>Pipelines of the pool\<close>

definition register_pipeline :: "pipeline \<Rightarrow> 'w pool \<Rightarrow> 'w pool \<times> uuid outcome" where
  "register_pipeline pl p =
     (let p1 = register (pipeID pl) pl p in
      case rwMux (poolTransport p1) of
        None \<Rightarrow> (p1, Ret (pipeID pl))
      | Some mux \<Rightarrow>
          (case muxSendCommand mux (pipeID pl) (world p1) of
             (w, Fail e) \<Rightarrow>
               (p1\<lparr>world := w, pipelines := fmdrop (pipeID pl) (pipelines p1)\<rparr>,
                Fail (EWrap ''send command creation'' e))
           | (w, Panic x) \<Rightarrow> (p1\<lparr>world := w\<rparr>, Panic x)
           | (w, Ret _) \<Rightarrow> (p1\<lparr>world := w\<rparr>, Ret (pipeID pl))))"

definition CreatePipeline :: "uuid \<Rightarrow> string \<Rightarrow> 'w pool \<Rightarrow> 'w pool \<times> uuid outcome" where
  "CreatePipeline newID command p =
     (if poolState p \<noteq> PoolOpened then (p, Fail (EIs ErrNotOpen))
      else register_pipeline (NewPipeline newID (poolID p) command) p)"

definition CreatePipelineBuilder :: "uuid \<Rightarrow> 'w pool \<Rightarrow> 'w pool \<times> uuid outcome" where
  "CreatePipelineBuilder newID p =
     (if poolState p \<noteq> PoolOpened then (p, Fail (EIs ErrNotOpen))
      else register_pipeline (NewBuilder newID (poolID p)) p)"

text \<open>
  The goroutine that watches a pipeline: \<open>None\<close> while none of its channels is ready; otherwise the
  pipeline, cancelled unless it is done, which is no longer in the map.
\<close>

definition watch_pipeline :: "uuid \<Rightarrow> 'w pool \<Rightarrow> ('w pool \<times> pipeline) option" where
  "watch_pipeline i p =
     (case fmlookup (pipelines p) i of
        None \<Rightarrow> None
      | Some pl \<Rightarrow>
          let p1 = p\<lparr>pipelines := fmdrop i (pipelines p)\<rparr> in
          if pipeDone pl then Some (p1, pl)
          else if poolDone p \<or> poolCtx p \<noteq> None then Some (p1, Cancel pl)
          else None)"

text \<open>The pool is the transport of its pipelines.\<close>

definition lift_st :: "('w \<Rightarrow> 'w \<times> 'a) \<Rightarrow> 'w pool \<Rightarrow> 'w pool \<times> 'a" where
  "lift_st f p = (case f (world p) of (w, x) \<Rightarrow> (p\<lparr>world := w\<rparr>, x))"

definition lift_sink :: "('w \<Rightarrow> 'w) \<Rightarrow> 'w pool \<Rightarrow> 'w pool" where
  "lift_sink f p = p\<lparr>world := f (world p)\<rparr>"

definition lift_ui :: "'w hostUI \<Rightarrow> 'w pool hostUI" where
  "lift_ui ui =
     \<lparr>uiReadLine = lift_st (uiReadLine ui),
      uiReadLineAsSecureString = lift_st (uiReadLineAsSecureString ui),
      uiWrite = (\<lambda>t. lift_sink (uiWrite ui t)), uiWriteLine = (\<lambda>t. lift_sink (uiWriteLine ui t)),
      uiWriteErrorLine = (\<lambda>t. lift_sink (uiWriteErrorLine ui t)),
      uiWriteDebugLine = (\<lambda>t. lift_sink (uiWriteDebugLine ui t)),
      uiWriteVerboseLine = (\<lambda>t. lift_sink (uiWriteVerboseLine ui t)),
      uiWriteWarningLine = (\<lambda>t. lift_sink (uiWriteWarningLine ui t)),
      uiWriteProgress = (\<lambda>i r. lift_sink (uiWriteProgress ui i r)),
      uiPrompt = (\<lambda>c m ds. lift_st (uiPrompt ui c m ds)),
      uiPromptForCredential = (\<lambda>c m u t a op. lift_st (uiPromptForCredential ui c m u t a op)),
      uiPromptForChoice = (\<lambda>c m cs dflt. lift_st (uiPromptForChoice ui c m cs dflt))\<rparr>"

definition lift_host :: "'w host \<Rightarrow> 'w pool host" where
  "lift_host hst =
     \<lparr>hostName = hostName hst, hostVersion = hostVersion hst, hostInstanceID = hostInstanceID hst,
      hostCurrentCulture = hostCurrentCulture hst, hostCurrentUICulture = hostCurrentUICulture hst,
      hostUI = map_option lift_ui (hostUI hst)\<rparr>"

definition pool_transport :: "'w pool \<Rightarrow> 'w pool transport" where
  "pool_transport p =
     \<lparr>tSendMessage = SendMessage, tHost = map_option lift_host (poolHost p)\<rparr>"

text \<open>An operation of a pipeline of the pool.\<close>

definition on_pipeline ::
  "uuid \<Rightarrow> (pipeline \<times> 'w pool \<Rightarrow> (pipeline \<times> 'w pool) \<times> unit outcome) \<Rightarrow> 'w pool \<Rightarrow>
    'w pool \<times> unit outcome" where
  "on_pipeline i f p =
     (case fmlookup (pipelines p) i of
        None \<Rightarrow> ok p
      | Some pl \<Rightarrow> (case f (pl, p) of ((pl1, p1), r) \<Rightarrow> (update_pipeline i pl1 p1, r)))"

section \<open>Fragments from a connect response\<close>

text \<open>
  The loop of \<open>ProcessConnectResponse\<close>, from an offset. The lengths are Go's 64 bit \<open>int\<close>, so the
  sums do not wrap. A message that does not decode is logged and passed over.
\<close>

function process_from :: "bytes \<Rightarrow> nat \<Rightarrow> assembler \<Rightarrow> assembler \<times> unit outcome" where
  "process_from data offset a =
     (if \<not> offset < length data then ok a
      else if length data < offset + Frag_HeaderSize then ok a
      else
        let blobLen = BigEndian_Uint32 (slice data (offset + 17) (offset + 21));
            fragLen = Frag_HeaderSize + unat blobLen in
        if length data < offset + fragLen then (a, Fail (EMsg ''incomplete fragment''))
        else case Fragment_Decode (slice data offset (offset + fragLen)) of
            Panic x \<Rightarrow> (a, Panic x)
          | Fail e \<Rightarrow> (a, Fail (EWrap ''decode fragment'' e))
          | Ret frag \<Rightarrow>
              (case Assembler_Add a frag of
                 (a1, Panic x) \<Rightarrow> (a1, Panic x)
               | (a1, Fail e) \<Rightarrow> (a1, Fail (EWrap ''assemble fragment'' e))
               | (a1, Ret (Some msgData)) \<Rightarrow>
                   (case Message_Decode msgData of
                      Panic x \<Rightarrow> (a1, Panic x)
                    | _ \<Rightarrow> process_from data (offset + fragLen) a1)
               | (a1, Ret None) \<Rightarrow> process_from data (offset + fragLen) a1))"
  by pat_completeness auto
termination
  by (relation "measure (\<lambda>(data, offset, a). length data - offset)")
    (auto simp: Frag_HeaderSize_def)

declare process_from.simps [simp del]

definition ProcessConnectResponse :: "bytes \<Rightarrow> 'w pool \<Rightarrow> 'w pool \<times> unit outcome" where
  "ProcessConnectResponse data p =
     (if data = [] then ok p
      else case process_from data 0 (poolAssembler p) of (a, r) \<Rightarrow> (p\<lparr>poolAssembler := a\<rparr>, r))"

end
