(* ===== verification/Fragments_Correct.thy ===== *)
theory Fragments_Correct
  imports Fragments
begin

text \<open>
  The properties of the fragment layer: the header round trip with its exact bound, the
  closed form of the fragmenter's output, reassembly in any order and under interleaving,
  and the limits that bound the assembler's memory.
\<close>

section \<open>The wire form\<close>

lemma Fragment_flags_Start: "(and (Fragment_flags f) FlagStart \<noteq> 0) = Start f"
  by (simp add: Fragment_flags_def FlagStart_def FlagEnd_def)

lemma Fragment_flags_End: "(and (Fragment_flags f) FlagEnd \<noteq> 0) = End f"
  by (simp add: Fragment_flags_def FlagStart_def FlagEnd_def)

definition Fragment_header :: "fragment \<Rightarrow> bytes" where
  "Fragment_header f =
     BigEndian_PutUint64 (ObjectID f) @ BigEndian_PutUint64 (FragmentID f) @
     [Fragment_flags f] @ BigEndian_PutUint32 (word_of_nat (length (FragData f)))"

lemma length_Fragment_header [simp]: "length (Fragment_header f) = 21"
  by (simp add: Fragment_header_def codec_simps)

lemma Fragment_Encode_eq:
  "int (length (FragData f)) \<le> MaxUint32 \<Longrightarrow>
   Fragment_Encode f = Ret (Fragment_header f @ FragData f)"
  by (simp add: Fragment_Encode_def Fragment_header_def)

lemma header_fields:
  "BigEndian_Uint64 (slice (Fragment_header f @ bs) 0 8) = ObjectID f"
  "BigEndian_Uint64 (slice (Fragment_header f @ bs) 8 16) = FragmentID f"
  "(Fragment_header f @ bs) ! 16 = Fragment_flags f"
  "BigEndian_Uint32 (slice (Fragment_header f @ bs) 17 21) = word_of_nat (length (FragData f))"
proof -
  let ?o = "BigEndian_PutUint64 (ObjectID f)" and ?i = "BigEndian_PutUint64 (FragmentID f)"
    and ?l = "BigEndian_PutUint32 (word_of_nat (length (FragData f)))"
  have h: "Fragment_header f @ bs = ?o @ (?i @ [Fragment_flags f] @ ?l @ bs)"
    by (simp add: Fragment_header_def)
  show "BigEndian_Uint64 (slice (Fragment_header f @ bs) 0 8) = ObjectID f"
    unfolding h by (rule be64.dec_slice_first) simp
  show "BigEndian_Uint64 (slice (Fragment_header f @ bs) 8 16) = FragmentID f"
    unfolding h by (rule be64.dec_slice) (simp_all add: codec_simps)
  show "(Fragment_header f @ bs) ! 16 = Fragment_flags f"
    unfolding h by (simp add: nth_append codec_simps)
  have h': "Fragment_header f @ bs = (?o @ ?i @ [Fragment_flags f]) @ ?l @ bs"
    by (simp add: Fragment_header_def)
  show "BigEndian_Uint32 (slice (Fragment_header f @ bs) 17 21) =
      word_of_nat (length (FragData f))"
    unfolding h' by (rule be32.dec_slice) (simp_all add: codec_simps)
qed

lemma unat_blobLen: "n < 4294967296 \<Longrightarrow> unat (word_of_nat n :: uint32) = n"
  by (simp add: unat_of_nat)

lemma unat_blobLen_plus: "unat (21 + word_of_nat n :: uint32) = (21 + n) mod 4294967296"
proof -
  have "(21 + word_of_nat n :: uint32) = word_of_nat (21 + n)" by simp
  then show ?thesis by (simp only: unat_of_nat) simp
qed

lemma Fragment_Decode_header:
  assumes "length (FragData f) < 4294967275"
  shows "Fragment_Decode (Fragment_header f @ FragData f @ rest) = Ret f"
  using assms
  by (simp add: Fragment_Decode_def header_fields Frag_HeaderSize_def unat_blobLen
      unat_blobLen_plus Fragment_flags_Start Fragment_flags_End Let_def slice_append_right)
     (simp add: slice_append_left)

text \<open>
  C25. A fragment that encodes at all is read back exactly, whatever follows it in the buffer,
  as long as its payload is below 2^32 - 21 bytes.
\<close>

theorem fragment_roundtrip:
  assumes "Fragment_Encode f = Ret bs" and "length (FragData f) < 4294967275"
  shows "Fragment_Decode (bs @ rest) = Ret f \<and> length bs = 21 + length (FragData f)"
proof -
  have "bs = Fragment_header f @ FragData f"
    using assms by (simp add: Fragment_Encode_eq MaxUint32_def)
  then show ?thesis using assms(2) by (simp add: Fragment_Decode_header)
qed

theorem fragment_roundtrip_witness:
  "Fragment_Decode (Fragment_header \<lparr>ObjectID = 1, FragmentID = 2, Start = True, End = False,
       FragData = [7, 8]\<rparr> @ [7, 8] @ [9]) =
   Ret \<lparr>ObjectID = 1, FragmentID = 2, Start = True, End = False, FragData = [7, 8]\<rparr>"
proof -
  let ?f = "\<lparr>ObjectID = 1, FragmentID = 2, Start = True, End = False, FragData = [7, 8]\<rparr>"
  have "Fragment_Encode ?f = Ret (Fragment_header ?f @ [7, 8])"
    by (subst Fragment_Encode_eq) (simp_all add: MaxUint32_def)
  from fragment_roundtrip [OF this, of "[9]"] show ?thesis by simp
qed

text \<open>
  C35. The largest payloads that \<open>Encode\<close> accepts cannot be decoded: the slice bound
  \<open>21+blobLen\<close> wraps in \<open>uint32\<close> and Go panics.
\<close>

theorem fragment_decode_wrap_panics:
  assumes "4294967275 \<le> length (FragData f)" and "length (FragData f) \<le> 4294967295"
  shows "\<exists>bs. Fragment_Encode f = Ret bs \<and> Fragment_Decode bs = Panic PanicSliceBounds"
proof -
  have n: "unat (word_of_nat (length (FragData f)) :: uint32) = length (FragData f)"
    using assms by (simp add: unat_of_nat)
  have "unat (21 + word_of_nat (length (FragData f)) :: uint32) =
      (21 + length (FragData f)) mod 4294967296"
    by (rule unat_blobLen_plus)
  also have "\<dots> = (length (FragData f) - 4294967275 + 4294967296) mod 4294967296"
    using assms by simp
  also have "\<dots> = length (FragData f) - 4294967275"
    unfolding mod_add_self2 using assms by simp
  also have "\<dots> < 21" using assms by simp
  finally have hi: "unat (21 + word_of_nat (length (FragData f)) :: uint32) < 21" .
  have "Fragment_Decode (Fragment_header f @ FragData f) = Panic PanicSliceBounds"
    using hi by (simp add: Fragment_Decode_def header_fields Frag_HeaderSize_def n Let_def)
  moreover have "Fragment_Encode f = Ret (Fragment_header f @ FragData f)"
    using assms by (simp add: Fragment_Encode_eq MaxUint32_def)
  ultimately show ?thesis by blast
qed

theorem fragment_decode_wrap_panics_witness:
  "\<exists>f bs. Fragment_Encode f = Ret bs \<and> Fragment_Decode bs = Panic PanicSliceBounds"
proof -
  obtain xs :: bytes where xs: "length xs = 4294967275"
    using Ex_list_of_length by blast
  let ?f = "\<lparr>ObjectID = 1, FragmentID = 0, Start = True, End = True, FragData = xs\<rparr>"
  have "4294967275 \<le> length (FragData ?f)" and "length (FragData ?f) \<le> 4294967295"
    using xs by simp_all
  from fragment_decode_wrap_panics [OF this] show ?thesis by blast
qed

section \<open>The fragmenter\<close>

definition nchunks :: "nat \<Rightarrow> nat \<Rightarrow> nat" where
  "nchunks len mp = (len + mp - 1) div mp"

definition chunk :: "uint64 \<Rightarrow> nat \<Rightarrow> bytes \<Rightarrow> nat \<Rightarrow> fragment" where
  "chunk oid mp data i =
     \<lparr>ObjectID = oid, FragmentID = of_nat i, Start = (i = 0),
      End = (i = nchunks (length data) mp - 1),
      FragData = slice data (i * mp) (min (length data) (i * mp + mp))\<rparr>"

lemma nchunks_less_iff:
  assumes "0 < mp"
  shows "i < nchunks len mp \<longleftrightarrow> i * mp < len"
proof -
  have "i < nchunks len mp \<longleftrightarrow> Suc i * mp \<le> len + mp - 1"
    unfolding nchunks_def using assms by (simp add: less_eq_div_iff_mult_less_eq Suc_le_eq [symmetric])
  also have "\<dots> \<longleftrightarrow> i * mp < len" using assms by auto
  finally show ?thesis .
qed

lemma nchunks_last_iff:
  assumes "0 < mp" and "i * mp < len"
  shows "i = nchunks len mp - 1 \<longleftrightarrow> len \<le> i * mp + mp"
  using nchunks_less_iff [OF assms(1), of i len] nchunks_less_iff [OF assms(1), of "Suc i" len]
    assms(2) by auto

lemma frag_loop_closed:
  assumes "0 < mp" and "i \<le> nchunks (length data) mp"
  shows "frag_loop oid mp data (min (length data) (i * mp)) (of_nat i) =
    map (chunk oid mp data) [i..<nchunks (length data) mp]"
  using assms(2)
proof (induction rule: inc_induct)
  case base
  have "length data \<le> nchunks (length data) mp * mp"
    using nchunks_less_iff [OF assms(1), of "nchunks (length data) mp" "length data"] by simp
  then show ?case by (simp add: frag_loop.simps [of oid mp data])
next
  case (step i)
  have lt: "i * mp < length data"
    using nchunks_less_iff [OF assms(1)] step.hyps(2) by blast
  let ?e = "if length data < i * mp + mp then length data else i * mp + mp"
  have e: "?e = min (length data) (Suc i * mp)" and e': "?e = min (length data) (i * mp + mp)"
    by (auto simp: min_def)
  have last: "(?e = length data) = (i = nchunks (length data) mp - 1)"
    using nchunks_last_iff [OF assms(1) lt] by auto
  have "frag_loop oid mp data (min (length data) (i * mp)) (of_nat i) =
      \<lparr>ObjectID = oid, FragmentID = of_nat i, Start = (i * mp = 0), End = (?e = length data),
       FragData = slice data (i * mp) ?e\<rparr> # frag_loop oid mp data ?e (of_nat i + 1)"
    using lt assms(1) by (subst frag_loop.simps) (simp add: min_def Let_def)
  also have "frag_loop oid mp data ?e (of_nat i + 1) =
      map (chunk oid mp data) [Suc i..<nchunks (length data) mp]"
    using step.IH unfolding e by (simp add: add.commute)
  finally show ?case
    using step.hyps(2) assms(1) last e' by (simp add: upt_conv_Cons chunk_def)
qed

text \<open>
  The fragments of a message, as a list of payloads: what the fragmenter produces and what
  the assembler relies on, without the offsets.
\<close>

definition fragments_of :: "uint64 \<Rightarrow> bytes list \<Rightarrow> fragment list" where
  "fragments_of oid ds =
     map (\<lambda>i. \<lparr>ObjectID = oid, FragmentID = of_nat i, Start = (i = 0),
               End = (i = length ds - 1), FragData = ds ! i\<rparr>) [0..<length ds]"

definition chunks :: "nat \<Rightarrow> bytes \<Rightarrow> bytes list" where
  "chunks mp data =
     (if data = [] then [[]]
      else map (\<lambda>i. slice data (i * mp) (min (length data) (i * mp + mp)))
             [0..<nchunks (length data) mp])"

lemma slice_min: "slice data a (min (length data) (a + m)) = take m (drop a data)"
  by (auto simp: slice_def min_def)

lemma concat_slices:
  "concat (map (\<lambda>i. slice data (i * mp) (min (length data) (i * mp + mp))) [0..<n]) =
   take (n * mp) data"
  by (induction n) (simp_all add: slice_min take_add [symmetric], simp add: add.commute)

lemma concat_chunks: "0 < mp \<Longrightarrow> concat (chunks mp data) = data"
  using nchunks_less_iff [of mp "nchunks (length data) mp" "length data"]
  by (simp add: chunks_def concat_slices)

lemma chunks_nonempty [simp]: "0 < mp \<Longrightarrow> chunks mp data \<noteq> []"
  using nchunks_less_iff [of mp 0 "length data"] by (auto simp: chunks_def)

lemma length_chunks: "length (chunks mp data) = (if data = [] then 1 else nchunks (length data) mp)"
  by (simp add: chunks_def)

lemma chunk_size: "d \<in> set (chunks mp data) \<Longrightarrow> length d \<le> mp"
  by (auto simp: chunks_def split: if_splits)

lemma frag_loop_chunks:
  assumes "0 < mp" and "data \<noteq> []"
  shows "frag_loop oid mp data 0 0 = fragments_of oid (chunks mp data)"
proof -
  have "frag_loop oid mp data 0 0 = map (chunk oid mp data) [0..<nchunks (length data) mp]"
    using frag_loop_closed [OF assms(1), of 0 data oid] by simp
  also have "\<dots> = fragments_of oid (chunks mp data)"
    using assms(2) by (simp add: fragments_of_def chunks_def chunk_def)
  finally show ?thesis .
qed

lemma fragments_of_Nil_iff [simp]: "fragments_of oid ds = [] \<longleftrightarrow> ds = []"
  by (simp add: fragments_of_def)

lemma Fragmenter_Fragment_eq:
  assumes "21 < maxSize f" and "int (length data) + maxSize f \<le> MaxInt"
  shows "Fragmenter_Fragment f data =
    (f\<lparr>objectID := objectID f + 1\<rparr>,
     Ret (fragments_of (objectID f + 1) (chunks (nat (maxSize f - 21)) data)))"
proof -
  have mp: "maxPayload_of (maxSize f) data = maxSize f - 21"
    using assms by (simp add: maxPayload_of_def Frag_HeaderSize_def Let_def)
  let ?fs = "frag_loop (objectID f + 1) (nat (maxSize f - 21)) data 0 0"
  have "Fragmenter_Fragment f data = (f\<lparr>objectID := objectID f + 1\<rparr>, Ret (if ?fs = [] then
      [\<lparr>ObjectID = objectID f + 1, FragmentID = 0, Start = True, End = True, FragData = []\<rparr>]
      else ?fs))"
    using assms by (simp add: Fragmenter_Fragment_def mp Let_def pos_imp_zdiv_neg_iff)
  also have "(if ?fs = [] then
      [\<lparr>ObjectID = objectID f + 1, FragmentID = 0, Start = True, End = True, FragData = []\<rparr>]
      else ?fs) = fragments_of (objectID f + 1) (chunks (nat (maxSize f - 21)) data)"
    using assms
    by (cases "data = []")
       (simp_all add: frag_loop_chunks, simp add: frag_loop.simps fragments_of_def chunks_def)
  finally show ?thesis .
qed

text \<open>
  C1. For every fragment size above the header and every message, \<open>Fragment\<close> advances the
  object id by one and returns fragments that carry exactly the message, in order, numbered
  from 0, with \<open>Start\<close> on the first and \<open>End\<close> on the last alone, none larger than the size.
\<close>

theorem fragmenter_correct:
  assumes "21 < maxSize f" and "int (length data) + maxSize f \<le> MaxInt"
  shows "\<exists>fs. Fragmenter_Fragment f data = (f\<lparr>objectID := objectID f + 1\<rparr>, Ret fs) \<and>
    concat (map FragData fs) = data \<and> fs \<noteq> [] \<and>
    (\<forall>i<length fs. ObjectID (fs ! i) = objectID f + 1 \<and> FragmentID (fs ! i) = of_nat i \<and>
       Start (fs ! i) = (i = 0) \<and> End (fs ! i) = (i = length fs - 1) \<and>
       int (length (FragData (fs ! i))) + 21 \<le> maxSize f)"
proof -
  let ?ds = "chunks (nat (maxSize f - 21)) data"
  let ?fs = "fragments_of (objectID f + 1) ?ds"
  have mp: "0 < nat (maxSize f - 21)" using assms(1) by simp
  have "map FragData ?fs = ?ds" by (simp add: fragments_of_def comp_def map_nth)
  then have "concat (map FragData ?fs) = data" using mp by (simp add: concat_chunks)
  moreover have "int (length (?ds ! i)) + 21 \<le> maxSize f" if "i < length ?ds" for i
    using chunk_size [OF nth_mem [OF that]] assms(1) by linarith
  moreover have "?fs \<noteq> []" using mp by simp
  ultimately show ?thesis
    using Fragmenter_Fragment_eq [OF assms] by (intro exI [of _ ?fs]) (simp add: fragments_of_def)
qed

theorem fragmenter_correct_witness:
  "\<exists>fs. Fragmenter_Fragment \<lparr>maxSize = 23, objectID = 4\<rparr> [1, 2, 3] =
     (\<lparr>maxSize = 23, objectID = 5\<rparr>, Ret fs) \<and> concat (map FragData fs) = [1, 2, 3]"
  using fragmenter_correct [of "\<lparr>maxSize = 23, objectID = 4\<rparr>" "[1, 2, 3]"]
  by (auto simp: MaxInt_def)

text \<open>
  With a fragment size that leaves no room for a payload, the whole message goes into one
  fragment, unless the message is empty: then the number of fragments is computed by a
  division by zero and Go panics.
\<close>

theorem fragmenter_small_size:
  assumes "0 \<le> maxSize f" and "maxSize f \<le> 21" and "2 * int (length data) \<le> MaxInt"
  shows "snd (Fragmenter_Fragment f data) =
    (if data = [] then Panic PanicDivide
     else Ret [\<lparr>ObjectID = objectID f + 1, FragmentID = 0, Start = True, End = True,
                FragData = data\<rparr>])"
proof -
  have mp: "maxPayload_of (maxSize f) data = int (length data)"
    using assms by (simp add: maxPayload_of_def Frag_HeaderSize_def Let_def MaxInt_def)
  show ?thesis
  proof (cases "data = []")
    case True
    then show ?thesis using mp by (simp add: Fragmenter_Fragment_def Let_def)
  next
    case False
    then have one: "1 \<le> int (length data)" by (cases data) simp_all
    have "frag_loop (objectID f + 1) (length data) data 0 0 =
        [\<lparr>ObjectID = objectID f + 1, FragmentID = 0, Start = True, End = True, FragData = data\<rparr>]"
      using False by (simp add: frag_loop.simps [of _ _ data] Let_def)
    then show ?thesis
      using False assms(3) one
      by (simp add: Fragmenter_Fragment_def mp Let_def pos_imp_zdiv_neg_iff MaxInt_def)
  qed
qed

theorem fragmenter_small_size_witness:
  "snd (Fragmenter_Fragment (NewFragmenter 21) []) = Panic PanicDivide"
  using fragmenter_small_size [of "NewFragmenter 21" "[]"]
  by (simp add: NewFragmenter_def MaxInt_def)

section \<open>Reassembly in any order\<close>

lemma of_nat_uint64_eq_iff:
  "m < 18446744073709551616 \<Longrightarrow> n < 18446744073709551616 \<Longrightarrow>
   (of_nat m :: uint64) = of_nat n \<longleftrightarrow> m = n"
  by (simp add: word_of_nat_eq_iff take_bit_nat_eq_self)

text \<open>
  What the pending entry of a message holds once the fragments with the indices \<open>S\<close> were
  added, in whatever order.
\<close>

definition pm_holds :: "bytes list \<Rightarrow> nat set \<Rightarrow> pendingMessage \<Rightarrow> bool" where
  "pm_holds ds S pm \<longleftrightarrow>
     (\<forall>i<length ds. fmlookup (fragments pm) (of_nat i) = (if i \<in> S then Some (ds ! i) else None)) \<and>
     received pm = int (card S) \<and>
     total pm = (if length ds - 1 \<in> S then int (length ds) else -1)"

lemma pm_holds_new: "pm_holds ds {} new_pendingMessage"
  by (simp add: pm_holds_def new_pendingMessage_def)

lemma pm_holds_reassemble:
  assumes "pm_holds ds {..<length ds} pm" and "ds \<noteq> []"
  shows "reassemble pm = concat ds"
proof -
  have "nat (total pm) = length ds" using assms by (simp add: pm_holds_def)
  moreover have "map (\<lambda>i. fragment_at pm (of_nat i)) [0..<length ds] = map ((!) ds) [0..<length ds]"
    using assms(1) by (intro map_cong) (simp_all add: pm_holds_def fragment_at_def)
  ultimately show ?thesis by (simp add: reassemble_def map_nth)
qed

text \<open>A call of \<open>Add\<close> that none of the guards rejects.\<close>

definition add_fragment :: "pendingMessage \<Rightarrow> fragment \<Rightarrow> pendingMessage" where
  "add_fragment pm f =
     pm\<lparr>fragments := fmupd (FragmentID f) (FragData f) (fragments pm),
        total := (if End f then int (unat (FragmentID f)) + 1 else total pm),
        received := received pm + 1\<rparr>"

lemma Assembler_Add_pm_accepts:
  assumes "received pm < maxFragmentsPerMsg a"
    and "fmlookup (fragments pm) (FragmentID f) = None"
    and "int (unat (FragmentID f)) < MaxInt"
  shows "Assembler_Add_pm a pm f =
    (let pm' = add_fragment pm f in
     if 0 < total pm' \<and> received pm' = total pm'
     then (a\<lparr>pending := fmdrop (ObjectID f) (pending a)\<rparr>, Ret (Some (reassemble pm')))
     else (a\<lparr>pending := fmupd (ObjectID f) pm' (pending a)\<rparr>, Ret None))"
  using assms
  by (cases pm; cases f) (simp add: Assembler_Add_pm_def add_fragment_def Let_def)

text \<open>One call of \<open>Add\<close> with a fragment that is still missing.\<close>

lemma unat_index:
  "i < length ds \<Longrightarrow> int (length ds) \<le> MaxInt \<Longrightarrow> unat (of_nat i :: uint64) = i"
  by (simp add: unat_of_nat MaxInt_def)

lemma nth_fragments_of:
  "i < length ds \<Longrightarrow> fragments_of oid ds ! i = \<lparr>ObjectID = oid, FragmentID = of_nat i, Start = (i = 0),
      End = (i = length ds - 1), FragData = ds ! i\<rparr>"
  by (simp add: fragments_of_def)

text \<open>A pending message that holds some fragments and takes another one.\<close>

lemma pm_holds_add:
  assumes pm: "pm_holds ds S pm" and S: "S \<subseteq> {..<length ds}" and i: "i < length ds" "i \<notin> S"
    and len: "int (length ds) \<le> MaxInt"
  shows "pm_holds ds (insert i S) (add_fragment pm (fragments_of oid ds ! i))"
proof -
  let ?pm' = "add_fragment pm (fragments_of oid ds ! i)"
  have fin: "finite S" using S finite_subset by blast
  have idx: "(of_nat j :: uint64) = of_nat k \<longleftrightarrow> j = k" if "j < length ds" "k < length ds" for j k
    using that len by (intro of_nat_uint64_eq_iff) (simp_all add: MaxInt_def)
  note frag = nth_fragments_of [OF i(1)]
  have frs: "fragments ?pm' = fmupd (of_nat i) (ds ! i) (fragments pm)"
    and rcv: "received ?pm' = received pm + 1"
    by (simp_all add: add_fragment_def frag)
  have tot: "total ?pm' = (if i = length ds - 1 then int (length ds) else total pm)"
    unfolding add_fragment_def frag pendingMessage.simps fragment.simps unat_index [OF i(1) len]
    using i(1) by auto
  show ?thesis
    unfolding pm_holds_def frs rcv tot
  proof (intro conjI allI impI)
    fix j assume j: "j < length ds"
    then show "fmlookup (fmupd (of_nat i) (ds ! i) (fragments pm)) (of_nat j) =
        (if j \<in> insert i S then Some (ds ! j) else None)"
      using pm idx [OF i(1) j] by (simp only: fmupd_lookup pm_holds_def) auto
  qed (use pm i(2) fin in \<open>auto simp: pm_holds_def\<close>)
qed

lemma pm_holds_complete:
  assumes "pm_holds ds S pm" and "S \<subseteq> {..<length ds}" and "S \<noteq> {}"
  shows "0 < total pm \<and> received pm = total pm \<longleftrightarrow> S = {..<length ds}"
proof -
  have "card S = length ds \<longleftrightarrow> S = {..<length ds}"
    by (metis assms(2) card_lessThan card_subset_eq finite_lessThan)
  moreover have "0 < length ds" using assms(2,3) by auto
  ultimately show ?thesis using assms(1) by (auto simp: pm_holds_def)
qed

lemma Add_pm_step:
  assumes pm: "pm_holds ds S pm" and S: "S \<subseteq> {..<length ds}"
    and i: "i < length ds" "i \<notin> S"
    and len: "int (length ds) \<le> MaxInt" "int (length ds) \<le> maxFragmentsPerMsg a"
  obtains pm' where "pm_holds ds (insert i S) pm'"
    and "Assembler_Add_pm a pm (fragments_of oid ds ! i) =
      (if insert i S = {..<length ds}
       then (a\<lparr>pending := fmdrop oid (pending a)\<rparr>, Ret (Some (concat ds)))
       else (a\<lparr>pending := fmupd oid pm' (pending a)\<rparr>, Ret None))"
proof -
  let ?pm' = "add_fragment pm (fragments_of oid ds ! i)"
  have holds: "pm_holds ds (insert i S) ?pm'" by (rule pm_holds_add [OF pm S i len(1)])
  have compl: "0 < total ?pm' \<and> received ?pm' = total ?pm' \<longleftrightarrow> insert i S = {..<length ds}"
    using holds by (rule pm_holds_complete) (use S i(1) in auto)
  have "card S < card {..<length ds}" using S i by (intro psubset_card_mono) auto
  then have rec: "received pm < maxFragmentsPerMsg a" using pm len(2) by (simp add: pm_holds_def)
  have fresh: "fmlookup (fragments pm) (of_nat i) = None" using pm i by (simp add: pm_holds_def)
  have oid: "ObjectID (fragments_of oid ds ! i) = oid"
    and fid: "FragmentID (fragments_of oid ds ! i) = of_nat i"
    by (simp_all add: nth_fragments_of [OF i(1)])
  have whole: "reassemble ?pm' = concat ds" if "insert i S = {..<length ds}"
    using pm_holds_reassemble [OF holds [unfolded that]] i(1) by force
  have small: "int (unat (of_nat i :: uint64)) < MaxInt"
    unfolding unat_index [OF i(1) len(1)] using i(1) len(1) by simp
  have "Assembler_Add_pm a pm (fragments_of oid ds ! i) =
      (if insert i S = {..<length ds}
       then (a\<lparr>pending := fmdrop oid (pending a)\<rparr>, Ret (Some (reassemble ?pm')))
       else (a\<lparr>pending := fmupd oid ?pm' (pending a)\<rparr>, Ret None))"
    by (subst Assembler_Add_pm_accepts) (simp_all only: oid fid rec fresh small Let_def compl)
  then have "Assembler_Add_pm a pm (fragments_of oid ds ! i) =
      (if insert i S = {..<length ds}
       then (a\<lparr>pending := fmdrop oid (pending a)\<rparr>, Ret (Some (concat ds)))
       else (a\<lparr>pending := fmupd oid ?pm' (pending a)\<rparr>, Ret None))"
    by (simp only: whole cong: if_cong)
  with holds show ?thesis by (rule that)
qed

lemma Add_known:
  "fmlookup (pending a) (ObjectID f) = Some pm \<Longrightarrow> Assembler_Add a f = Assembler_Add_pm a pm f"
  by (simp add: Assembler_Add_def)

lemma Add_new:
  "fmlookup (pending a) (ObjectID f) = None \<Longrightarrow>
   int (fmsize (pending a)) < maxPendingMessages a \<Longrightarrow>
   Assembler_Add a f =
     Assembler_Add_pm (a\<lparr>pending := fmupd (ObjectID f) new_pendingMessage (pending a)\<rparr>)
       new_pendingMessage f"
  by (simp add: Assembler_Add_def)

lemma ObjectID_fragments_of [simp]: "i < length ds \<Longrightarrow> ObjectID (fragments_of oid ds ! i) = oid"
  by (simp add: fragments_of_def)

lemma Add_all_missing:
  assumes "pm_holds ds S pm" and "S \<subseteq> {..<length ds}"
    and "distinct js" and "set js = {..<length ds} - S" and "js \<noteq> []"
    and "fmlookup (pending a) oid = Some pm"
    and "int (length ds) \<le> MaxInt" and "int (length ds) \<le> maxFragmentsPerMsg a"
  shows "Add_all a (map (\<lambda>i. fragments_of oid ds ! i) js) =
    (a\<lparr>pending := fmdrop oid (pending a)\<rparr>,
     replicate (length js - 1) (Ret None) @ [Ret (Some (concat ds))])"
  using assms
proof (induction js arbitrary: a S pm)
  case Nil
  then show ?case by simp
next
  case (Cons i js)
  have i: "i < length ds" "i \<notin> S" using Cons.prems(4) by auto
  obtain pm' where pm': "pm_holds ds (insert i S) pm'"
    and add: "Assembler_Add_pm a pm (fragments_of oid ds ! i) =
      (if insert i S = {..<length ds}
       then (a\<lparr>pending := fmdrop oid (pending a)\<rparr>, Ret (Some (concat ds)))
       else (a\<lparr>pending := fmupd oid pm' (pending a)\<rparr>, Ret None))"
    using Add_pm_step [OF Cons.prems(1,2) i Cons.prems(7,8)] by metis
  have known: "Assembler_Add a (fragments_of oid ds ! i) =
      Assembler_Add_pm a pm (fragments_of oid ds ! i)"
    using i Cons.prems(6) by (intro Add_known) simp
  have rest: "set js = {..<length ds} - insert i S" using Cons.prems(3,4) by auto
  show ?case
  proof (cases "js = []")
    case True
    then have "insert i S = {..<length ds}" using rest i Cons.prems(2) by auto
    then show ?thesis using True known add by simp
  next
    case False
    then have ne: "insert i S \<noteq> {..<length ds}"
      by (metis Diff_cancel rest set_empty)
    let ?a = "a\<lparr>pending := fmupd oid pm' (pending a)\<rparr>"
    have "Add_all ?a (map (\<lambda>i. fragments_of oid ds ! i) js) =
        (?a\<lparr>pending := fmdrop oid (pending ?a)\<rparr>,
         replicate (length js - 1) (Ret None) @ [Ret (Some (concat ds))])"
    proof (rule Cons.IH [OF pm' _ _ rest False])
      show "insert i S \<subseteq> {..<length ds}" using Cons.prems(2) i by blast
      show "distinct js" using Cons.prems(3) by simp
    qed (use Cons.prems(7,8) in simp_all)
    moreover have "Assembler_Add a (fragments_of oid ds ! i) = (?a, Ret None)"
      unfolding known add using ne by (simp only: if_False)
    ultimately show ?thesis
      using False by (cases js) (simp_all add: Let_def)
  qed
qed

lemma Add_all_permuted:
  assumes "fmlookup (pending a) oid = None" and "int (fmsize (pending a)) < maxPendingMessages a"
    and "ds \<noteq> []" and "int (length ds) \<le> MaxInt" and "int (length ds) \<le> maxFragmentsPerMsg a"
    and "distinct js" and "set js = {..<length ds}"
  shows "Add_all a (map (\<lambda>i. fragments_of oid ds ! i) js) =
    (a, replicate (length ds - 1) (Ret None) @ [Ret (Some (concat ds))])"
proof -
  let ?a = "a\<lparr>pending := fmupd oid new_pendingMessage (pending a)\<rparr>"
  have js: "js \<noteq> []" "length js = length ds"
    using assms(3) by (metis assms(7) lessThan_empty_iff list.set(1) length_0_conv)
      (metis assms(6,7) card_lessThan distinct_card)
  then obtain i js' where ijs: "js = i # js'" by (cases js) auto
  have i: "i < length ds" using assms(7) ijs by auto
  have "Assembler_Add a (fragments_of oid ds ! i) = Assembler_Add ?a (fragments_of oid ds ! i)"
    using i assms(1,2) by (subst Add_new, simp_all) (subst Add_known, simp_all)
  then have "Add_all a (map (\<lambda>i. fragments_of oid ds ! i) js) =
      Add_all ?a (map (\<lambda>i. fragments_of oid ds ! i) js)"
    by (simp add: ijs)
  also have "\<dots> = (?a\<lparr>pending := fmdrop oid (pending ?a)\<rparr>,
      replicate (length js - 1) (Ret None) @ [Ret (Some (concat ds))])"
    by (rule Add_all_missing [OF pm_holds_new]) (use assms(3-7) js(1) in simp_all)
  finally show ?thesis using assms(1) js by simp
qed

text \<open>
  C12. The fragments of a message, delivered in any order to an assembler that has room for
  them, give "not complete yet" until the last one, which returns exactly the message; the
  assembler is then as it was, so nothing of the message stays behind.
\<close>

theorem assembler_any_order:
  assumes "fmlookup (pending a) oid = None" and "int (fmsize (pending a)) < maxPendingMessages a"
    and "ds \<noteq> []" and "int (length ds) \<le> MaxInt" and "int (length ds) \<le> maxFragmentsPerMsg a"
    and "distinct js" and "set js = {..<length ds}"
  shows "Add_all a (map (\<lambda>i. fragments_of oid ds ! i) js) =
    (a, replicate (length ds - 1) (Ret None) @ [Ret (Some (concat ds))])"
  by (rule Add_all_permuted [OF assms])

lemma Add_all_in_order:
  assumes "fmlookup (pending a) oid = None" and "int (fmsize (pending a)) < maxPendingMessages a"
    and "ds \<noteq> []" and "int (length ds) \<le> MaxInt" and "int (length ds) \<le> maxFragmentsPerMsg a"
  shows "Add_all a (fragments_of oid ds) =
    (a, replicate (length ds - 1) (Ret None) @ [Ret (Some (concat ds))])"
proof -
  have "map (\<lambda>i. fragments_of oid ds ! i) [0..<length ds] = fragments_of oid ds"
    by (rule nth_equalityI) (simp_all add: fragments_of_def)
  with Add_all_permuted [OF assms, of "[0..<length ds]"] show ?thesis
    by (simp add: atLeast0LessThan)
qed

theorem assembler_any_order_witness:
  "snd (Add_all NewAssembler (map (\<lambda>i. fragments_of 7 [[1, 2], [3], [4]] ! i) [2, 0, 1])) =
   [Ret None, Ret None, Ret (Some [1, 2, 3, 4])]"
  using assembler_any_order [of NewAssembler 7 "[[1, 2], [3], [4]]" "[2, 0, 1]"]
  by (simp add: NewAssembler_def NewAssemblerWithLimits_def MaxInt_def lessThan_nat_numeral
      lessThan_Suc numeral_2_eq_2 insert_commute eval_nat_numeral)

section \<open>Interleaved messages\<close>

text \<open>
  \<open>Add\<close> reads and writes only the entry of the fragment's own object id; the others matter
  only through their number.
\<close>

lemma Add_pm_frame:
  assumes "fmlookup (pending a) k = fmlookup (pending b) k"
    and "maxFragmentsPerMsg a = maxFragmentsPerMsg b"
  shows "snd (Assembler_Add_pm a pm f) = snd (Assembler_Add_pm b pm f) \<and>
    fmlookup (pending (fst (Assembler_Add_pm a pm f))) k =
    fmlookup (pending (fst (Assembler_Add_pm b pm f))) k"
  using assms by (simp add: Assembler_Add_pm_def Let_def)

lemma Add_pm_limits:
  "maxPendingMessages (fst (Assembler_Add_pm a pm f)) = maxPendingMessages a"
  "maxFragmentsPerMsg (fst (Assembler_Add_pm a pm f)) = maxFragmentsPerMsg a"
  by (simp_all add: Assembler_Add_pm_def Let_def)

lemma Add_limits [simp]:
  "maxPendingMessages (fst (Assembler_Add a f)) = maxPendingMessages a"
  "maxFragmentsPerMsg (fst (Assembler_Add a f)) = maxFragmentsPerMsg a"
  by (simp_all add: Assembler_Add_def Add_pm_limits split: option.split)

lemma Add_pm_dom:
  "fset (fmdom (pending (fst (Assembler_Add_pm a pm f)))) \<subseteq>
   insert (ObjectID f) (fset (fmdom (pending a)))"
  by (auto simp: Assembler_Add_pm_def Let_def)

lemma Add_dom:
  "fset (fmdom (pending (fst (Assembler_Add a f)))) \<subseteq>
   insert (ObjectID f) (fset (fmdom (pending a)))"
  using Add_pm_dom [of "a\<lparr>pending := fmupd (ObjectID f) new_pendingMessage (pending a)\<rparr>"
      new_pendingMessage f]
  by (auto simp: Assembler_Add_def dest: Add_pm_dom [THEN subsetD] split: option.split)

lemma Add_other:
  "k \<noteq> ObjectID f \<Longrightarrow>
   fmlookup (pending (fst (Assembler_Add a f))) k = fmlookup (pending a) k"
  by (simp add: Assembler_Add_def Assembler_Add_pm_def Let_def split: option.split)

text \<open>An assembler whose entries lie in a set that the limit admits has room for the rest of it.\<close>

definition room_for :: "uint64 set \<Rightarrow> assembler \<Rightarrow> bool" where
  "room_for D a \<longleftrightarrow>
     finite D \<and> fset (fmdom (pending a)) \<subseteq> D \<and> int (card D) \<le> maxPendingMessages a"

lemma room_for_new:
  assumes "room_for D a" and "k \<in> D" and "fmlookup (pending a) k = None"
  shows "int (fmsize (pending a)) < maxPendingMessages a"
proof -
  have "fset (fmdom (pending a)) \<subset> D"
    using assms by (auto simp: room_for_def fmdom_notD)
  then have "card (fset (fmdom (pending a))) < card D"
    using assms(1) by (intro psubset_card_mono) (auto simp: room_for_def)
  then show ?thesis using assms(1) by (simp add: room_for_def fmsize_def fcard.rep_eq)
qed

lemma room_for_Add: "room_for D a \<Longrightarrow> ObjectID f \<in> D \<Longrightarrow> room_for D (fst (Assembler_Add a f))"
  using Add_dom [of a f] by (auto simp: room_for_def)

lemma Add_local:
  assumes "room_for D a" and "room_for D b" and "ObjectID f \<in> D"
    and "fmlookup (pending a) (ObjectID f) = fmlookup (pending b) (ObjectID f)"
    and "maxFragmentsPerMsg a = maxFragmentsPerMsg b"
  shows "snd (Assembler_Add a f) = snd (Assembler_Add b f) \<and>
    fmlookup (pending (fst (Assembler_Add a f))) (ObjectID f) =
    fmlookup (pending (fst (Assembler_Add b f))) (ObjectID f)"
proof (cases "fmlookup (pending a) (ObjectID f)")
  case None
  then have "int (fmsize (pending a)) < maxPendingMessages a"
    and "int (fmsize (pending b)) < maxPendingMessages b"
    using assms room_for_new by metis+
  moreover have "fmlookup (pending b) (ObjectID f) = None" using None assms(4) by simp
  ultimately show ?thesis
    using None Add_pm_frame [of "a\<lparr>pending := fmupd (ObjectID f) new_pendingMessage (pending a)\<rparr>"
        "ObjectID f" "b\<lparr>pending := fmupd (ObjectID f) new_pendingMessage (pending b)\<rparr>"
        new_pendingMessage f] assms(5)
    by (simp add: Add_new)
next
  case (Some pm)
  then show ?thesis
    using assms(4) Add_pm_frame [of a "ObjectID f" b pm f, OF assms(4,5)] by (simp add: Add_known)
qed

lemma interleaving_sim:
  assumes "room_for D a" and "room_for D b" and "ObjectID ` set fs \<subseteq> D"
    and "fmlookup (pending a) k = fmlookup (pending b) k"
    and "maxFragmentsPerMsg a = maxFragmentsPerMsg b"
  shows "map snd (filter (\<lambda>(f, r). ObjectID f = k) (zip fs (snd (Add_all a fs)))) =
    snd (Add_all b (filter (\<lambda>f. ObjectID f = k) fs))"
  using assms
proof (induction fs arbitrary: a b)
  case Nil
  show ?case by simp
next
  case (Cons f fs)
  have f: "ObjectID f \<in> D" and fs: "ObjectID ` set fs \<subseteq> D" using Cons.prems(3) by auto
  let ?a = "fst (Assembler_Add a f)" and ?b = "fst (Assembler_Add b f)"
  have a: "room_for D ?a" by (rule room_for_Add [OF Cons.prems(1) f])
  show ?case
  proof (cases "ObjectID f = k")
    case True
    have "snd (Assembler_Add a f) = snd (Assembler_Add b f) \<and>
        fmlookup (pending ?a) k = fmlookup (pending ?b) k"
      using Add_local [OF Cons.prems(1,2) f] Cons.prems(4,5) True by simp
    moreover from this have "map snd (filter (\<lambda>(f, r). ObjectID f = k) (zip fs (snd (Add_all ?a fs)))) =
        snd (Add_all ?b (filter (\<lambda>f. ObjectID f = k) fs))"
      using Cons.prems(5) by (intro Cons.IH [OF a room_for_Add [OF Cons.prems(2) f] fs]) auto
    ultimately show ?thesis using True by (simp add: Let_def case_prod_unfold)
  next
    case False
    have "map snd (filter (\<lambda>(f, r). ObjectID f = k) (zip fs (snd (Add_all ?a fs)))) =
        snd (Add_all b (filter (\<lambda>f. ObjectID f = k) fs))"
      using Cons.prems(4,5) False
      by (intro Cons.IH [OF a Cons.prems(2) fs]) (auto simp: Add_other)
    then show ?thesis using False by (simp add: Let_def case_prod_unfold)
  qed
qed

text \<open>
  C2. However the fragments of different messages are interleaved, the answers for one object
  id are those of an assembler that sees that message alone: its fragments, in whatever order
  they come, give the message with the last one. The assembler only needs room for the object
  ids in play.
\<close>

theorem assembler_interleaved:
  assumes "finite D" and "int (card D) \<le> maxPendingMessages a"
    and "fset (fmdom (pending a)) \<subseteq> D" and "ObjectID ` set fs \<subseteq> D" and "oid \<in> D"
    and "fmlookup (pending a) oid = None"
    and "filter (\<lambda>f. ObjectID f = oid) fs = map (\<lambda>i. fragments_of oid ds ! i) js"
    and "ds \<noteq> []" and "int (length ds) \<le> MaxInt" and "int (length ds) \<le> maxFragmentsPerMsg a"
    and "distinct js" and "set js = {..<length ds}"
  shows "map snd (filter (\<lambda>(f, r). ObjectID f = oid) (zip fs (snd (Add_all a fs)))) =
    replicate (length ds - 1) (Ret None) @ [Ret (Some (concat ds))]"
proof -
  have room: "room_for D a" using assms(1-3) by (simp add: room_for_def)
  have "map snd (filter (\<lambda>(f, r). ObjectID f = oid) (zip fs (snd (Add_all a fs)))) =
      snd (Add_all a (map (\<lambda>i. fragments_of oid ds ! i) js))"
    using interleaving_sim [OF room room assms(4) refl refl] by (simp add: assms(7))
  then show ?thesis
    using Add_all_permuted [OF assms(6) room_for_new [OF room assms(5,6)] assms(8-12)] by simp
qed

theorem assembler_interleaved_witness:
  "let x = fragments_of 7 [[1, 2], [3]]; y = fragments_of 9 [[5], [6]];
       fs = [x ! 1, y ! 0, x ! 0, y ! 1] in
   map snd (filter (\<lambda>(f, r). ObjectID f = 7) (zip fs (snd (Add_all NewAssembler fs)))) =
   [Ret None, Ret (Some [1, 2, 3])]"
  using assembler_interleaved [of "{7, 9}" NewAssembler
      "[fragments_of 7 [[1, 2], [3]] ! 1, fragments_of 9 [[5], [6]] ! 0,
        fragments_of 7 [[1, 2], [3]] ! 0, fragments_of 9 [[5], [6]] ! 1]" 7 "[[1, 2], [3]]" "[1, 0]"]
  by (simp add: NewAssembler_def NewAssemblerWithLimits_def MaxInt_def lessThan_Suc
      eval_nat_numeral insert_commute)

section \<open>Limits\<close>

definition assembler_inv :: "assembler \<Rightarrow> bool" where
  "assembler_inv a \<longleftrightarrow>
     int (fmsize (pending a)) \<le> max 0 (maxPendingMessages a) \<and>
     (\<forall>k pm. fmlookup (pending a) k = Some pm \<longrightarrow>
        received pm = int (fmsize (fragments pm)) \<and>
        received pm \<le> max 0 (maxFragmentsPerMsg a))"

definition pm_inv :: "int \<Rightarrow> pendingMessage \<Rightarrow> bool" where
  "pm_inv m pm \<longleftrightarrow> received pm = int (fmsize (fragments pm)) \<and> received pm \<le> max 0 m"

lemma assembler_inv_iff:
  "assembler_inv a \<longleftrightarrow>
     int (fmsize (pending a)) \<le> max 0 (maxPendingMessages a) \<and>
     (\<forall>k pm. fmlookup (pending a) k = Some pm \<longrightarrow> pm_inv (maxFragmentsPerMsg a) pm)"
  by (simp add: assembler_inv_def pm_inv_def)

lemma assembler_inv_upd:
  "assembler_inv a \<Longrightarrow> fmlookup (pending a) k \<noteq> None \<Longrightarrow> pm_inv (maxFragmentsPerMsg a) pm \<Longrightarrow>
   assembler_inv (a\<lparr>pending := fmupd k pm (pending a)\<rparr>)"
  by (auto simp: assembler_inv_iff split: if_splits)

lemma assembler_inv_drop: "assembler_inv a \<Longrightarrow> assembler_inv (a\<lparr>pending := fmdrop k (pending a)\<rparr>)"
  using fmsize_drop_le [of k "pending a"]
  by (auto simp: assembler_inv_iff split: if_splits)

lemma pm_inv_add:
  "pm_inv m pm \<Longrightarrow> \<not> m \<le> received pm \<Longrightarrow> fmlookup (fragments pm) i = None \<Longrightarrow>
   pm_inv m (pm\<lparr>fragments := fmupd i d (fragments pm), received := received pm + 1\<rparr>)"
  by (simp add: pm_inv_def)

lemma pm_inv_total [simp]: "pm_inv m (pm\<lparr>total := t\<rparr>) = pm_inv m pm"
  by (simp add: pm_inv_def)

lemma Add_pm_inv:
  assumes "assembler_inv a" and "fmlookup (pending a) (ObjectID f) \<noteq> None"
    and "pm_inv (maxFragmentsPerMsg a) pm"
  shows "assembler_inv (fst (Assembler_Add_pm a pm f))"
  using assms
  by (simp add: Assembler_Add_pm_def Let_def assembler_inv_upd assembler_inv_drop pm_inv_add)

lemma Add_inv: "assembler_inv a \<Longrightarrow> assembler_inv (fst (Assembler_Add a f))"
proof (cases "fmlookup (pending a) (ObjectID f)")
  case (Some pm)
  assume "assembler_inv a"
  then show ?thesis
    using Some Add_pm_inv [of a f pm] by (simp add: Add_known) (simp add: assembler_inv_iff)
next
  case None
  assume inv: "assembler_inv a"
  let ?a = "a\<lparr>pending := fmupd (ObjectID f) new_pendingMessage (pending a)\<rparr>"
  have new: "pm_inv (maxFragmentsPerMsg a) new_pendingMessage" by (simp add: pm_inv_def new_pendingMessage_def)
  show ?thesis
  proof (cases "maxPendingMessages a \<le> int (fmsize (pending a))")
    case True
    then show ?thesis using None inv by (simp add: Assembler_Add_def)
  next
    case False
    then have "assembler_inv ?a"
      using None inv new by (auto simp: assembler_inv_iff split: if_splits)
    then have "assembler_inv (fst (Assembler_Add_pm ?a new_pendingMessage f))"
      using new by (intro Add_pm_inv) simp_all
    then show ?thesis using None False by (simp add: Add_new)
  qed
qed

text \<open>
  C26. Whatever is fed to an assembler with limits, it never holds more messages than the first
  limit, nor more fragments of one message than the second, and its counter of received
  fragments is the number it holds.
\<close>

theorem assembler_bounded:
  "assembler_inv (fst (Add_all (NewAssemblerWithLimits maxPending maxFragments) fs))"
proof -
  have "assembler_inv a \<Longrightarrow> assembler_inv (fst (Add_all a fs))" for a
    by (induction fs arbitrary: a) (simp_all add: Let_def case_prod_unfold Add_inv)
  moreover have "assembler_inv (NewAssemblerWithLimits maxPending maxFragments)"
    by (simp add: assembler_inv_def NewAssemblerWithLimits_def)
  ultimately show ?thesis by blast
qed

text \<open>
  C34. Completion is decided by counting: a fragment numbered beyond the end stands in for the
  missing first one, and a message that lacks its first fragment is delivered as complete.
\<close>

theorem assembler_accepts_gap:
  assumes "ObjectID f = oid" and "ObjectID g = oid" and "fmlookup (pending a) oid = None"
    and "int (fmsize (pending a)) < maxPendingMessages a" and "2 \<le> maxFragmentsPerMsg a"
    and "\<not> End f" and "FragmentID f \<noteq> 0" and "FragmentID f \<noteq> 1"
    and "End g" and "FragmentID g = 1"
  shows "Add_all a [f, g] = (a, [Ret None, Ret (Some (FragData g))])"
  using assms
  by (simp add: Assembler_Add_def Assembler_Add_pm_def new_pendingMessage_def Let_def
      MaxInt_def reassemble_def fragment_at_def upt_rec numeral_2_eq_2)

theorem assembler_accepts_gap_witness:
  "snd (Add_all NewAssembler
     [\<lparr>ObjectID = 1, FragmentID = 5, Start = False, End = False, FragData = [9]\<rparr>,
      \<lparr>ObjectID = 1, FragmentID = 1, Start = False, End = True, FragData = [2]\<rparr>]) =
   [Ret None, Ret (Some [2])]"
  using assembler_accepts_gap
    [of "\<lparr>ObjectID = 1, FragmentID = 5, Start = False, End = False, FragData = [9]\<rparr>" 1
        "\<lparr>ObjectID = 1, FragmentID = 1, Start = False, End = True, FragData = [2]\<rparr>" NewAssembler]
  by (simp add: NewAssembler_def NewAssemblerWithLimits_def)

end
