(* ===== verification/Wire.thy ===== *)
theory Wire
  imports Dispatch Fragments_Correct
begin

text \<open>
  From one pool to another: what \<open>sendMessage\<close> writes to its transport is what \<open>receiveMessage\<close> reads
  from the other end, whatever the chunks are in which the bytes arrive. The fragmenter, the wire
  form of fragments and messages, \<open>io.ReadFull\<close> and the assembler meet here.
\<close>

section \<open>A pipe\<close>

text \<open>
  The two directions of an in-memory pipe: the chunks that the other side has written and the bytes
  that this side writes.
\<close>

type_synonym pipe = "bytes list \<times> bytes"

fun pipe_read :: "pipe reader" where
  "pipe_read n (cs, out) = (case chunk_read n cs of (cs', bs, e) \<Rightarrow> ((cs', out), bs, e))"

fun pipe_write :: "bytes \<Rightarrow> pipe \<Rightarrow> pipe \<times> unit outcome" where
  "pipe_write bs (cs, out) = ((cs, out @ bs), Ret ())"

definition pipe_transport :: "pipe readWriter" where
  "pipe_transport =
     \<lparr>rwRead = pipe_read, rwWrite = pipe_write, rwClose = None, rwMux = None\<rparr>"

interpretation pipe_reader: byte_reader pipe_read "\<lambda>w. concat (fst w)" "\<lambda>w. length (fst w)"
  "\<lambda>w. snd w = out" for out
proof
  fix w w1 :: pipe and bs err and n :: nat
  assume "snd w = out" and "concat (fst w) \<noteq> []" and "0 < n" and rd: "pipe_read n w = (w1, bs, err)"
  moreover obtain cs where w: "w = (cs, out)" using \<open>snd w = out\<close> by (cases w) auto
  moreover obtain cs' where "chunk_read n cs = (cs', bs, err)" "w1 = (cs', out)"
    using rd w by (auto split: prod.splits)
  ultimately show "err = None \<and> bs @ concat (fst w1) = concat (fst w) \<and> length bs \<le> n \<and>
      snd w1 = out \<and> (bs = [] \<longrightarrow> length (fst w1) < length (fst w))"
    using chunk_reader.read_prefix [of cs n cs' bs err] by simp
qed

section \<open>Sending\<close>

definition frag_bytes :: "fragment \<Rightarrow> bytes" where
  "frag_bytes f = Fragment_header f @ FragData f"

text \<open>
  The payloads of a message's fragments, for a fragment size, and the bytes that carry them. The
  default limits of an assembler let messages of 10000 fragments through, about three gigabytes for
  the size that a pool uses.
\<close>

definition payloads :: "nat \<Rightarrow> message \<Rightarrow> bytes list" where
  "payloads sz msg = chunks (sz - 21) (Message_header msg @ MsgData msg)"

definition wire_bytes :: "nat \<Rightarrow> uint64 \<Rightarrow> message \<Rightarrow> bytes" where
  "wire_bytes sz oid msg = concat (map frag_bytes (fragments_of oid (payloads sz msg)))"

definition sendable :: "nat \<Rightarrow> message \<Rightarrow> bool" where
  "sendable sz msg \<longleftrightarrow>
     21 < sz \<and> sz \<le> 307200 \<and> 40 + length (MsgData msg) \<le> (sz - 21) * 10000"

lemma nchunks_bound: "0 < mp \<Longrightarrow> len \<le> mp * 10000 \<Longrightarrow> nchunks len mp \<le> 10000"
  using nchunks_less_iff [of mp 10000 len] by (simp add: mult.commute leI not_less)

lemma payloads:
  assumes "sendable sz msg"
  shows "payloads sz msg \<noteq> []" "concat (payloads sz msg) = Message_header msg @ MsgData msg"
    "length (payloads sz msg) \<le> 10000" "\<And>d. d \<in> set (payloads sz msg) \<Longrightarrow> length d \<le> 307179"
proof -
  let ?d = "Message_header msg @ MsgData msg"
  have sz: "0 < sz - 21" "length ?d \<le> (sz - 21) * 10000" "sz - 21 \<le> 307179"
    using assms by (auto simp: sendable_def)
  have ne: "?d \<noteq> []" by (metis append_is_Nil_conv length_Message_header list.size(3) zero_neq_numeral)
  from nchunks_bound [OF sz(1,2)] ne show "length (payloads sz msg) \<le> 10000"
    by (simp add: payloads_def length_chunks)
  show "payloads sz msg \<noteq> []" using sz(1) by (simp add: payloads_def)
  show "concat (payloads sz msg) = ?d" using sz(1) by (simp add: payloads_def concat_chunks)
  show "\<And>d. d \<in> set (payloads sz msg) \<Longrightarrow> length d \<le> 307179"
    using chunk_size sz(3) by (fastforce simp: payloads_def)
qed

definition small :: "fragment \<Rightarrow> bool" where
  "small f \<longleftrightarrow> length (FragData f) \<le> 307179"

lemma small_fragments: "sendable sz msg \<Longrightarrow> list_all small (fragments_of oid (payloads sz msg))"
  using payloads(4) by (auto simp: list_all_iff small_def fragments_of_def)

lemma encode_small: "small f \<Longrightarrow> Fragment_Encode f = Ret (frag_bytes f)"
  by (simp add: small_def frag_bytes_def Fragment_Encode_eq MaxUint32_def)

lemma flatten_small:
  "list_all small fs \<Longrightarrow> flatten_fragments what fs = Ret (concat (map frag_bytes fs))"
  by (induction fs) (simp_all add: encode_small)

lemma Fragmenter_sendable:
  assumes "sendable sz msg" and "maxSize fr = int sz"
  shows "Fragmenter_Fragment fr (Message_header msg @ MsgData msg) =
    (fr\<lparr>objectID := objectID fr + 1\<rparr>, Ret (fragments_of (objectID fr + 1) (payloads sz msg)))"
proof -
  have "(sz - 21) * 10000 \<le> 307179 * 10000"
    using assms(1) unfolding sendable_def by (intro mult_le_mono1) linarith
  then have "length (Message_header msg @ MsgData msg) + sz \<le> 307179 * 10000 + 307200"
    using assms(1) unfolding sendable_def by simp
  then have "int (length (Message_header msg @ MsgData msg)) + maxSize fr \<le> MaxInt"
    unfolding assms(2) MaxInt_def by linarith
  from Fragmenter_Fragment_eq [OF _ this] assms show ?thesis
    by (simp add: payloads_def sendable_def nat_diff_distrib)
qed

lemma prepareMessage_sendable:
  assumes "sendable 307200 msg" and "maxSize (poolFragmenter p) = DefaultMaxFragmentSize"
  shows "prepareMessage msg p =
    (p\<lparr>poolFragmenter := (poolFragmenter p)\<lparr>objectID := objectID (poolFragmenter p) + 1\<rparr>\<rparr>,
     Ret (fragments_of (objectID (poolFragmenter p) + 1) (payloads 307200 msg)))"
  using Fragmenter_sendable [OF assms(1)] assms(2)
  by (simp add: prepareMessage_def Message_Encode_eq DefaultMaxFragmentSize_def)

lemma send_fragments_pipe:
  assumes "list_all small fs" and "poolTransport p = pipe_transport" and "world p = (cs, out)"
  shows "send_fragments None msg fs p =
    ok (p\<lparr>world := (cs, out @ concat (map frag_bytes fs))\<rparr>)"
  using assms
proof (induction fs arbitrary: p out)
  case (Cons f fs)
  let ?p = "p\<lparr>world := (cs, out @ frag_bytes f)\<rparr>"
  have "write_fragment msg (frag_bytes f) p = (?p, Ret ())"
    using Cons.prems by (simp add: write_fragment_def pipe_transport_def)
  with Cons show ?case by (simp add: encode_small ok_def)
qed (simp add: ok_def)

lemma sendMessage_pipe:
  assumes "sendable 307200 msg" and "maxSize (poolFragmenter p) = DefaultMaxFragmentSize"
    and "poolTransport p = pipe_transport" and "world p = (cs, out)"
  shows "sendMessage None msg p =
    (p\<lparr>poolFragmenter := (poolFragmenter p)\<lparr>objectID := objectID (poolFragmenter p) + 1\<rparr>,
       world := (cs, out @ wire_bytes 307200 (objectID (poolFragmenter p) + 1) msg)\<rparr>, Ret ())"
  using assms send_fragments_pipe [OF small_fragments [OF assms(1)]]
  by (simp add: sendMessage_def prepareMessage_sendable wire_bytes_def ok_def)

section \<open>Receiving\<close>

lemma read_full_pipe:
  assumes "poolTransport q = pipe_transport" and "world q = (cs, out)" and "concat cs = bs @ rest"
    and "length bs = n"
  shows "\<exists>cs'. read_full what n q = Some (q\<lparr>world := (cs', out)\<rparr>, Ret bs) \<and> concat cs' = rest"
proof -
  have "n \<le> length (concat (fst (cs, out)))" using assms(3,4) by simp
  from pipe_reader.ReadFull_prefix [of "(cs, out)" out "[]" n] this
  obtain w where "ReadFull pipe_read n [] (cs, out) = Some (w, Ret (take n (concat cs)))"
    "concat (fst w) = drop n (concat cs)" "snd w = out"
    by auto
  with assms show ?thesis
    by (intro exI [of _ "fst w"]) (cases w, simp add: read_full_def pipe_transport_def)
qed

lemma read_fragment_pipe:
  assumes "poolTransport q = pipe_transport" and "world q = (cs, out)"
    and "concat cs = frag_bytes f @ rest" and "small f"
  shows "\<exists>cs'. read_fragment q = Some (q\<lparr>world := (cs', out)\<rparr>, Ret f) \<and> concat cs' = rest"
proof -
  have "concat cs = Fragment_header f @ (FragData f @ rest)" using assms(3) by (simp add: frag_bytes_def)
  from read_full_pipe [OF assms(1,2) this, of Frag_HeaderSize]
  obtain cs1 where r1: "read_full ''read fragment header'' Frag_HeaderSize q =
      Some (q\<lparr>world := (cs1, out)\<rparr>, Ret (Fragment_header f))" "concat cs1 = FragData f @ rest"
    by (auto simp: Frag_HeaderSize_def)
  let ?q = "q\<lparr>world := (cs1, out)\<rparr>"
  have len: "unat (BigEndian_Uint32 (slice (Fragment_header f) 17 21)) = length (FragData f)"
    using header_fields(4) [of f "[]"] assms(4) by (simp add: small_def unat_of_nat)
  have dec: "Fragment_Decode (Fragment_header f @ FragData f) = Ret f"
    using Fragment_Decode_header [of f "[]"] assms(4) by (simp add: small_def)
  have nobig: "\<not> maxFragmentBlobLen < length (FragData f)"
    using assms(4) by (simp add: small_def maxFragmentBlobLen_def)
  from read_full_pipe [of ?q cs1 out "FragData f" rest "length (FragData f)"] assms(1) r1(2)
  obtain cs2 where r2: "read_full ''read fragment data'' (length (FragData f)) ?q =
      Some (q\<lparr>world := (cs2, out)\<rparr>, Ret (FragData f))" "concat cs2 = rest"
    by auto
  show ?thesis
  proof (cases "FragData f = []")
    case True
    with r1 len nobig dec show ?thesis
      by (intro exI [of _ cs1]) (simp add: read_fragment_def Let_def)
  next
    case False
    with r1(1) r2 len nobig dec show ?thesis
      by (intro exI [of _ cs2]) (simp add: read_fragment_def Let_def)
  qed
qed

text \<open>A run of fragments whose last one completes a message.\<close>

lemma receiveMessage_pipe:
  assumes "list_all small fs" and "fs \<noteq> []"
    and "Add_all (poolAssembler q) fs = (a, replicate (length fs - 1) (Ret None) @ [Ret (Some data)])"
    and "poolTransport q = pipe_transport" and "world q = (cs, out)"
    and "concat cs = concat (map frag_bytes fs) @ rest"
  shows "\<exists>cs'. receiveMessage None q =
      Some (q\<lparr>poolAssembler := a, world := (cs', out)\<rparr>, wrap_err ''decode message'' (Message_Decode data)) \<and>
    concat cs' = rest"
  using assms
proof (induction fs arbitrary: q cs)
  case (Cons f fs)
  have "concat cs = frag_bytes f @ (concat (map frag_bytes fs) @ rest)" using Cons.prems(6) by simp
  from read_fragment_pipe [OF Cons.prems(4,5) this] Cons.prems(1)
  obtain cs1 where r: "read_fragment q = Some (q\<lparr>world := (cs1, out)\<rparr>, Ret f)"
    "concat cs1 = concat (map frag_bytes fs) @ rest"
    by auto
  obtain a1 x where add: "Assembler_Add (poolAssembler q) f = (a1, x)" by fastforce
  show ?case
  proof (cases fs)
    case Nil
    with Cons.prems(3) add have "a1 = a" "x = Ret (Some data)" by simp_all
    with add r Nil show ?thesis
      by (intro exI [of _ cs1]) (subst receiveMessage.simps, simp)
  next
    case (Cons g gs)
    obtain a2 rs where rest: "Add_all a1 fs = (a2, rs)" by fastforce
    with Cons.prems(3) add Cons have x: "x = Ret None" "a2 = a"
      "rs = replicate (length fs - 1) (Ret None) @ [Ret (Some data)]"
      by (auto simp: Let_def)
    let ?q = "q\<lparr>world := (cs1, out), poolAssembler := a1\<rparr>"
    from Cons.IH [of ?q cs1] Cons.prems(1,4) Cons r(2) rest x
    obtain cs2 where "receiveMessage None ?q =
        Some (?q\<lparr>poolAssembler := a, world := (cs2, out)\<rparr>, wrap_err ''decode message'' (Message_Decode data))"
      "concat cs2 = rest"
      by auto
    moreover have "receiveMessage None q = receiveMessage None ?q"
      using add r x(1) by (subst receiveMessage.simps) simp
    ultimately show ?thesis by (intro exI [of _ cs2]) simp
  qed
qed simp

text \<open>The bytes of one message, at an assembler that holds nothing.\<close>

definition idle :: "assembler \<Rightarrow> bool" where
  "idle a \<longleftrightarrow> pending a = fmempty \<and> maxPendingMessages a = 1000 \<and> maxFragmentsPerMsg a = 10000"

lemma idle_new: "idle NewAssembler"
  by (simp add: idle_def NewAssembler_def NewAssemblerWithLimits_def)

lemma Add_all_payloads:
  assumes "sendable sz msg" and "idle a"
  shows "Add_all a (fragments_of oid (payloads sz msg)) =
    (a, replicate (length (fragments_of oid (payloads sz msg)) - 1) (Ret None) @
        [Ret (Some (Message_header msg @ MsgData msg))])"
  using Add_all_in_order [of a oid "payloads sz msg"] payloads [OF assms(1)] assms(2)
  by (simp add: idle_def MaxInt_def) (simp add: fragments_of_def)

lemma receiveMessage_wire:
  assumes "sendable sz msg" and "idle (poolAssembler q)" and "poolTransport q = pipe_transport"
    and "world q = (cs, out)" and "concat cs = wire_bytes sz oid msg @ rest"
  shows "\<exists>cs'. receiveMessage None q = Some (q\<lparr>world := (cs', out)\<rparr>, Ret msg) \<and> concat cs' = rest"
  using receiveMessage_pipe [OF small_fragments [OF assms(1)] _ Add_all_payloads [OF assms(1,2)] assms(3,4)]
    assms(5) payloads(1) [OF assms(1)]
  by (auto simp: wire_bytes_def Message_Decode_Encode)

section \<open>From pool to pool\<close>

fun send_all :: "message list \<Rightarrow> 'w pool \<Rightarrow> 'w pool \<times> unit outcome" where
  "send_all [] p = ok p"
| "send_all (m # ms) p = then_do (sendMessage None m p) (send_all ms)"

fun receive_all :: "nat \<Rightarrow> 'w pool \<Rightarrow> ('w pool \<times> message list outcome) option" where
  "receive_all 0 p = Some (p, Ret [])"
| "receive_all (Suc n) p =
     and_run (receiveMessage None p) (\<lambda>m p.
     and_run (receive_all n p) (\<lambda>ms p. Some (p, Ret (m # ms))))"

fun wire_all :: "nat \<Rightarrow> uint64 \<Rightarrow> message list \<Rightarrow> bytes" where
  "wire_all sz oid [] = []"
| "wire_all sz oid (m # ms) = wire_bytes sz (oid + 1) m @ wire_all sz (oid + 1) ms"

lemma send_all_pipe:
  assumes "list_all (sendable 307200) ms" and "maxSize (poolFragmenter p) = DefaultMaxFragmentSize"
    and "poolTransport p = pipe_transport" and "world p = (cs, out)"
  shows "\<exists>p'. send_all ms p = (p', Ret ()) \<and>
    world p' = (cs, out @ wire_all 307200 (objectID (poolFragmenter p)) ms)"
  using assms
proof (induction ms arbitrary: p out)
  case (Cons m ms)
  from sendMessage_pipe [OF _ Cons.prems(2-4), of m] Cons.prems(1)
  have s: "sendMessage None m p =
      (p\<lparr>poolFragmenter := (poolFragmenter p)\<lparr>objectID := objectID (poolFragmenter p) + 1\<rparr>,
         world := (cs, out @ wire_bytes 307200 (objectID (poolFragmenter p) + 1) m)\<rparr>, Ret ())"
    (is "_ = (?p, _)") by simp
  from Cons.IH [of ?p "out @ wire_bytes 307200 (objectID (poolFragmenter p) + 1) m"] Cons.prems s
  show ?case by simp
qed (simp add: ok_def)

lemma receive_all_pipe:
  assumes "list_all (sendable sz) ms" and "idle (poolAssembler q)" and "poolTransport q = pipe_transport"
    and "world q = (cs, out)" and "concat cs = wire_all sz oid ms @ rest"
  shows "\<exists>cs'. receive_all (length ms) q = Some (q\<lparr>world := (cs', out)\<rparr>, Ret ms) \<and> concat cs' = rest"
  using assms
proof (induction ms arbitrary: q cs oid)
  case Nil
  then show ?case by (intro exI [of _ cs]) simp
next
  case (Cons m ms)
  from receiveMessage_wire [OF _ Cons.prems(2-4), where msg = m and oid = "oid + 1" and
      rest = "wire_all sz (oid + 1) ms @ rest"] Cons.prems(1,5)
  obtain cs1 where r: "receiveMessage None q = Some (q\<lparr>world := (cs1, out)\<rparr>, Ret m)"
    "concat cs1 = wire_all sz (oid + 1) ms @ rest"
    by auto
  let ?q = "q\<lparr>world := (cs1, out)\<rparr>"
  from Cons.IH [of ?q cs1 "oid + 1"] Cons.prems(1-3) r(2)
  obtain cs2 where "receive_all (length ms) ?q = Some (?q\<lparr>world := (cs2, out)\<rparr>, Ret ms)"
    "concat cs2 = rest"
    by auto
  with r(1) show ?case by (intro exI [of _ cs2]) simp
qed

text \<open>
  C3. What a pool sends is what a pool receives: any sequence of messages of up to 3 GB that one
  pool sends over a pipe is received by the other, message for message and in order, however the
  bytes are cut into chunks on the way, and nothing is left over.
\<close>

theorem pool_to_pool:
  assumes "list_all (sendable 307200) ms"
    and "p = NewPool ns pipe_transport (cs, []) i" and "send_all ms p = (p', r)"
    and "concat chunked = snd (world p')"
  shows "r = Ret () \<and>
    (\<exists>q'. receive_all (length ms) (NewPool ns' pipe_transport (chunked, out) j) = Some (q', Ret ms) \<and>
       concat (fst (world q')) = [])"
proof -
  let ?q = "NewPool ns' pipe_transport (chunked, out) j"
  note new = NewPool_def NewPoolWithContext_def
  from send_all_pipe [OF assms(1), of p cs "[]"]
  have "\<exists>p'. send_all ms p = (p', Ret ()) \<and> world p' = (cs, wire_all 307200 (objectID (poolFragmenter p)) ms)"
    by (simp add: assms(2) new NewFragmenter_def)
  then have r: "r = Ret ()" "world p' = (cs, wire_all 307200 (objectID (poolFragmenter p)) ms)"
    using assms(3) by auto
  from receive_all_pipe [OF assms(1), of ?q chunked out "objectID (poolFragmenter p)" "[]"] r(2) assms(4)
  show ?thesis using r(1) idle_new by (auto simp: new)
qed

theorem pool_to_pool_witness:
  "\<exists>q'. receive_all 2 (NewPool Ret pipe_transport
      ([snd (world (fst (send_all [NewSignal uuid_Nil uuid_Nil, NewEndOfPipelineInput uuid_Nil uuid_Nil]
          (NewPool Ret pipe_transport ([], []) uuid_Nil))))], []) uuid_Nil) =
    Some (q', Ret [NewSignal uuid_Nil uuid_Nil, NewEndOfPipelineInput uuid_Nil uuid_Nil])"
proof -
  let ?ms = "[NewSignal uuid_Nil uuid_Nil, NewEndOfPipelineInput uuid_Nil uuid_Nil]"
  let ?p = "NewPool Ret pipe_transport ([], []) uuid_Nil :: pipe pool"
  have "list_all (sendable 307200) ?ms"
    by (simp add: sendable_def NewSignal_def NewEndOfPipelineInput_def)
  moreover have "concat [snd (world (fst (send_all ?ms ?p)))] = snd (world (fst (send_all ?ms ?p)))"
    by simp
  ultimately show ?thesis
    using pool_to_pool [OF _ refl, of ?ms Ret "[]" uuid_Nil "fst (send_all ?ms ?p)" "snd (send_all ?ms ?p)"]
    by (fastforce simp: numeral_2_eq_2)
qed

section \<open>Messages that travel outside the pool's transport\<close>

text \<open>
  The data that a WSMan transport embeds in its own requests: the fragments of the message that
  creates a pipeline, with the fragmenter's own object identifier or a given one, and of the
  message that ends its input.
\<close>

lemma create_pipeline_wire:
  assumes "snd (SerializeRaw E h (VPowerShell (pipePowerShell p)) NewSerializer) = Ret cmd"
    and "sendable sz (NewCreatePipeline (pipeRunspace p) (pipeID p) cmd)" and "maxSize fr = int sz"
  shows "create_pipeline_data E h fr p =
    Ret (wire_bytes sz (objectID fr + 1) (NewCreatePipeline (pipeRunspace p) (pipeID p) cmd))"
  using assms Fragmenter_sendable [OF assms(2,3)] payloads(1) [OF assms(2)]
    flatten_small [OF small_fragments [OF assms(2)]]
  by (simp add: create_pipeline_data_def message_fragments_def Message_Encode_eq wire_bytes_def)

text \<open>
  The data of \<open>GetCreatePipelineData\<close>, of \<open>GetCreatePipelineDataWithID\<close> and of \<open>GetCloseInputData\<close>
  is what a pool receives as the CREATE_PIPELINE message with the serialized commands, and as the
  END_OF_PIPELINE_INPUT message, of this pipeline. The first fragment of \<open>GetCreatePipelineDataWithID\<close>
  carries the identifier that was asked for.
\<close>

theorem embedded_data_received:
  assumes "snd (SerializeRaw E h (VPowerShell (pipePowerShell p)) NewSerializer) = Ret cmd"
    and "length cmd \<le> 300000000" and "idle (poolAssembler q)" and "poolTransport q = pipe_transport"
    and "m = NewCreatePipeline (pipeRunspace p) (pipeID p) cmd"
    and "e = NewEndOfPipelineInput (pipeRunspace p) (pipeID p)"
  shows "\<exists>b1 b2 b3. GetCreatePipelineData E h p = Ret b1 \<and>
    GetCreatePipelineDataWithID E h i p = Ret b2 \<and> GetCloseInputData p = Ret b3 \<and>
    BigEndian_Uint64 (slice b2 0 8) = i \<and>
    (\<forall>(b, m')\<in>{(b1, m), (b2, m), (b3, e)}. \<forall>cs out. concat cs = b \<longrightarrow>
       (\<exists>q'. receiveMessage None (q\<lparr>world := (cs, out)\<rparr>) = Some (q', Ret m')))"
proof -
  have s: "sendable 307200 m" "sendable 32768 m" "sendable 32768 e"
    using assms(2) by (simp_all add: assms(5,6) sendable_def NewCreatePipeline_def NewEndOfPipelineInput_def)
  let ?b1 = "wire_bytes 307200 1 m" and ?b2 = "wire_bytes 32768 i m" and ?b3 = "wire_bytes 32768 1 e"
  note create = create_pipeline_wire [OF assms(1), folded assms(5)]
  have data: "GetCreatePipelineData E h p = Ret ?b1" "GetCreatePipelineDataWithID E h i p = Ret ?b2"
    "GetCloseInputData p = Ret ?b3"
    using create [OF s(1), of "NewFragmenter 307200"] create [OF s(2), of "NewFragmenterWithID 32768 (i - 1)"]
      Fragmenter_sendable [OF s(3), of "NewFragmenter 32768"] flatten_small [OF small_fragments [OF s(3)]]
    by (simp_all add: GetCreatePipelineData_def GetCreatePipelineDataWithID_def GetCloseInputData_def
        message_fragments_def Message_Encode_eq wire_bytes_def NewFragmenter_def NewFragmenterWithID_def
        assms(6) [symmetric])
  have "0 < length (payloads 32768 m)" using payloads(1) [OF s(2)] by simp
  note oid = ObjectID_fragments_of [OF this, of i]
  obtain f fs where fs: "fragments_of i (payloads 32768 m) = f # fs"
    using payloads(1) [OF s(2)] by (cases "fragments_of i (payloads 32768 m)") auto
  with oid have f: "ObjectID f = i" unfolding fs by simp
  from fs have "?b2 = Fragment_header f @ FragData f @ concat (map frag_bytes fs)"
    by (simp add: wire_bytes_def frag_bytes_def)
  then have id: "BigEndian_Uint64 (slice ?b2 0 8) = i" using header_fields(1) f by simp
  have recv: "\<exists>q'. receiveMessage None (q\<lparr>world := (cs, out)\<rparr>) = Some (q', Ret m')"
    if "sendable sz m'" "concat cs = wire_bytes sz oid m'" for sz oid m' cs out
    using receiveMessage_wire [OF that(1), of "q\<lparr>world := (cs, out)\<rparr>" cs out oid "[]"] assms(3,4) that(2)
    by auto
  show ?thesis using data id recv s by blast
qed

lemma demo_command:
  "case snd (SerializeRaw no_env fmempty (VPowerShell NewPowerShell) NewSerializer) of
     Ret cmd \<Rightarrow> length cmd \<le> 3000 | _ \<Rightarrow> False"
  by code_simp

theorem embedded_data_received_witness:
  "\<exists>b q'. GetCloseInputData (NewBuilder uuid_Nil uuid_Nil) = Ret b \<and>
     receiveMessage None (NewPool Ret pipe_transport ([b], []) uuid_Nil) =
     Some (q', Ret (NewEndOfPipelineInput uuid_Nil uuid_Nil))"
proof -
  let ?p = "NewBuilder uuid_Nil uuid_Nil"
  let ?q = "\<lambda>w. NewPool Ret pipe_transport w uuid_Nil :: pipe pool"
  obtain cmd where c: "snd (SerializeRaw no_env fmempty (VPowerShell (pipePowerShell ?p)) NewSerializer) = Ret cmd"
    "length cmd \<le> 300000000"
    using demo_command by (auto simp: NewBuilder_def split: outcome.splits)
  have q: "idle (poolAssembler (?q ([], [])))" "poolTransport (?q ([], [])) = pipe_transport"
    and w: "(?q ([], []))\<lparr>world := x\<rparr> = ?q x" for x
    by (simp_all add: NewPool_def NewPoolWithContext_def idle_new)
  from embedded_data_received [OF c q refl refl, of 1]
  obtain b3 where b: "GetCloseInputData ?p = Ret b3"
    "\<forall>cs out. concat cs = b3 \<longrightarrow> (\<exists>q'. receiveMessage None (?q (cs, out)) =
       Some (q', Ret (NewEndOfPipelineInput (pipeRunspace ?p) (pipeID ?p))))"
    unfolding w by blast
  from b(2) [rule_format, of "[b3]" "[]"] b(1) show ?thesis by (auto simp: NewBuilder_def)
qed

section \<open>The handshake\<close>

lemma prepared_wire:
  assumes "sendable 307200 m1" and "sendable 307200 m2"
    and "maxSize (poolFragmenter p) = DefaultMaxFragmentSize"
  shows "prepared what m1 m2 p =
    (p\<lparr>poolFragmenter := (poolFragmenter p)\<lparr>objectID := objectID (poolFragmenter p) + 2\<rparr>\<rparr>,
     Ret (wire_all 307200 (objectID (poolFragmenter p)) [m1, m2]))"
  using prepareMessage_sendable [OF assms(1,3)] assms(3)
    prepareMessage_sendable [OF assms(2), of "p\<lparr>poolFragmenter := (poolFragmenter p)\<lparr>objectID := objectID (poolFragmenter p) + 1\<rparr>\<rparr>"]
    flatten_small [OF small_fragments [OF assms(1)]] flatten_small [OF small_fragments [OF assms(2)]]
  by (simp add: prepared_def wire_bytes_def add.assoc)

lemma handshake_documents:
  "length capability_document \<le> 1000 \<and> length (createRunspacePoolInitXML 1 1) \<le> 2000"
  by (rule conjI; code_simp)

text \<open>
  The fragments that \<open>GetHandshakeFragments\<close> and \<open>GetConnectHandshakeFragments\<close> prepare for the
  request of another transport are received as SESSION_CAPABILITY and INIT_RUNSPACEPOOL (or
  CONNECT_RUNSPACEPOOL), and the pool's own first message afterwards continues their numbering.
\<close>

theorem handshake_received:
  assumes "p = NewPool ns tr w i" and "idle (poolAssembler q)" and "poolTransport q = pipe_transport"
  shows "\<exists>p1 p2 b1 b2. GetHandshakeFragments p = (p1, Ret b1) \<and> objectID (poolFragmenter p1) = 2 \<and>
    GetConnectHandshakeFragments p = (p2, Ret b2) \<and> objectID (poolFragmenter p2) = 2 \<and>
    (\<forall>cs out. concat cs = b1 \<longrightarrow>
       (\<exists>q'. receive_all 2 (q\<lparr>world := (cs, out)\<rparr>) = Some (q', Ret
          [NewSessionCapability i (bytes_of_string capability_document),
           NewInitRunspacePool i (bytes_of_string (createRunspacePoolInitXML 1 1))]))) \<and>
    (\<forall>cs out. concat cs = b2 \<longrightarrow>
       (\<exists>q'. receive_all 2 (q\<lparr>world := (cs, out)\<rparr>) = Some (q', Ret
          [NewSessionCapability i (bytes_of_string capability_document),
           NewConnectRunspacePool i (bytes_of_string ''<S></S>'')])))"
proof -
  let ?cap = "NewSessionCapability i (bytes_of_string capability_document)"
  let ?init = "NewInitRunspacePool i (bytes_of_string (createRunspacePoolInitXML 1 1))"
  let ?con = "NewConnectRunspacePool i (bytes_of_string ''<S></S>'')"
  have s: "sendable 307200 ?cap" "sendable 307200 ?init" "sendable 307200 ?con"
    using handshake_documents
    by (simp_all add: sendable_def NewSessionCapability_def NewInitRunspacePool_def NewConnectRunspacePool_def)
  have p: "poolID p = i" "minRunspaces p = 1" "maxRunspaces p = 1" "objectID (poolFragmenter p) = 0"
    "maxSize (poolFragmenter p) = DefaultMaxFragmentSize"
    by (simp_all add: assms(1) NewPool_def NewPoolWithContext_def NewFragmenter_def)
  have recv: "\<exists>q'. receive_all 2 (q\<lparr>world := (cs, out)\<rparr>) = Some (q', Ret [m1, m2])"
    if "sendable 307200 m1" "sendable 307200 m2" "concat cs = wire_all 307200 0 [m1, m2]" for m1 m2 cs out
    using receive_all_pipe [of 307200 "[m1, m2]" "q\<lparr>world := (cs, out)\<rparr>" cs out 0 "[]"] that assms(2,3)
    by (auto simp: numeral_2_eq_2)
  show ?thesis
    using prepared_wire [OF s(1,2) p(5)] prepared_wire [OF s(1,3) p(5)] recv s
    by (simp add: GetHandshakeFragments_def GetConnectHandshakeFragments_def
        createSessionCapabilityMessage_def createInitRunspacePoolMessage_def p del: wire_all.simps)
qed

theorem handshake_received_witness:
  "\<exists>p1 b1 q'. GetHandshakeFragments (NewPool Ret pipe_transport ([], []) uuid_Nil) = (p1, Ret b1) \<and>
     receive_all 2 (NewPool Ret pipe_transport ([b1], []) uuid_Nil) = Some (q', Ret
       [NewSessionCapability uuid_Nil (bytes_of_string capability_document),
        NewInitRunspacePool uuid_Nil (bytes_of_string (createRunspacePoolInitXML 1 1))])"
proof -
  let ?q = "\<lambda>w. NewPool Ret pipe_transport w uuid_Nil :: pipe pool"
  have q: "idle (poolAssembler (?q ([], [])))" "poolTransport (?q ([], [])) = pipe_transport"
    and w: "(?q ([], []))\<lparr>world := x\<rparr> = ?q x" for x
    by (simp_all add: NewPool_def NewPoolWithContext_def idle_new)
  from handshake_received [OF refl q, of Ret pipe_transport "([], [])" uuid_Nil]
  obtain p1 b1 where b: "GetHandshakeFragments (?q ([], [])) = (p1, Ret b1)"
    "\<forall>cs out. concat cs = b1 \<longrightarrow> (\<exists>q'. receive_all 2 (?q (cs, out)) = Some (q', Ret
       [NewSessionCapability uuid_Nil (bytes_of_string capability_document),
        NewInitRunspacePool uuid_Nil (bytes_of_string (createRunspacePoolInitXML 1 1))]))"
    unfolding w by blast
  from b(2) [rule_format, of "[b1]" "[]"] b(1) show ?thesis by auto
qed

end
