(* ===== verification/Pipeline_Correct.thy ===== *)
theory Pipeline_Correct
  imports Pipeline
begin

text \<open>
  Correctness of the pipeline: its invariant, kept by every operation; the step relation of a
  pipeline among the client, the server's messages, its consumers and the goroutines that answer
  host calls; and the properties of every run of it.
\<close>

section \<open>The invariant\<close>

text \<open>
  The channels are open until the pipeline is done and closed from then on, and never hold more
  than their buffer; a terminal state is only reached by becoming done, which cancels the context.
\<close>

definition streams_ok :: "bool \<Rightarrow> (stream \<Rightarrow> message chan) \<Rightarrow> bool" where
  "streams_ok done chans \<longleftrightarrow>
     (\<forall>s. chan_closed (chans s) = done \<and> chan_cap (chans s) = streamBuffer \<and>
          length (chan_queue (chans s)) \<le> streamBuffer)"

definition pipe_ok :: "pipeline \<Rightarrow> bool" where
  "pipe_ok p \<longleftrightarrow>
     streams_ok (pipeDone p) (pipeStreams p) \<and> (terminal (pipeState p) \<longrightarrow> pipeDone p) \<and>
     (pipeDone p \<longrightarrow> pipeCtx p \<noteq> None)"

lemma ok_inject [simp]: "ok s = ok t \<longleftrightarrow> s = t"
  by (simp add: ok_def)

lemma terminal_simps [simp]:
  "terminal StateCompleted" "terminal StateFailed" "terminal StateStopped" "terminal StateDisconnected"
  "\<not> terminal StateNotStarted" "\<not> terminal StateRunning" "\<not> terminal StateStopping"
  by (simp_all add: terminal_def)

lemma pipe_ok_new:
  "pipe_ok (NewWithContext i ctx rp cmd)" "pipe_ok (NewPipeline i rp cmd)" "pipe_ok (NewWithID rp i)"
  "pipe_ok (NewBuilder i rp)"
  by (simp_all add: pipe_ok_def streams_ok_def constructors)

lemma pipe_ok_config:
  assumes "pipe_ok p"
  shows "pipe_ok (SkipInvokeSend p)" "pipe_ok (AddCommand n b p)" "pipe_ok (AddParameter n v p)"
    "pipe_ok (AddArgument v p)" "pipe_ok (SetChannelTimeout i p)" "pipe_ok (Cancel p)"
  using assms by (simp_all add: pipe_ok_def config_defs)

text \<open>Closing the seven channels, each of them once.\<close>

lemma close_streams_open:
  assumes "distinct ss" and "\<And>s. s \<in> set ss \<Longrightarrow> \<not> chan_closed (chans s)"
  shows "close_streams ss chans =
    Ret (\<lambda>s. if s \<in> set ss then Chan (chan_cap (chans s)) (chan_queue (chans s)) True else chans s)"
  using assms
proof (induction ss arbitrary: chans)
  case (Cons s ss)
  let ?c = "Chan (chan_cap (chans s)) (chan_queue (chans s)) True"
  have "chan_close (chans s) = Ret ?c" using Cons.prems by (simp add: chan_close_Ret)
  moreover have "close_streams ss (chans(s := ?c)) = Ret (\<lambda>r. if r \<in> set ss
      then Chan (chan_cap ((chans(s := ?c)) r)) (chan_queue ((chans(s := ?c)) r)) True
      else (chans(s := ?c)) r)"
    using Cons.prems by (intro Cons.IH) auto
  ultimately show ?case using Cons.prems by (simp add: fun_eq_iff)
qed (simp add: fun_eq_iff)

lemma all_streams: "distinct all_streams" "s \<in> set all_streams"
  by (simp add: all_streams_def, cases s, simp_all add: all_streams_def)

definition closed_streams :: "(stream \<Rightarrow> message chan) \<Rightarrow> stream \<Rightarrow> message chan" where
  "closed_streams chans = (\<lambda>s. Chan (chan_cap (chans s)) (chan_queue (chans s)) True)"

lemma close_all_open:
  assumes "streams_ok False (pipeStreams p)"
  shows "close_all p =
    ok (Cancel (p\<lparr>pipeDone := True, pipeStreams := closed_streams (pipeStreams p)\<rparr>))"
  using assms close_streams_open [OF all_streams(1), of "pipeStreams p"]
  by (simp add: close_all_def all_streams(2) streams_ok_def closed_streams_def)

lemma closed_streams_queue [simp]: "chan_queue (closed_streams chans s) = chan_queue (chans s)"
  by (simp add: closed_streams_def)

lemma streams_ok_closed: "streams_ok b chans \<Longrightarrow> streams_ok True (closed_streams chans)"
  by (simp add: streams_ok_def closed_streams_def)

text \<open>What \<open>transition\<close> does to a pipeline that keeps the invariant.\<close>

lemma transition_cases:
  assumes "pipe_ok p"
  obtains (same) "transition st err p = ok p" "pipeState p = st \<or> terminal (pipeState p)"
  | (moved) p' where "transition st err p = ok p'" "pipeState p \<noteq> st" "\<not> terminal (pipeState p)"
      "p' = p\<lparr>pipeState := st, pipeErr := err\<rparr>" "terminal st \<longrightarrow> pipeDone p"
  | (finished) p' where "transition st err p = ok p'" "terminal st" "\<not> pipeDone p"
      "\<not> terminal (pipeState p)"
      "p' = Cancel (p\<lparr>pipeState := st, pipeErr := err, pipeDone := True,
                      pipeStreams := closed_streams (pipeStreams p)\<rparr>)"
proof (cases "pipeState p = st \<or> terminal (pipeState p)")
  case True
  then show ?thesis by (intro same) (auto simp: transition_def)
next
  case False
  show ?thesis
  proof (cases "terminal st \<and> \<not> pipeDone p")
    case True
    have "streams_ok False (pipeStreams (p\<lparr>pipeState := st, pipeErr := err\<rparr>))"
      using assms True by (simp add: pipe_ok_def)
    from close_all_open [OF this] show ?thesis
      using True False by (intro finished) (simp_all add: transition_def)
  next
    case F: False
    with False show ?thesis by (intro moved [OF _ _ _ refl]) (auto simp: transition_def Let_def)
  qed
qed

lemma transition_ok:
  assumes "pipe_ok p"
  shows "\<exists>p'. transition st err p = ok p' \<and> pipe_ok p' \<and> (terminal st \<longrightarrow> pipeDone p') \<and>
    (\<forall>s. chan_queue (pipeStreams p' s) = chan_queue (pipeStreams p s)) \<and>
    (pipeDone p \<longrightarrow> pipeDone p') \<and> (pipeState p' = pipeState p \<or> pipeState p' = st)"
  using assms
proof (cases rule: transition_cases [of p st err])
  case same
  then show ?thesis using assms by (auto simp: pipe_ok_def)
next
  case (moved p')
  then show ?thesis using assms by (auto simp: pipe_ok_def)
next
  case (finished p')
  then show ?thesis
    using assms by (auto simp: pipe_ok_def Cancel_def intro: streams_ok_closed)
qed

lemma set_state_ok: "pipe_ok p \<Longrightarrow> \<not> terminal st \<Longrightarrow> pipe_ok (p\<lparr>pipeState := st\<rparr>)"
  by (simp add: pipe_ok_def)

lemma apply_state_ok:
  assumes "pipe_ok p"
  shows "\<exists>p'. apply_state E n exc p = ok p' \<and> pipe_ok p' \<and>
    (\<forall>s. chan_queue (pipeStreams p' s) = chan_queue (pipeStreams p s)) \<and>
    (pipeDone p \<longrightarrow> pipeDone p')"
proof -
  have set: "?thesis" if "apply_state E n exc p = ok (p\<lparr>pipeState := st\<rparr>)" "\<not> terminal st" for st
    using that set_state_ok [OF assms that(2)] by auto
  have tr: "?thesis" if "apply_state E n exc p = transition st err p" for st err
    using that transition_ok [OF assms, of st err] by auto
  have "apply_state E n exc p = ok p" if "n \<notin> {0, 1, 2, 3, 4, 5, 6}"
    using that by (simp add: apply_state_def)
  then consider "n = 0" | "n = 1" | "n = 2" | "n = 3" | "n = 4" | "n = 5" | "n = 6"
    | "apply_state E n exc p = ok p"
    by blast
  then show ?thesis
  proof cases
    case 8
    then show ?thesis using assms by auto
  qed (use set tr in \<open>simp_all add: apply_state_def\<close>)
qed

text \<open>A result that is no panic.\<close>

fun returned :: "'a outcome \<Rightarrow> bool" where
  "returned (Panic x) = False"
| "returned _ = True"

text \<open>
  Operations keep the invariant, leave what waits in the streams, never reopen a pipeline that is
  done, and do not panic by themselves: every panic is one of the serializer or the transport.
\<close>

definition kept :: "pipeline \<Rightarrow> pipeline \<Rightarrow> bool" where
  "kept p p' \<longleftrightarrow>
     (pipe_ok p \<longrightarrow> pipe_ok p' \<and> (\<forall>s. chan_queue (pipeStreams p' s) = chan_queue (pipeStreams p s)) \<and>
        (pipeDone p \<longrightarrow> pipeDone p'))"

lemma kept_refl [simp]: "kept p p"
  by (simp add: kept_def)

lemma kept_trans: "kept p q \<Longrightarrow> kept q r \<Longrightarrow> kept p r"
  by (simp add: kept_def)

lemma kept_state: "\<not> terminal st \<Longrightarrow> kept p (p\<lparr>pipeState := st\<rparr>)"
  by (simp add: kept_def pipe_ok_def)

lemma kept_transition: "transition st err p = (p', r) \<Longrightarrow> kept p p'"
  using transition_ok [of p st err] by (auto simp: kept_def ok_def)

lemma kept_invoke_failed: "invoke_failed what e p t = ((p', t'), r) \<Longrightarrow> kept p p'"
  by (auto simp: invoke_failed_def split: prod.splits outcome.splits dest: kept_transition)

lemma kept_run_failed:
  "invoke_failed what e (p\<lparr>pipeState := StateRunning\<rparr>) t = ((p', t'), r) \<Longrightarrow> kept p p'"
  using kept_trans [OF kept_state [of StateRunning p] kept_invoke_failed] by simp

lemma kept_Invoke: "Invoke E h tr ctx (p, t) = ((p', t'), r) \<Longrightarrow> kept p p'"
  by (auto simp: Invoke_def Let_def ok_def kept_state
      split: if_splits prod.splits outcome.splits dest: kept_run_failed)

lemma kept_sends:
  "Stop tr ctx (p, t) = ((p', t'), r) \<Longrightarrow> kept p p'"
  "SendInput E h tr ctx v (p, t) = ((p', t'), r) \<Longrightarrow> kept p p'"
  "CloseInput tr ctx (p, t) = ((p', t'), r) \<Longrightarrow> kept p p'"
  by (auto simp: Stop_def SendInput_def CloseInput_def send_from_def Let_def kept_state
      split: if_splits prod.splits outcome.splits)

lemma kept_config:
  "kept p (SkipInvokeSend p)" "kept p (AddCommand n b p)" "kept p (AddParameter n v p)"
  "kept p (AddArgument v p)" "kept p (SetChannelTimeout i p)" "kept p (Cancel p)"
  by (auto simp: kept_def pipe_ok_config) (simp_all add: config_defs)

lemma kept_goroutine: "host_call_goroutine E h tr msg (p, t) = ((p', t'), r) \<Longrightarrow> kept p p'"
  by (auto simp: host_call_goroutine_def ok_def split: prod.splits outcome.splits
      dest: kept_transition)

lemma handle_state_ok:
  assumes "pipe_ok p"
  shows "\<exists>p'. fst (handle_state E data p) = p' \<and> kept p p' \<and>
    (returned (unmarshal E data) \<longrightarrow> snd (handle_state E data p) = Ret ())"
proof -
  have a: "kept p (fst (apply_state E n exc p)) \<and> snd (apply_state E n exc p) = Ret ()" for n exc
    using apply_state_ok [OF assms, of E n exc] by (auto simp: kept_def ok_def)
  have t: "kept p (fst (transition st err p)) \<and> snd (transition st err p) = Ret ()" for st err
    using transition_ok [OF assms, of st err] by (auto simp: kept_def ok_def)
  show ?thesis
    unfolding handle_state_def
    by (auto simp: a t split: outcome.split list.split option.split prod.split)
qed

section \<open>Runs\<close>

text \<open>What the client, the pool and the context of the caller do to a pipeline.\<close>

datatype client_op =
    CSkipInvokeSend | CAddCommand string bool | CAddParameter string goval | CSetTimeout int
  | CCancel | CParentDone sentinel | CFail gerr | CInvoke context_state | CStop context_state
  | CSendInput context_state goval | CCloseInput context_state

fun client ::
  "codec_env \<Rightarrow> heap \<Rightarrow> 't transport \<Rightarrow> client_op \<Rightarrow> pipeline \<times> 't \<Rightarrow>
    (pipeline \<times> 't) \<times> unit outcome" where
  "client E h tr CSkipInvokeSend (p, t) = ok (SkipInvokeSend p, t)"
| "client E h tr (CAddCommand n b) (p, t) = ok (AddCommand n b p, t)"
| "client E h tr (CAddParameter n v) (p, t) = ok (AddParameter n v p, t)"
| "client E h tr (CSetTimeout i) (p, t) = ok (SetChannelTimeout i p, t)"
| "client E h tr CCancel (p, t) = ok (Cancel p, t)"
| "client E h tr (CParentDone w) (p, t) = ok (p\<lparr>pipeCtx := ctx_cancel w (pipeCtx p)\<rparr>, t)"
| "client E h tr (CFail e) (p, t) = (case Pipeline_Fail e p of (p1, r) \<Rightarrow> ((p1, t), r))"
| "client E h tr (CInvoke ctx) pt = Invoke E h tr ctx pt"
| "client E h tr (CStop ctx) pt = Stop tr ctx pt"
| "client E h tr (CSendInput ctx v) pt = SendInput E h tr ctx v pt"
| "client E h tr (CCloseInput ctx) pt = CloseInput tr ctx pt"

lemma kept_client: "client E h tr c (p, t) = ((p', t'), r) \<Longrightarrow> kept p p'"
proof (cases c)
  case (CParentDone w)
  moreover assume "client E h tr c (p, t) = ((p', t'), r)"
  ultimately show ?thesis by (auto simp: ok_def kept_def pipe_ok_def)
qed (auto simp: ok_def kept_config Pipeline_Fail_def kept_sends
    split: prod.splits intro: kept_transition kept_Invoke kept_sends)

text \<open>
  The system around a pipeline: the pool's loop may be blocked in a delivery, goroutines may be
  answering host calls, and \<open>'t\<close> is the transport. A step that panics ends the program, so it is
  no step. Labels record what a stream accepted and what its consumer received.
\<close>

record 't psystem =
  sysPipe :: pipeline
  sysBlocked :: "(stream \<times> message) option"
  sysCalls :: "message list"
  sysTransport :: 't

datatype label =
    Accepted stream message | Received stream message | Reported message | Client client_op | Internal

inductive pstep :: "codec_env \<Rightarrow> heap \<Rightarrow> 't transport \<Rightarrow> 't psystem \<Rightarrow> label \<Rightarrow> 't psystem \<Rightarrow> bool"
  for E h tr where
  client:
    "client E h tr c (sysPipe y, sysTransport y) = ((p, t), r) \<Longrightarrow> returned r \<Longrightarrow>
     pstep E h tr y (Client c) (y\<lparr>sysPipe := p, sysTransport := t\<rparr>)"
| deliver:
    "sysBlocked y = None \<Longrightarrow> stream_of (MType msg) = Some s \<Longrightarrow>
     HandleMessage E msg (sysPipe y) = (p, Returned (Ret ())) \<Longrightarrow>
     pstep E h tr y (Accepted s msg) (y\<lparr>sysPipe := p\<rparr>)"
| deliver_blocks:
    "sysBlocked y = None \<Longrightarrow> HandleMessage E msg (sysPipe y) = (p, Blocked s m) \<Longrightarrow>
     pstep E h tr y Internal (y\<lparr>sysPipe := p, sysBlocked := Some (s, m)\<rparr>)"
| woken_sends:
    "sysBlocked y = Some (s, m) \<Longrightarrow> blocked_send w s m (sysPipe y) = (p, Returned (Ret ())) \<Longrightarrow>
     pstep E h tr y (Accepted s m) (y\<lparr>sysPipe := p, sysBlocked := None\<rparr>)"
| woken_fails:
    "sysBlocked y = Some (s, m) \<Longrightarrow> blocked_send w s m (sysPipe y) = (p, Returned (Fail e)) \<Longrightarrow>
     pstep E h tr y Internal (y\<lparr>sysPipe := p, sysBlocked := None\<rparr>)"
| report:
    "sysBlocked y = None \<Longrightarrow> stream_of (MType msg) = None \<Longrightarrow>
     HandleMessage E msg (sysPipe y) = (p, Returned r) \<Longrightarrow> returned r \<Longrightarrow>
     pstep E h tr y (Reported msg) (y\<lparr>sysPipe := p\<rparr>)"
| host_call:
    "sysBlocked y = None \<Longrightarrow> HandleMessage E msg (sysPipe y) = (p, Answering m) \<Longrightarrow>
     pstep E h tr y Internal (y\<lparr>sysPipe := p, sysCalls := sysCalls y @ [m]\<rparr>)"
| answered:
    "i < length (sysCalls y) \<Longrightarrow>
     host_call_goroutine E h tr (sysCalls y ! i) (sysPipe y, sysTransport y) = ((p, t), r) \<Longrightarrow>
     returned r \<Longrightarrow>
     pstep E h tr y Internal (y\<lparr>sysPipe := p, sysTransport := t,
       sysCalls := take i (sysCalls y) @ drop (Suc i) (sysCalls y)\<rparr>)"
| receive:
    "chan_take (pipeStreams (sysPipe y) s) = Some (m, c) \<Longrightarrow>
     pstep E h tr y (Received s m)
       (y\<lparr>sysPipe := (sysPipe y)\<lparr>pipeStreams := (pipeStreams (sysPipe y))(s := c)\<rparr>\<rparr>)"

inductive_cases pstep_elim: "pstep E h tr y l z"

inductive prun :: "codec_env \<Rightarrow> heap \<Rightarrow> 't transport \<Rightarrow> 't psystem \<Rightarrow> label list \<Rightarrow> 't psystem \<Rightarrow> bool"
  for E h tr where
  start: "prun E h tr y [] y"
| more: "prun E h tr x ls y \<Longrightarrow> pstep E h tr y l z \<Longrightarrow> prun E h tr x (ls @ [l]) z"

text \<open>The system of a pipeline that was just created.\<close>

definition psystem_of :: "pipeline \<Rightarrow> 't \<Rightarrow> 't psystem" where
  "psystem_of p t = \<lparr>sysPipe = p, sysBlocked = None, sysCalls = [], sysTransport = t\<rparr>"

text \<open>The operations of a step on one of the streams.\<close>

fun stream_ops :: "stream \<Rightarrow> label \<Rightarrow> message fifo_op list" where
  "stream_ops s (Accepted r m) = (if r = s then [Put m] else [])"
| "stream_ops s (Received r m) = (if r = s then [Take m] else [])"
| "stream_ops s _ = []"

text \<open>A delivery to a stream that returns nil has put the message into the stream's channel.\<close>

lemma sendToChannel_sent:
  assumes "sendToChannel s m p = (p', Returned (Ret ()))"
  obtains c where "chan_step (pipeStreams p s) (Put m) c"
    "p' = p\<lparr>pipeStreams := (pipeStreams p)(s := c)\<rparr>"
  using assms by (auto simp: sendToChannel_def split: outcome.splits option.splits)

lemma sendToChannel_blocked:
  "sendToChannel s m p = (p', Blocked r n) \<longleftrightarrow>
     p' = p \<and> r = s \<and> n = m \<and> chan_offer m (pipeStreams p s) = Ret None"
  by (auto simp: sendToChannel_def split: outcome.splits option.splits)

lemma blocked_send_sent:
  "blocked_send w s m p = (p', Returned (Ret ())) \<Longrightarrow> sendToChannel s m p = (p', Returned (Ret ()))"
  by (cases w) (auto split: option.splits)

lemma blocked_send_failed:
  "blocked_send w s m p = (p', Returned (Fail e)) \<Longrightarrow> p' = p"
  by (cases w) (auto simp: sendToChannel_def chan_offer_def split: option.splits outcome.splits if_splits)

lemma HandleMessage_stream:
  "stream_of (MType msg) = Some s \<Longrightarrow> HandleMessage E msg p = sendToChannel s msg p"
  by (simp add: HandleMessage_def)

lemma HandleMessage_other:
  assumes "stream_of (MType msg) = None" and "HandleMessage E msg p = (p', x)"
  shows "kept p p' \<and> (\<forall>s m. x \<noteq> Blocked s m)"
proof (cases "pipe_ok p")
  case True
  from handle_state_ok [OF this, of E "MsgData msg"] have "kept p (fst (handle_state E (MsgData msg) p))" by auto
  with assms show ?thesis
    by (auto simp: HandleMessage_def split: if_splits prod.splits)
next
  case False
  with assms show ?thesis
    by (auto simp: HandleMessage_def kept_def split: if_splits prod.splits)
qed

lemma HandleMessage_answering:
  "HandleMessage E msg p = (p', Answering m) \<Longrightarrow> p' = p \<and> m = msg"
  by (auto simp: HandleMessage_def sendToChannel_def
      split: option.splits outcome.splits if_splits prod.splits)

text \<open>One channel changes, the others and the rest of the pipeline stay.\<close>

lemma pipe_ok_stream_step:
  assumes "pipe_ok p" and "chan_step (pipeStreams p s) q c"
  shows "pipe_ok (p\<lparr>pipeStreams := (pipeStreams p)(s := c)\<rparr>)"
proof -
  have ok: "streams_ok (pipeDone p) (pipeStreams p)" using assms(1) by (simp add: pipe_ok_def)
  then have s: "chan_closed (pipeStreams p s) = pipeDone p" "chan_cap (pipeStreams p s) = streamBuffer"
    "length (chan_queue (pipeStreams p s)) \<le> chan_cap (pipeStreams p s)"
    by (simp_all add: streams_ok_def)
  have "chan_closed c = chan_closed (pipeStreams p s)"
    using assms(2) by (cases q) (auto simp: chan_offer_Some chan_take_Some)
  moreover note go_chan.same_bound [OF assms(2)] go_chan.step_within [OF assms(2) s(3)]
  ultimately show ?thesis using assms(1) ok s by (auto simp: pipe_ok_def streams_ok_def)
qed

definition stream_queue :: "'t psystem \<Rightarrow> stream \<Rightarrow> message list" where
  "stream_queue y s = chan_queue (pipeStreams (sysPipe y) s)"

text \<open>
  A step keeps the invariant, does what its label says to the streams, and never makes a pipeline
  undone.
\<close>

lemma pstep_kept:
  assumes "pstep E h tr y l z" and "pipe_ok (sysPipe y)"
  shows "pipe_ok (sysPipe z) \<and> (pipeDone (sysPipe y) \<longrightarrow> pipeDone (sysPipe z)) \<and>
    (\<forall>s. stream_queue y s @ puts (stream_ops s l) = takes (stream_ops s l) @ stream_queue z s)"
proof -
  have quiet: ?thesis if "kept (sysPipe y) (sysPipe z)" "\<And>s. stream_ops s l = []"
    using that assms(2) by (auto simp: kept_def stream_queue_def)
  have step: ?thesis if "chan_step (pipeStreams (sysPipe y) r) q c"
      "sysPipe z = (sysPipe y)\<lparr>pipeStreams := (pipeStreams (sysPipe y))(r := c)\<rparr>"
      "\<And>s. stream_ops s l = (if r = s then [q] else [])" for r q c
    using that pipe_ok_stream_step [OF assms(2) that(1)] go_chan.step_contents [OF that(1)]
    by (auto simp: stream_queue_def)
  show ?thesis
    using assms(1)
  proof cases
    case (client c p t r)
    with kept_client show ?thesis by (intro quiet) fastforce+
  next
    case (deliver msg s p)
    then have "sendToChannel s msg (sysPipe y) = (p, Returned (Ret ()))"
      by (simp add: HandleMessage_stream)
    then obtain c where "chan_step (pipeStreams (sysPipe y) s) (Put msg) c"
      "p = (sysPipe y)\<lparr>pipeStreams := (pipeStreams (sysPipe y))(s := c)\<rparr>"
      by (rule sendToChannel_sent)
    with deliver show ?thesis by (intro step) auto
  next
    case (deliver_blocks msg p s m)
    have "kept (sysPipe y) p"
    proof (cases "stream_of (MType msg)")
      case None
      with deliver_blocks HandleMessage_other show ?thesis by blast
    next
      case (Some r)
      with deliver_blocks show ?thesis by (simp add: HandleMessage_stream sendToChannel_blocked)
    qed
    with deliver_blocks show ?thesis by (intro quiet) auto
  next
    case (woken_sends s m w p)
    from blocked_send_sent [OF this(4)] obtain c where "chan_step (pipeStreams (sysPipe y) s) (Put m) c"
      "p = (sysPipe y)\<lparr>pipeStreams := (pipeStreams (sysPipe y))(s := c)\<rparr>"
      by (rule sendToChannel_sent)
    with woken_sends show ?thesis by (intro step) auto
  next
    case (woken_fails s m w p e)
    with blocked_send_failed show ?thesis by (intro quiet) fastforce+
  next
    case (report msg p r)
    with HandleMessage_other show ?thesis by (intro quiet) fastforce+
  next
    case (host_call msg p m)
    with HandleMessage_answering show ?thesis by (intro quiet) fastforce+
  next
    case (answered i p t r)
    with kept_goroutine show ?thesis by (intro quiet) fastforce+
  next
    case (receive s m c)
    then show ?thesis by (intro step [where q = "Take m"]) auto
  qed
qed

text \<open>What the streams of a run accepted and what was received from them, oldest first.\<close>

definition put_into :: "stream \<Rightarrow> label list \<Rightarrow> message list" where
  "put_into s ls = puts (concat (map (stream_ops s) ls))"

definition taken_from :: "stream \<Rightarrow> label list \<Rightarrow> message list" where
  "taken_from s ls = takes (concat (map (stream_ops s) ls))"

lemma in_order: "a @ p = t @ b \<Longrightarrow> b @ q = u @ c \<Longrightarrow> a @ p @ q = t @ u @ c"
  by (metis append.assoc)

lemma prun_kept:
  assumes "prun E h tr x ls z" and "pipe_ok (sysPipe x)"
  shows "pipe_ok (sysPipe z) \<and> (pipeDone (sysPipe x) \<longrightarrow> pipeDone (sysPipe z)) \<and>
    (\<forall>s. stream_queue x s @ put_into s ls = taken_from s ls @ stream_queue z s)"
  using assms
proof (induction rule: prun.induct)
  case (more x ls y l z)
  then have "pipe_ok (sysPipe y)" by simp
  note step = pstep_kept [OF more.hyps(2) this] and run = more.IH [OF more.prems]
  have "stream_queue x s @ put_into s (ls @ [l]) = taken_from s (ls @ [l]) @ stream_queue z s" for s
    using run step in_order [of "stream_queue x s" "put_into s ls" "taken_from s ls" "stream_queue y s"]
    by (simp add: put_into_def taken_from_def)
  with run step show ?case by auto
qed (simp add: put_into_def taken_from_def)

text \<open>A message only ever enters the stream of its type.\<close>

definition blocked_typed :: "'t psystem \<Rightarrow> bool" where
  "blocked_typed y \<longleftrightarrow> (\<forall>s m. sysBlocked y = Some (s, m) \<longrightarrow> stream_of (MType m) = Some s)"

lemma HandleMessage_blocked:
  "HandleMessage E msg p = (p', Blocked s m) \<Longrightarrow> m = msg \<and> stream_of (MType msg) = Some s"
  by (auto simp: HandleMessage_def sendToChannel_blocked split: option.splits if_splits prod.splits)

lemma pstep_typed:
  assumes "pstep E h tr y l z" and "blocked_typed y"
  shows "blocked_typed z \<and> (\<forall>s m. l = Accepted s m \<longrightarrow> stream_of (MType m) = Some s)"
  using assms(1)
proof cases
  case (deliver_blocks msg p s m)
  with HandleMessage_blocked show ?thesis by (fastforce simp: blocked_typed_def)
qed (use assms(2) in \<open>simp_all add: blocked_typed_def\<close>)

lemma prun_typed:
  assumes "prun E h tr x ls z" and "blocked_typed x"
  shows "blocked_typed z \<and> (\<forall>s m. Accepted s m \<in> set ls \<longrightarrow> stream_of (MType m) = Some s)"
  using assms
proof (induction rule: prun.induct)
  case (more x ls y l z)
  with pstep_typed [OF more.hyps(2)] show ?case by auto
qed simp

lemma puts_stream_ops: "m \<in> set (put_into s ls) \<longleftrightarrow> Accepted s m \<in> set ls"
proof (induction ls)
  case (Cons l ls)
  then show ?case by (cases l) (auto simp: put_into_def)
qed (simp add: put_into_def)

section \<open>Properties\<close>

definition created :: "pipeline \<Rightarrow> bool" where
  "created p \<longleftrightarrow>
     (\<exists>i ctx rp cmd. p = NewWithContext i ctx rp cmd \<or> p = NewWithID rp i \<or> p = NewBuilder i rp)"

lemma created_ok: "created p \<Longrightarrow> pipe_ok p \<and> \<not> pipeDone p \<and> (\<forall>s. chan_queue (pipeStreams p s) = [])"
  by (auto simp: created_def pipe_ok_new) (simp_all add: constructors)

lemma created_new: "created (NewPipeline i rp cmd)"
  unfolding created_def NewPipeline_def by blast

text \<open>
  C15. In every run of a pipeline, whatever the client, the server and the consumers do: the streams
  never hold more than 100 messages, they are closed exactly when the pipeline is done, a pipeline
  in a terminal state is done, and a pipeline that is done has cancelled its context.
\<close>

theorem pipeline_invariant:
  assumes "created p" and "prun E h tr (psystem_of p t) ls z"
  shows "(\<forall>s. chan_closed (pipeStreams (sysPipe z) s) = pipeDone (sysPipe z) \<and>
              length (chan_queue (pipeStreams (sysPipe z) s)) \<le> 100) \<and>
    (terminal (pipeState (sysPipe z)) \<longrightarrow> pipeDone (sysPipe z)) \<and>
    (pipeDone (sysPipe z) \<longrightarrow> pipeCtx (sysPipe z) \<noteq> None)"
proof -
  have "pipe_ok (sysPipe z)"
    using prun_kept [OF assms(2)] created_ok [OF assms(1)] by (simp add: psystem_of_def)
  then show ?thesis by (auto simp: pipe_ok_def streams_ok_def streamBuffer_def)
qed

text \<open>
  C9. Each stream of a pipeline is a queue: in every run, what it accepted is what its consumer
  received followed by what waits in the channel, in the same order, nothing lost and nothing
  twice, and it accepts only messages of its type. Closing the stream loses none of them.
\<close>

theorem streams_fifo:
  assumes "created p" and "prun E h tr (psystem_of p t) ls z"
  shows "put_into s ls = taken_from s ls @ chan_queue (pipeStreams (sysPipe z) s) \<and>
    (\<forall>m\<in>set (put_into s ls). stream_of (MType m) = Some s)"
proof -
  note p = created_ok [OF assms(1)]
  have "stream_queue (psystem_of p t) s @ put_into s ls = taken_from s ls @ stream_queue z s"
    using prun_kept [OF assms(2)] p by (simp add: psystem_of_def)
  moreover
  have "blocked_typed (psystem_of p t)" by (simp add: blocked_typed_def psystem_of_def)
  then have "m \<in> set (put_into s ls) \<Longrightarrow> stream_of (MType m) = Some s" for m
    using prun_typed [OF assms(2)] by (simp add: puts_stream_ops)
  ultimately show ?thesis using p by (simp add: stream_queue_def psystem_of_def)
qed

lemma fails_now:
  assumes "created p" and "prun E h tr (psystem_of p t) ls z" and "\<not> terminal (pipeState (sysPipe z))"
  shows "\<exists>p'. transition StateFailed (Some err) (sysPipe z) = (p', Ret ()) \<and>
    Wait p' = Some (Some err) \<and> pipeState p' = StateFailed"
proof -
  have "pipe_ok (sysPipe z)"
    using prun_kept [OF assms(2)] created_ok [OF assms(1)] by (simp add: psystem_of_def)
  then show ?thesis
    using assms(3)
    by (cases rule: transition_cases [of "sysPipe z" StateFailed "Some err"])
      (auto simp: Wait_def ok_def Cancel_def)
qed

text \<open>
  C20. \<open>Fail\<close> always ends a pipeline: from any point of any run it returns without a panic, and
  \<open>Wait\<close> returns from then on, with the error unless the pipeline had ended before.
\<close>

theorem fail_ends_pipeline:
  assumes "created p" and "prun E h tr (psystem_of p t) ls z"
  shows "\<exists>p'. Pipeline_Fail err (sysPipe z) = (p', Ret ()) \<and> Wait p' \<noteq> None \<and>
    (\<not> terminal (pipeState (sysPipe z)) \<longrightarrow> Wait p' = Some (Some err) \<and> pipeState p' = StateFailed)"
proof -
  have ok: "pipe_ok (sysPipe z)"
    using prun_kept [OF assms(2)] created_ok [OF assms(1)] by (simp add: psystem_of_def)
  show ?thesis
  proof (cases "terminal (pipeState (sysPipe z))")
    case True
    then show ?thesis
      using ok by (auto simp: Pipeline_Fail_def transition_def ok_def Wait_def pipe_ok_def)
  next
    case False
    from fails_now [OF assms False, of err] show ?thesis by (auto simp: Pipeline_Fail_def)
  qed
qed

text \<open>
  C21. A state message of the server that reports the end (stopped, completed, failed or
  disconnected), and one in which the client finds no state, ends the pipeline: the delivery
  returns nil, \<open>Wait\<close> returns, and its error is nil unless the state is failed.
\<close>

theorem report_ends_pipeline:
  assumes "created p" and "prun E h tr (psystem_of p t) ls z"
    and "MType msg = MessageTypePipelineState" and "unmarshal E (MsgData msg) = Ret (v # vs)"
    and "case reported_state v of None \<Rightarrow> n = 4 | Some (k, exc) \<Rightarrow> n = k \<and> k \<in> {3, 4, 5, 6}"
  shows "\<exists>p'. HandleMessage E msg (sysPipe z) = (p', Returned (Ret ())) \<and> Wait p' \<noteq> None \<and>
    (\<not> terminal (pipeState (sysPipe z)) \<longrightarrow> (n = 5 \<longleftrightarrow> Wait p' \<noteq> Some None))"
proof -
  have ok: "pipe_ok (sysPipe z)"
    using prun_kept [OF assms(2)] created_ok [OF assms(1)] by (simp add: psystem_of_def)
  have tr: "\<exists>p'. transition st err (sysPipe z) = ok p' \<and> Wait p' \<noteq> None \<and>
      (\<not> terminal (pipeState (sysPipe z)) \<longrightarrow> Wait p' = Some err)" if "terminal st" for st err
  proof -
    have "terminal (pipeState (sysPipe z)) \<Longrightarrow> pipeDone (sysPipe z)" using ok by (simp add: pipe_ok_def)
    with ok that show ?thesis
      by (cases rule: transition_cases [of "sysPipe z" st err]) (auto simp: Wait_def Cancel_def)
  qed
  have "\<exists>st err. handle_state E (MsgData msg) (sysPipe z) = transition st err (sysPipe z) \<and>
      terminal st \<and> (n = 5 \<longleftrightarrow> err \<noteq> None)"
  proof (cases "reported_state v")
    case None
    with assms show ?thesis by (auto simp: handle_state_def)
  next
    case (Some x)
    with assms(4,5) obtain exc where n: "n \<in> {3, 4, 5, 6}" and
      h: "handle_state E (MsgData msg) (sysPipe z) = apply_state E n exc (sysPipe z)"
      by (cases x) (auto simp: handle_state_def)
    show ?thesis
    proof (cases "n = 5")
      case True
      show ?thesis
        unfolding h by (intro exI [of _ StateFailed] exI [of _ "Some (EMsg (failed_message E exc))"])
          (simp add: True apply_state_def)
    next
      case False
      with n show ?thesis unfolding h by (auto simp: apply_state_def)
    qed
  qed
  then obtain st err where h: "handle_state E (MsgData msg) (sysPipe z) = transition st err (sysPipe z)"
    "terminal st" "n = 5 \<longleftrightarrow> err \<noteq> None"
    by blast
  have "stream_of (MType msg) = None" using assms(3) by (simp add: stream_of_def message_type_defs)
  with tr [OF h(2), of err] h show ?thesis
    using assms(3) by (auto simp: HandleMessage_def ok_def)
qed

text \<open>
  C38. The end of a pipeline is not final. Once it is done, an output, error or other record that
  arrives late panics, for its channel is closed; and a state message that says "running" sets it
  back to running, although it is done, whereupon \<open>Stop\<close> and the other operations are let through
  again and a later failure replaces the result that \<open>Wait\<close> returned before.
\<close>

theorem ended_pipeline_reopens:
  assumes "created p" and "prun E h tr (psystem_of p t) ls z" and "pipeDone (sysPipe z)"
  shows "(stream_of (MType msg) \<noteq> None \<longrightarrow>
      HandleMessage E msg (sysPipe z) = (sysPipe z, Returned (Panic PanicSendOnClosed))) \<and>
    (MType msg = MessageTypePipelineState \<and> unmarshal E (MsgData msg) = Ret [VInt32 1] \<longrightarrow>
      (\<exists>q q'. HandleMessage E msg (sysPipe z) = (q, Returned (Ret ())) \<and>
         pipeState q = StateRunning \<and> Wait q = Wait (sysPipe z) \<and> Wait q \<noteq> None \<and>
         Pipeline_Fail e q = (q', Ret ()) \<and> Wait q' = Some (Some e)))"
proof -
  have ok: "pipe_ok (sysPipe z)"
    using prun_kept [OF assms(2)] created_ok [OF assms(1)] by (simp add: psystem_of_def)
  then have "chan_closed (pipeStreams (sysPipe z) s)" for s
    using assms(3) by (simp add: pipe_ok_def streams_ok_def)
  then have late: "sendToChannel s msg (sysPipe z) = (sysPipe z, Returned (Panic PanicSendOnClosed))" for s
    by (simp add: sendToChannel_def chan_offer_def)
  have st: "stream_of MessageTypePipelineState = None"
    by (simp add: stream_of_def message_type_defs)
  show ?thesis
    using assms(3) late st
    by (auto simp: HandleMessage_def handle_state_def reported_state_def apply_state_def Wait_def
        ok_def Pipeline_Fail_def transition_def)
qed

text \<open>Only a state message brings a pipeline back to the state in which it can be invoked.\<close>

lemma transition_state: "transition st err p = (p', r) \<Longrightarrow> pipeState p' = pipeState p \<or> pipeState p' = st"
  by (auto simp: transition_def close_all_def ok_def Let_def Cancel_def
      split: if_splits outcome.splits)

lemma client_started:
  "client E h tr c (p, t) = ((p', t'), r) \<Longrightarrow> pipeState p \<noteq> StateNotStarted \<Longrightarrow>
   pipeState p' \<noteq> StateNotStarted"
  by (cases c)
    (auto simp: ok_def config_defs Pipeline_Fail_def Invoke_def Stop_def SendInput_def CloseInput_def
      send_from_def Let_def dest: transition_state split: prod.splits if_splits outcome.splits)

lemma sendToChannel_state: "sendToChannel s m p = (p', x) \<Longrightarrow> pipeState p' = pipeState p"
  by (auto simp: sendToChannel_def split: outcome.splits option.splits)

lemma blocked_send_state: "blocked_send w s m p = (p', x) \<Longrightarrow> pipeState p' = pipeState p"
  by (cases w) (auto simp: sendToChannel_state split: option.splits)

lemma HandleMessage_state:
  "HandleMessage E msg p = (p', x) \<Longrightarrow> stream_of (MType msg) \<noteq> None \<or> (\<forall>r. x \<noteq> Returned r) \<Longrightarrow>
   pipeState p' = pipeState p"
  by (auto simp: HandleMessage_def sendToChannel_state split: option.splits if_splits prod.splits)

lemma pstep_started:
  assumes "pstep E h tr y l z" and "\<forall>m. l \<noteq> Reported m" and "pipeState (sysPipe y) \<noteq> StateNotStarted"
  shows "pipeState (sysPipe z) \<noteq> StateNotStarted"
  using assms(1)
proof cases
  case (client c p t r)
  with client_started assms(3) show ?thesis by fastforce
next
  case (answered i p t r)
  with assms(3) show ?thesis
    by (auto simp: host_call_goroutine_def ok_def dest: transition_state
        split: prod.splits outcome.splits)
qed (use assms(2,3) in \<open>auto dest!: HandleMessage_state blocked_send_state\<close>)

lemma prun_started:
  assumes "prun E h tr x ls z" and "\<forall>m. Reported m \<notin> set ls" and "pipeState (sysPipe x) \<noteq> StateNotStarted"
  shows "pipeState (sysPipe z) \<noteq> StateNotStarted"
  using assms
proof (induction rule: prun.induct)
  case (more x ls y l z)
  with pstep_started [OF more.hyps(2)] show ?case by auto
qed simp

text \<open>
  A pipeline is invoked once. After a call of \<open>Invoke\<close> on a pipeline that was not started,
  whatever that call returned, every later call in a run without state messages of the server is
  refused, and neither it changes the pipeline nor does it reach the transport.
\<close>

theorem invoke_once:
  assumes "Invoke E h tr ctx (sysPipe x, sysTransport x) = ((p, t), r)"
    and "prun E h tr (x\<lparr>sysPipe := p, sysTransport := t\<rparr>) ls z" and "\<forall>m. Reported m \<notin> set ls"
  shows "Invoke E h tr ctx' (sysPipe z, u) = ((sysPipe z, u), Fail (EIs ErrPipelineInvalidState))"
proof -
  have f: "invoke_failed w e q u = ((p', t'), r') \<Longrightarrow> pipeState q \<noteq> StateNotStarted \<Longrightarrow>
      pipeState p' \<noteq> StateNotStarted" for w e q u p' t' r'
    by (auto simp: invoke_failed_def dest!: transition_state split: prod.splits outcome.splits)
  have "pipeState p \<noteq> StateNotStarted"
    using assms(1) by (auto simp: Invoke_def Let_def ok_def dest: f split: if_splits outcome.splits prod.splits)
  then have "pipeState (sysPipe z) \<noteq> StateNotStarted"
    using prun_started [OF assms(2,3)] by simp
  then show ?thesis by (simp add: Invoke_def)
qed

text \<open>
  The goroutine of a call that could not be answered: the pipeline fails with the error, unless it
  has ended before; then it stays as it is.
\<close>

definition call_fails ::
  "codec_env \<Rightarrow> heap \<Rightarrow> 't transport \<Rightarrow> message \<Rightarrow> pipeline \<Rightarrow> 't \<Rightarrow> 't \<Rightarrow> gerr \<Rightarrow> bool" where
  "call_fails E h tr msg p t t2 e \<longleftrightarrow>
     (\<exists>p'. host_call_goroutine E h tr msg (p, t) = ((p', t2), Ret ()) \<and>
        (if terminal (pipeState p) then p' = p
         else pipeState p' = StateFailed \<and> Wait p' = Some (Some (EWrap ''handle host call'' e))))"

lemma goroutine_fails:
  assumes "created p" and "prun E h tr (psystem_of p t) ls z"
    and "handleHostCall E h tr (pipeCtx (sysPipe z)) msg (sysPipe z) u = (t2, Fail e)"
  shows "call_fails E h tr msg (sysPipe z) u t2 e"
proof (cases "terminal (pipeState (sysPipe z))")
  case True
  with assms(3) show ?thesis
    by (auto simp: call_fails_def host_call_goroutine_def transition_def ok_def)
next
  case False
  from fails_now [OF assms(1,2) this, of "EWrap ''handle host call'' e"] False assms(3) show ?thesis
    by (auto simp: call_fails_def host_call_goroutine_def)
qed

text \<open>
  C30. What becomes of a host call, at any point of any run of a pipeline. The goroutine of a call that
  decodes runs the host's method. If the serializer takes the answer, one message is sent, of type
  PIPELINE_HOST_RESPONSE and for this pipeline, with the answer as its data: when the transport takes
  it, the pipeline stays as it is, and when the transport fails, the pipeline fails with that error.
  If the serializer does not take the answer (as it is with a version or a credential), nothing is
  sent and the pipeline fails with the error of the serializer. An answer that CLIXML brings back
  is taken, and what is sent decodes to the host's answer under the identifier of the call.
\<close>

theorem host_call_answered:
  assumes "created p" and "prun E h tr (psystem_of p t) ls z"
    and "DecodeRemoteHostCall E (MsgData msg) = Ret call"
    and "HandleCall (NewSecureString E) (tHost tr) call u = (t1, Ret resp)"
  shows "(\<forall>bs t2 r. EncodeRemoteHostResponse E h resp = Ret bs \<longrightarrow>
      tSendMessage tr (pipeCtx (sysPipe z))
        \<lparr>Destination = DestinationServer, MType = MessageTypePipelineHostResponse,
         RunspaceID = pipeRunspace (sysPipe z), PipelineID = pipeID (sysPipe z), MsgData = bs\<rparr> t1 = (t2, r) \<longrightarrow>
      (r = Ret () \<longrightarrow> host_call_goroutine E h tr msg (sysPipe z, u) = ((sysPipe z, t2), Ret ())) \<and>
      (\<forall>e. r = Fail e \<longrightarrow> call_fails E h tr msg (sysPipe z) u t2 (EWrap ''send host response'' e))) \<and>
    (\<forall>e. EncodeRemoteHostResponse E h resp = Fail e \<longrightarrow>
      call_fails E h tr msg (sysPipe z) u t1 (EWrap ''encode host response'' e)) \<and>
    (\<forall>w. in_signed 64 (CallID call) \<longrightarrow> comes_back E (ReturnValue resp) w \<longrightarrow> height w \<le> 99 \<longrightarrow>
      (\<exists>bs. EncodeRemoteHostResponse E h resp = Ret bs \<and>
        (MaxInt < int (length bs) \<or> DecodeRemoteHostResponse E bs = Ret \<lparr>RespCallID = CallID call,
           ExceptionRaised = ExceptionRaised resp, ReturnValue = w\<rparr>)))"
proof (intro conjI allI impI)
  let ?msg = "\<lambda>bs. \<lparr>Destination = DestinationServer, MType = MessageTypePipelineHostResponse,
    RunspaceID = pipeRunspace (sysPipe z), PipelineID = pipeID (sysPipe z), MsgData = bs\<rparr>"
  fix bs t2 r
  assume bs: "EncodeRemoteHostResponse E h resp = Ret bs"
    and s: "tSendMessage tr (pipeCtx (sysPipe z)) (?msg bs) t1 = (t2, r)"
  have h: "handleHostCall E h tr (pipeCtx (sysPipe z)) msg (sysPipe z) u =
      (t2, wrap_err ''send host response'' r)"
    using assms(3,4) bs s by (simp add: handleHostCall_def answer_call_def NewPipelineHostResponse_def)
  show "host_call_goroutine E h tr msg (sysPipe z, u) = ((sysPipe z, t2), Ret ())" if "r = Ret ()"
    using h that by (simp add: host_call_goroutine_def ok_def)
  show "call_fails E h tr msg (sysPipe z) u t2 (EWrap ''send host response'' e)" if "r = Fail e" for e
    using h that by (intro goroutine_fails [OF assms(1,2)]) simp
next
  fix e
  assume "EncodeRemoteHostResponse E h resp = Fail e"
  then show "call_fails E h tr msg (sysPipe z) u t1 (EWrap ''encode host response'' e)"
    using assms(3,4) by (intro goroutine_fails [OF assms(1,2)]) (simp add: handleHostCall_def answer_call_def)
next
  fix w
  assume "in_signed 64 (CallID call)" and w: "comes_back E (ReturnValue resp) w" "height w \<le> 99"
  moreover have "RespCallID resp = CallID call"
    using assms(4) by (auto simp: HandleCall_def split: prod.splits outcome.splits)
  ultimately show "\<exists>bs. EncodeRemoteHostResponse E h resp = Ret bs \<and>
      (MaxInt < int (length bs) \<or> DecodeRemoteHostResponse E bs = Ret \<lparr>RespCallID = CallID call,
         ExceptionRaised = ExceptionRaised resp, ReturnValue = w\<rparr>)"
    using response_roundtrip [of resp E w h] by (cases resp) auto
qed

text \<open>
  A call of GetVersion ends the pipeline that it comes in for: whatever the host is, nothing is
  sent, and the pipeline fails with an error that is the serializer's.
\<close>

theorem version_call_fails_pipeline:
  assumes "created p" and "prun E h tr (psystem_of p t) ls z"
    and "DecodeRemoteHostCall E (MsgData msg) = Ret call" and "MethodID call = MethodIDGetVersion"
    and "\<not> terminal (pipeState (sysPipe z))"
  shows "\<exists>p' e. host_call_goroutine E h tr msg (sysPipe z, u) = ((p', u), Ret ()) \<and>
    pipeState p' = StateFailed \<and> Wait p' = Some (Some e) \<and> errors_is e ErrUnsupportedType"
proof -
  obtain r e where r: "HandleCall (NewSecureString E) (tHost tr) call u = (u, Ret r)"
    "EncodeRemoteHostResponse E h r = Fail e" "errors_is e ErrUnsupportedType"
    using getversion_unencodable [OF assms(4), of "NewSecureString E" "tHost tr" u E h] by blast
  let ?e = "EWrap ''handle host call'' (EWrap ''encode host response'' e)"
  have "handleHostCall E h tr (pipeCtx (sysPipe z)) msg (sysPipe z) u =
      (u, Fail (EWrap ''encode host response'' e))"
    using r assms(3) by (simp add: handleHostCall_def answer_call_def)
  moreover obtain p' where "transition StateFailed (Some ?e) (sysPipe z) = (p', Ret ())"
    "Wait p' = Some (Some ?e)" "pipeState p' = StateFailed"
    using fails_now [OF assms(1,2,5), of ?e] by auto
  ultimately show ?thesis
    using r(3) by (intro exI [of _ p'] exI [of _ ?e]) (simp add: host_call_goroutine_def)
qed

section \<open>Examples\<close>

text \<open>A transport that takes every message, and a pipeline that was adopted and has completed.\<close>

definition demo_transport :: "unit transport" where
  "demo_transport = \<lparr>tSendMessage = (\<lambda>ctx msg t. (t, Ret ())), tHost = None\<rparr>"

definition demo_pipeline :: pipeline where
  "demo_pipeline = NewWithID uuid_Nil uuid_Nil"

definition demo_output :: message where
  "demo_output = NewPipelineOutput uuid_Nil uuid_Nil [1]"

definition demo_state :: "string \<Rightarrow> message" where
  "demo_state n = NewPipelineState uuid_Nil uuid_Nil 0 (bytes_of_string (''<I32>'' @ n @ ''</I32>''))"

lemma demo_created [simp]: "created demo_pipeline"
  unfolding created_def demo_pipeline_def by blast

lemma demo_documents:
  "unmarshal no_env (bytes_of_string ''<I32>4</I32>'') = Ret [VInt32 4] \<and>
   unmarshal no_env (bytes_of_string ''<I32>1</I32>'') = Ret [VInt32 1]"
  by (rule conjI; code_simp)

lemma demo_start:
  "prun no_env fmempty demo_transport (psystem_of demo_pipeline ()) [] (psystem_of demo_pipeline ())"
  by (rule prun.start)

lemma demo_running [simp]: "pipeState demo_pipeline = StateRunning" "sysPipe (psystem_of p t) = p"
  "sysTransport (psystem_of p t) = t"
  by (simp_all add: demo_pipeline_def NewWithID_def psystem_of_def)

text \<open>A run that accepts a message, and one that completes the pipeline.\<close>

lemma demo_run:
  "prun no_env fmempty demo_transport (psystem_of demo_pipeline ()) [Accepted OutputStream demo_output]
    (psystem_of (demo_pipeline\<lparr>pipeStreams := (pipeStreams demo_pipeline)
       (OutputStream := Chan streamBuffer [demo_output] False)\<rparr>) ())"
proof -
  let ?p = "demo_pipeline\<lparr>pipeStreams := (pipeStreams demo_pipeline)
       (OutputStream := Chan streamBuffer [demo_output] False)\<rparr>"
  have "stream_of (MType demo_output) = Some OutputStream"
    by (simp add: demo_output_def NewPipelineOutput_def stream_of_def)
  moreover have "sendToChannel OutputStream demo_output demo_pipeline = (?p, Returned (Ret ()))"
    by (simp add: sendToChannel_def chan_offer_def demo_pipeline_def NewWithID_def streamBuffer_def)
  ultimately have "pstep no_env fmempty demo_transport (psystem_of demo_pipeline ())
      (Accepted OutputStream demo_output) ((psystem_of demo_pipeline ())\<lparr>sysPipe := ?p\<rparr>)"
    by (intro pstep.deliver) (simp_all add: psystem_of_def HandleMessage_stream)
  from prun.more [OF prun.start this] show ?thesis by (simp add: psystem_of_def)
qed

lemma demo_done:
  "\<exists>z ls. prun no_env fmempty demo_transport (psystem_of demo_pipeline ()) ls z \<and> pipeDone (sysPipe z)"
proof -
  have "\<not> terminal (pipeState (sysPipe (psystem_of demo_pipeline ())))"
    by (simp add: psystem_of_def demo_pipeline_def NewWithID_def)
  from fails_now [OF demo_created demo_start this, of "EIs IoEOF"]
  obtain p' where p: "Pipeline_Fail (EIs IoEOF) demo_pipeline = (p', Ret ())" "Wait p' \<noteq> None"
    by (auto simp: psystem_of_def Pipeline_Fail_def)
  have "pstep no_env fmempty demo_transport (psystem_of demo_pipeline ()) (Client (CFail (EIs IoEOF)))
      ((psystem_of demo_pipeline ())\<lparr>sysPipe := p', sysTransport := ()\<rparr>)"
    using p(1) by (intro pstep.client) (auto simp: psystem_of_def)
  from prun.more [OF prun.start this] p(2) show ?thesis
    by (auto simp: Wait_def split: if_splits)
qed

theorem pipeline_invariant_witness:
  "(\<forall>s. chan_closed (pipeStreams demo_pipeline s) = pipeDone demo_pipeline \<and>
      length (chan_queue (pipeStreams demo_pipeline s)) \<le> 100) \<and>
   pipeState demo_pipeline = StateRunning"
  using pipeline_invariant [OF demo_created demo_start]
  by simp

theorem streams_fifo_witness:
  "put_into OutputStream [Accepted OutputStream demo_output] = [demo_output] \<and>
   taken_from OutputStream [Accepted OutputStream demo_output] = []"
  using streams_fifo [OF demo_created demo_run, of OutputStream]
  by (simp add: psystem_of_def put_into_def)

theorem fail_ends_pipeline_witness:
  "\<exists>p'. Pipeline_Fail (EIs IoEOF) demo_pipeline = (p', Ret ()) \<and> Wait p' = Some (Some (EIs IoEOF))"
  using fail_ends_pipeline [OF demo_created demo_start, of "EIs IoEOF"] by auto

theorem report_ends_pipeline_witness:
  "\<exists>p'. HandleMessage no_env (demo_state ''4'') demo_pipeline = (p', Returned (Ret ())) \<and>
    Wait p' = Some None"
  using report_ends_pipeline [OF demo_created demo_start, of "demo_state ''4''" "VInt32 4" "[]" 4]
    demo_documents
  by (auto simp: demo_state_def NewPipelineState_def reported_state_def)

theorem ended_pipeline_reopens_witness:
  "\<exists>p q q'. Wait p \<noteq> None \<and>
    HandleMessage no_env demo_output p = (p, Returned (Panic PanicSendOnClosed)) \<and>
    HandleMessage no_env (demo_state ''1'') p = (q, Returned (Ret ())) \<and> pipeState q = StateRunning \<and>
    Pipeline_Fail (EIs IoEOF) q = (q', Ret ()) \<and> Wait q' = Some (Some (EIs IoEOF))"
proof -
  obtain z ls where z: "prun no_env fmempty demo_transport (psystem_of demo_pipeline ()) ls z"
    "pipeDone (sysPipe z)"
    using demo_done by blast
  have "stream_of (MType demo_output) \<noteq> None"
    by (simp add: demo_output_def NewPipelineOutput_def stream_of_def)
  moreover have "MType (demo_state ''1'') = MessageTypePipelineState"
    "unmarshal no_env (MsgData (demo_state ''1'')) = Ret [VInt32 1]"
    using demo_documents by (simp_all add: demo_state_def NewPipelineState_def)
  moreover have "Wait (sysPipe z) \<noteq> None" using z(2) by (simp add: Wait_def)
  ultimately show ?thesis
    using ended_pipeline_reopens [OF demo_created z, of demo_output "EIs IoEOF"]
      ended_pipeline_reopens [OF demo_created z, of "demo_state ''1''" "EIs IoEOF"]
    by blast
qed

theorem invoke_once_witness:
  "Invoke no_env fmempty demo_transport None (SkipInvokeSend (NewBuilder uuid_Nil uuid_Nil), ()) =
     (((SkipInvokeSend (NewBuilder uuid_Nil uuid_Nil))\<lparr>pipeState := StateRunning\<rparr>, ()), Ret ()) \<and>
   Invoke no_env fmempty demo_transport None
     ((SkipInvokeSend (NewBuilder uuid_Nil uuid_Nil))\<lparr>pipeState := StateRunning\<rparr>, ()) =
     (((SkipInvokeSend (NewBuilder uuid_Nil uuid_Nil))\<lparr>pipeState := StateRunning\<rparr>, ()),
      Fail (EIs ErrPipelineInvalidState))"
proof -
  let ?p = "SkipInvokeSend (NewBuilder uuid_Nil uuid_Nil)"
  let ?q = "?p\<lparr>pipeState := StateRunning\<rparr>"
  have i: "Invoke no_env fmempty demo_transport None (?p, ()) = ((?q, ()), Ret ())"
    by (simp add: Invoke_def SkipInvokeSend_def NewBuilder_def ok_def)
  show ?thesis
    using invoke_once [of no_env fmempty demo_transport None "psystem_of ?p ()", OF _ prun.start, of ?q "()" "Ret ()" None "()"] i
    by simp
qed

text \<open>The document of a call of one of the host's methods without arguments.\<close>

definition demo_call :: "string \<Rightarrow> message" where
  "demo_call m = NewPipelineHostCall uuid_Nil uuid_Nil (bytes_of_string
     (''<Obj RefId=\"0\"><Props><I64 N=\"ci\">7</I64><I32 N=\"mi\">'' @ m @ ''</I32></Props></Obj>''))"

lemma demo_calls:
  "DecodeRemoteHostCall no_env (MsgData (demo_call ''1'')) =
     Ret \<lparr>CallID = 7, MethodID = 1, MethodParameters = []\<rparr> \<and>
   DecodeRemoteHostCall no_env (MsgData (demo_call ''2'')) =
     Ret \<lparr>CallID = 7, MethodID = 2, MethodParameters = []\<rparr>"
  by (rule conjI; code_simp)

theorem host_call_answered_witness:
  "\<exists>bs. (MaxInt < int (length bs) \<or>
      DecodeRemoteHostResponse no_env bs = Ret \<lparr>RespCallID = 7,
        ExceptionRaised = False, ReturnValue = VString []\<rparr>) \<and>
    host_call_goroutine no_env fmempty demo_transport (demo_call ''1'') (demo_pipeline, ()) =
      ((demo_pipeline, ()), Ret ())"
proof -
  let ?call = "\<lparr>CallID = 7, MethodID = 1, MethodParameters = []\<rparr>"
  have "HandleCall (NewSecureString no_env) (tHost demo_transport) ?call () =
      ((), Ret \<lparr>RespCallID = 7, ExceptionRaised = False, ReturnValue = VString []\<rparr>)"
    by (simp add: HandleCall_def dispatch_def handleGetName_def method_id_defs demo_transport_def)
  note a = host_call_answered [OF demo_created demo_start conjunct1 [OF demo_calls] this]
  have "in_signed 64 7" by (simp add: in_signed_def)
  moreover have "comes_back no_env (VString []) (VString [])" by (rule back_string) simp
  ultimately obtain bs where bs: "EncodeRemoteHostResponse no_env fmempty
      \<lparr>RespCallID = 7, ExceptionRaised = False, ReturnValue = VString []\<rparr> = Ret bs"
    "MaxInt < int (length bs) \<or> DecodeRemoteHostResponse no_env bs =
       Ret \<lparr>RespCallID = 7, ExceptionRaised = False, ReturnValue = VString []\<rparr>"
    using a [THEN conjunct2, THEN conjunct2, rule_format, of "VString []"] by auto
  from a [THEN conjunct1, rule_format, OF bs(1), of "()" "Ret ()"] bs(2) show ?thesis
    by (auto simp: demo_transport_def)
qed

theorem version_call_fails_pipeline_witness:
  "\<exists>p' e. host_call_goroutine no_env fmempty demo_transport (demo_call ''2'') (demo_pipeline, ()) =
      ((p', ()), Ret ()) \<and> pipeState p' = StateFailed \<and> Wait p' = Some (Some e) \<and>
      errors_is e ErrUnsupportedType"
  using version_call_fails_pipeline [OF demo_created demo_start conjunct2 [OF demo_calls], of "()"]
  by (simp add: MethodIDGetVersion_def)

end
