(* ===== verification/Pool_Correct.thy ===== *)
theory Pool_Correct
  imports Wire Pipeline_Correct
begin

text \<open>
  What the operations of a pool keep: what sending and receiving leave alone, the invariant of the
  pool's fields, the end of a pool and of its pipelines, the pool as the transport of its pipelines,
  and each operation of theories \<open>Runspace\<close>, \<open>Handshake\<close> and \<open>Dispatch\<close> in turn.
\<close>

section \<open>What sending and receiving leave alone\<close>

definition frame :: "'w pool \<Rightarrow> 'w pool \<Rightarrow> bool" where
  "frame p q \<longleftrightarrow>
     q = p\<lparr>world := world q, poolFragmenter := poolFragmenter q, poolAssembler := poolAssembler q\<rparr>"

lemma frame_refl [simp]: "frame p p"
  by (simp add: frame_def)

lemma frame_trans: "frame p q \<Longrightarrow> frame q r \<Longrightarrow> frame p r"
  unfolding frame_def by (cases p; cases q; cases r) simp

lemma frame_updates [simp]:
  "frame p (p\<lparr>world := w\<rparr>)" "frame p (p\<lparr>poolFragmenter := fr\<rparr>)" "frame p (p\<lparr>poolAssembler := a\<rparr>)"
  "frame p (p\<lparr>world := w, poolAssembler := a\<rparr>)"
  by (simp_all add: frame_def)

lemma frame_fields:
  assumes "frame p q"
  shows "poolState q = poolState p" "pipelines q = pipelines p" "poolDone q = poolDone p"
    "cleanedUp q = cleanedUp p" "metadataCh q = metadataCh p" "hostCallLimiter q = hostCallLimiter p"
    "stateCh q = stateCh p" "poolCtx q = poolCtx p" "poolTransport q = poolTransport p"
  using assms unfolding frame_def by (cases p; cases q; simp)+

lemma prepareMessage_frame: "prepareMessage msg p = (q, r) \<Longrightarrow> frame p q"
  by (auto simp: prepareMessage_def Message_Encode_eq split: prod.splits)

lemma write_fragment_frame: "write_fragment msg d p = (q, r) \<Longrightarrow> frame p q"
  by (auto simp: write_fragment_def split: prod.splits option.splits if_splits)

lemma send_fragments_frame: "send_fragments ctx msg fs p = (q, r) \<Longrightarrow> frame p q"
proof (induction fs arbitrary: p)
  case (Cons f fs)
  show ?case
  proof (cases "wrap_err ''encode fragment'' (Fragment_Encode f)")
    case (Ret d)
    show ?thesis
    proof (cases ctx)
      case None
      obtain p1 x where w: "write_fragment msg d p = (p1, x)" by fastforce
      from write_fragment_frame [OF this] Cons None Ret w show ?thesis
        by (cases x) (auto intro: frame_trans)
    qed (use Cons.prems Ret in auto)
  qed (use Cons.prems in auto)
qed (simp add: ok_def)

lemma sendMessage_frame: "sendMessage ctx msg p = (q, r) \<Longrightarrow> frame p q"
proof -
  assume s: "sendMessage ctx msg p = (q, r)"
  obtain p1 x where p: "prepareMessage msg p = (p1, x)" by fastforce
  from prepareMessage_frame [OF p] p s show ?thesis
    by (cases x) (auto simp: sendMessage_def intro: frame_trans dest: send_fragments_frame)
qed

lemma read_full_frame: "read_full what n p = Some (q, r) \<Longrightarrow> frame p q"
  by (auto simp: read_full_def split: option.splits)

lemma read_fragment_frame: "read_fragment p = Some (q, r) \<Longrightarrow> frame p q"
  unfolding read_fragment_def Let_def
  by (auto simp: and_run_def split: option.splits prod.splits outcome.splits if_splits
      dest!: read_full_frame intro: frame_trans)

lemma receiveMessage_frame:
  assumes "receiveMessage ctx p = Some y"
  shows "frame p (fst y)"
proof (rule receiveMessage.raw_induct [where P = "\<lambda>ctx p y. frame p (fst y)", OF _ assms], goal_cases)
  case (1 rec ctx p y)
  show ?case
  proof (cases "ctx = None \<and> (\<exists>p1 f. read_fragment p = Some (p1, Ret f))")
    case False
    with 1(2) show ?thesis
      by (auto split: option.splits prod.splits outcome.splits dest!: read_fragment_frame)
  next
    case True
    then obtain p1 f where f: "ctx = None" "read_fragment p = Some (p1, Ret f)" by blast
    obtain a x where a: "Assembler_Add (poolAssembler p1) f = (a, x)" by fastforce
    from read_fragment_frame [OF f(2)] have p1: "frame p (p1\<lparr>poolAssembler := a\<rparr>)"
      by (rule frame_trans) simp
    from 1(2) f a p1 show ?thesis
      by (auto split: outcome.splits option.splits dest: 1(1) intro: frame_trans)
  qed
qed

lemma pool_handleHostCall_frame: "pool_handleHostCall E h ctx msg p = (q, r) \<Longrightarrow> frame p q"
proof -
  assume s: "pool_handleHostCall E h ctx msg p = (q, r)"
  obtain w x where a: "answer_call E h (poolHost p) (MsgData msg) (world p) = (w, x)" by fastforce
  show ?thesis
  proof (cases x)
    case (Ret d)
    obtain p1 y where m: "sendMessage ctx (NewRunspaceHostResponse (poolID p) d) (p\<lparr>world := w\<rparr>) = (p1, y)"
      by fastforce
    from sendMessage_frame [OF m] s a Ret m show ?thesis
      by (auto simp: pool_handleHostCall_def wrap_st_def intro: frame_trans [OF frame_updates(1)])
  qed (use s a in \<open>auto simp: pool_handleHostCall_def\<close>)
qed

lemma receiveMessageWithHostCallbacks_frame:
  assumes "receiveMessageWithHostCallbacks E h ctx p = Some y"
  shows "frame p (fst y)"
proof (rule receiveMessageWithHostCallbacks.raw_induct
    [where P = "\<lambda>E h ctx p y. frame p (fst y)", OF _ assms], goal_cases)
  case (1 rec E h ctx p y)
  show ?case
  proof (cases "\<exists>p1 msg. receiveMessage ctx p = Some (p1, Ret msg) \<and> MType msg = MessageTypeRunspaceHostCall")
    case False
    with 1(2) show ?thesis
      by (auto split: option.splits prod.splits outcome.splits if_splits dest!: receiveMessage_frame)
  next
    case True
    then obtain p1 msg where m: "receiveMessage ctx p = Some (p1, Ret msg)"
      "MType msg = MessageTypeRunspaceHostCall" by blast
    obtain p2 x where c: "pool_handleHostCall E h ctx msg p1 = (p2, x)" by fastforce
    from receiveMessage_frame [OF m(1)] pool_handleHostCall_frame [OF c] have p2: "frame p p2"
      by (auto intro: frame_trans)
    from 1(2) m c p2 show ?thesis
      by (auto split: outcome.splits dest: 1(1) intro: frame_trans)
  qed
qed

section \<open>What every operation keeps\<close>

text \<open>
  A pool is done exactly when it was cleaned up, which happens once; the pipelines in its map
  satisfy their invariant; and nothing is ever put into the channel for command metadata. No
  operation but the two that answer host calls touches the limiter.
\<close>

definition all_ok :: "(uuid, pipeline) fmap \<Rightarrow> bool" where
  "all_ok ps \<longleftrightarrow> (\<forall>i pl. fmlookup ps i = Some pl \<longrightarrow> pipe_ok pl)"

definition pool_ok :: "'w pool \<Rightarrow> bool" where
  "pool_ok p \<longleftrightarrow> poolDone p = cleanedUp p \<and> chan_queue (metadataCh p) = [] \<and> all_ok (pipelines p)"

definition keeps_ok :: "'w pool \<Rightarrow> 'w pool \<Rightarrow> bool" where
  "keeps_ok p q \<longleftrightarrow>
     hostCallLimiter q = hostCallLimiter p \<and>
     (pool_ok p \<longrightarrow> pool_ok q \<and> (poolDone p \<longrightarrow> poolDone q))"

lemma keeps_ok_refl [simp]: "keeps_ok p p"
  by (simp add: keeps_ok_def)

lemma keeps_ok_trans: "keeps_ok p q \<Longrightarrow> keeps_ok q r \<Longrightarrow> keeps_ok p r"
  by (simp add: keeps_ok_def)

lemma keeps_frame: "frame p q \<Longrightarrow> keeps_ok p q"
  by (simp add: keeps_ok_def pool_ok_def frame_fields)

text \<open>Fields that the invariant does not mention.\<close>

lemma keeps_fields [simp]:
  "keeps_ok p (p\<lparr>poolState := st\<rparr>)" "keeps_ok p (p\<lparr>stateCh := c\<rparr>)" "keeps_ok p (p\<lparr>poolHost := hst\<rparr>)"
  "keeps_ok p (p\<lparr>minRunspaces := n\<rparr>)" "keeps_ok p (p\<lparr>maxRunspaces := n\<rparr>)"
  "keeps_ok p (p\<lparr>availableRunspaces := n\<rparr>)" "keeps_ok p (p\<lparr>dispatchLoopStarted := b\<rparr>)"
  "keeps_ok p (p\<lparr>poolCtx := ctx\<rparr>)" "keeps_ok p (p\<lparr>world := w\<rparr>)"
  "keeps_ok p (p\<lparr>poolAssembler := a\<rparr>)" "keeps_ok p (p\<lparr>poolFragmenter := fr\<rparr>)"
  "keeps_ok p (p\<lparr>poolTransport := tr\<rparr>)" "keeps_ok p (p\<lparr>securityCallback := cb\<rparr>)"
  "keeps_ok p (p\<lparr>serverProtocolVersion := a1, serverPSVersion := a2\<rparr>)"
  "keeps_ok p (p\<lparr>receivedAvailabilityMsg := b, availableRunspaces := n\<rparr>)"
  "keeps_ok p (p\<lparr>negotiatedMinRunspaces := n, negotiatedMaxRunspaces := k\<rparr>)"
  by (simp_all add: keeps_ok_def pool_ok_def)

lemma keeps_setState [simp]: "keeps_ok p (setState st p)"
  by (auto simp: setState_def Let_def keeps_ok_def pool_ok_def split: outcome.splits option.splits)

lemma keeps_event [simp]: "keeps_ok p (emitSecurityEventLocked ev d p)"
  by (auto simp: emitSecurityEventLocked_def split: option.splits)

lemma keeps_event_state [simp]: "keeps_ok p (emitSecurityEventLocked ev d (p\<lparr>poolState := st\<rparr>))"
  by (rule keeps_ok_trans [OF keeps_fields(1) keeps_event])

lemma keeps_simple [simp]:
  "keeps_ok p (setBroken p)" "keeps_ok p (ResumeOpened E p)" "keeps_ok p (InitializeAvailabilityIfNeeded p)"
  "keeps_ok p (StartDispatchLoop p)" "keeps_ok p (close_cancels p)"
  by (auto simp: setBroken_def ResumeOpened_def Let_def InitializeAvailabilityIfNeeded_def
      StartDispatchLoop_def close_cancels_def)

lemma keeps_pipelines: "(all_ok (pipelines p) \<Longrightarrow> all_ok ps) \<Longrightarrow> keeps_ok p (p\<lparr>pipelines := ps\<rparr>)"
  by (simp add: keeps_ok_def pool_ok_def)

lemma all_ok_upd: "all_ok ps \<Longrightarrow> pipe_ok pl \<Longrightarrow> all_ok (fmupd i pl ps)"
  by (simp add: all_ok_def)

lemma all_ok_drop: "all_ok ps \<Longrightarrow> all_ok (fmdrop i ps)"
  by (simp add: all_ok_def)

lemma keeps_register: "pipe_ok pl \<Longrightarrow> keeps_ok p (register i pl p)"
  by (simp add: register_def keeps_pipelines all_ok_upd)

lemma keeps_update:
  assumes "\<And>old. fmlookup (pipelines p) i = Some old \<Longrightarrow> pipe_ok old \<Longrightarrow> pipe_ok pl"
  shows "keeps_ok p (update_pipeline i pl p)"
proof -
  have "all_ok (fmupd i pl (pipelines p))" if "all_ok (pipelines p)" "fmlookup (pipelines p) i = Some old" for old
    using that assms by (intro all_ok_upd) (auto simp: all_ok_def)
  then show ?thesis
    by (auto simp: update_pipeline_def register_def fmlookup_dom_iff intro: keeps_pipelines)
qed

lemma keeps_drop: "keeps_ok p (p\<lparr>pipelines := fmdrop i (pipelines p)\<rparr>)"
  by (simp add: keeps_pipelines all_ok_drop)

section \<open>The end of a pool\<close>

lemma Fail_ok:
  assumes "pipe_ok p"
  shows "\<exists>q. Pipeline_Fail e p = ok q \<and> pipe_ok q \<and> pipeDone q \<and>
    (\<not> terminal (pipeState p) \<longrightarrow> pipeErr q = Some e)"
proof (cases rule: transition_cases [OF assms, of StateFailed "Some e"])
  case 1
  then show ?thesis using assms by (auto simp: Pipeline_Fail_def pipe_ok_def)
next
  case (2 p')
  then show ?thesis using assms by (auto simp: Pipeline_Fail_def pipe_ok_def)
next
  case (3 p')
  then show ?thesis
    using assms by (auto simp: Pipeline_Fail_def pipe_ok_def Cancel_def intro: streams_ok_closed)
qed

text \<open>What the end of the pool makes of one pipeline.\<close>

definition ended :: "gerr option \<Rightarrow> pipeline \<Rightarrow> pipeline" where
  "ended err pl =
     (case err of
        None \<Rightarrow> Cancel pl
      | Some e \<Rightarrow> fst (Pipeline_Fail (EWrap ''runspace pool broken'' e) pl))"

lemma ended_ok: "pipe_ok pl \<Longrightarrow> pipe_ok (ended err pl)"
  using Fail_ok [of pl] by (cases err) (auto simp: ended_def pipe_ok_config ok_def, metis fst_conv)

lemma end_one:
  assumes "pipe_ok pl"
  shows "(case err of
        None \<Rightarrow> ok (fmupd i (Cancel pl) ps)
      | Some e \<Rightarrow>
          (case Pipeline_Fail (EWrap ''runspace pool broken'' e) pl of
             (pl1, r) \<Rightarrow> (fmupd i pl1 ps, r))) = ok (fmupd i (ended err pl) ps)"
  using Fail_ok [OF assms] by (cases err) (auto simp: ended_def ok_def split: prod.splits, metis Pair_inject)

lemma end_pipelines_eq:
  assumes "all_ok ps" and "distinct is" and "set is \<subseteq> fset (fmdom ps)"
  shows "\<exists>ps'. end_pipelines err is ps = ok ps' \<and> fmdom ps' = fmdom ps \<and> all_ok ps' \<and>
    (\<forall>i. fmlookup ps' i =
       (if i \<in> set is then map_option (ended err) (fmlookup ps i) else fmlookup ps i))"
  using assms
proof (induction "is" arbitrary: ps)
  case (Cons i "is")
  then obtain pl where pl: "fmlookup ps i = Some pl" by (auto simp: fmlookup_dom_iff)
  with Cons.prems(1) have "pipe_ok pl" by (simp add: all_ok_def)
  note one = end_one [OF this] and okpl = ended_ok [OF this]
  have "all_ok (fmupd i (ended err pl) ps)" using Cons.prems(1) okpl by (rule all_ok_upd)
  from Cons.IH [OF this] Cons.prems(2,3) obtain ps' where
    "end_pipelines err is (fmupd i (ended err pl) ps) = ok ps'" "all_ok ps'"
    "fmdom ps' = finsert i (fmdom ps)"
    "\<forall>j. fmlookup ps' j = (if j \<in> set is then map_option (ended err) (fmlookup (fmupd i (ended err pl) ps) j)
       else fmlookup (fmupd i (ended err pl) ps) j)"
    by auto
  moreover have "end_pipelines err (i # is) ps = end_pipelines err is (fmupd i (ended err pl) ps)"
    using pl by (simp add: one)
  moreover have "i |\<in>| fmdom ps" using pl by (auto simp: fmlookup_dom_iff)
  ultimately show ?case using pl Cons.prems(2)
    by (intro exI [of _ ps']) (auto simp: finsert_absorb)
qed (simp add: ok_def)

definition end_all :: "gerr option \<Rightarrow> (uuid, pipeline) fmap \<Rightarrow> (uuid, pipeline) fmap" where
  "end_all err ps = fmmap (ended err) ps"

lemma end_pipelines_all:
  assumes "all_ok ps"
  shows "end_pipelines err (sorted_list_of_fset (fmdom ps)) ps = ok (end_all err ps)"
proof -
  have "distinct (sorted_list_of_fset (fmdom ps))" by (simp add: sorted_list_of_fset.rep_eq)
  from end_pipelines_eq [OF assms this, of err]
  obtain ps' where "end_pipelines err (sorted_list_of_fset (fmdom ps)) ps = ok ps'"
    "\<forall>i. fmlookup ps' i = (if i |\<in>| fmdom ps then map_option (ended err) (fmlookup ps i) else fmlookup ps i)"
    by auto
  moreover from this(2) have "ps' = end_all err ps"
    by (intro fmap_ext) (auto simp: end_all_def fmlookup_dom_iff)
  ultimately show ?thesis by simp
qed

lemma all_ok_end_all: "all_ok ps \<Longrightarrow> all_ok (end_all err ps)"
  by (auto simp: all_ok_def end_all_def ended_ok)

lemma setState_fields [simp]:
  "poolState (setState st p) = st" "pipelines (setState st p) = pipelines p"
  "poolDone (setState st p) = poolDone p" "cleanedUp (setState st p) = cleanedUp p"
  "poolCtx (setState st p) = poolCtx p" "metadataCh (setState st p) = metadataCh p"
  by (auto simp: setState_def Let_def split: outcome.splits option.splits)

lemma event_fields [simp]:
  "poolState (emitSecurityEventLocked ev d p) = poolState p"
  "pipelines (emitSecurityEventLocked ev d p) = pipelines p"
  "poolDone (emitSecurityEventLocked ev d p) = poolDone p"
  "cleanedUp (emitSecurityEventLocked ev d p) = cleanedUp p"
  "metadataCh (emitSecurityEventLocked ev d p) = metadataCh p"
  "poolCtx (emitSecurityEventLocked ev d p) = poolCtx p"
  by (auto simp: emitSecurityEventLocked_def split: option.splits)

lemma ended_event_fields [simp]:
  "poolState (ended_event st err p) = poolState p" "pipelines (ended_event st err p) = pipelines p"
  "poolDone (ended_event st err p) = poolDone p" "cleanedUp (ended_event st err p) = cleanedUp p"
  "metadataCh (ended_event st err p) = metadataCh p"
  by (auto simp: ended_event_def)

lemma keeps_ended_event [simp]: "keeps_ok p (ended_event st err p)"
  by (simp add: ended_event_def)

lemma cleanup_eq:
  assumes "pool_ok p"
  shows "\<exists>q. cleanup st err p = ok q \<and> pool_ok q \<and> poolDone q \<and> hostCallLimiter q = hostCallLimiter p \<and>
    poolCtx q = poolCtx p \<and>
    (if poolDone p then q = p else poolState q = st \<and> pipelines q = end_all err (pipelines p))"
proof (cases "cleanedUp p")
  case True
  with assms show ?thesis by (simp add: cleanup_def pool_ok_def)
next
  case False
  let ?p1 = "p\<lparr>cleanedUp := True, cleanupError := (if err = None then cleanupError p else err)\<rparr>"
  let ?p2 = "ended_event st err (setState st ?p1)"
  have "hostCallLimiter ?p2 = hostCallLimiter ?p1"
    using keeps_setState [of ?p1 st] keeps_ended_event [of "setState st ?p1" st err]
    by (simp add: keeps_ok_def)
  moreover have "poolCtx ?p2 = poolCtx p" by (auto simp: ended_event_def)
  ultimately show ?thesis
    using assms False end_pipelines_all [of "pipelines p" err] all_ok_end_all [of "pipelines p" err]
    by (auto simp: cleanup_def Let_def pool_ok_def ok_def [symmetric] simp del: fun_upd_apply)
      (simp_all add: ok_def)
qed

section \<open>A pool as the transport of its pipelines\<close>

text \<open>
  The interface of a transport whose sending and whose host only move its state along a relation:
  then so does everything that a pipeline does with it.
\<close>

locale confined_transport = confined_host "tHost tr" R
  for tr :: "'t transport" and R :: "'t \<Rightarrow> 't \<Rightarrow> bool" +
  assumes sends: "R t (fst (tSendMessage tr ctx m t))"
    and steps: "R t u \<Longrightarrow> R u v \<Longrightarrow> R t v"
begin

lemma send_confined: "tSendMessage tr ctx m t = (t', r) \<Longrightarrow> R t t'"
  using sends [of t ctx m] by simp

lemma answer_confined: "answer_call E h (tHost tr) d t = (t', r) \<Longrightarrow> R t t'"
  using HandleCall_confined [of t "NewSecureString E"]
  by (auto simp: answer_call_def stays split: outcome.splits prod.splits) (metis fst_conv)+

lemma handleHostCall_confined: "handleHostCall E h tr ctx msg p t = (t', r) \<Longrightarrow> R t t'"
  by (auto simp: handleHostCall_def split: outcome.splits prod.splits
      dest!: answer_confined send_confined intro: steps)

lemma goroutine_confined: "host_call_goroutine E h tr msg (p, t) = ((p', t'), r) \<Longrightarrow> R t t'"
  by (auto simp: host_call_goroutine_def ok_def split: outcome.splits prod.splits
      dest!: handleHostCall_confined)

lemma invoke_failed_confined: "invoke_failed what e p t = ((p', t'), r) \<Longrightarrow> t' = t"
  by (auto simp: invoke_failed_def split: outcome.splits prod.splits)

lemma Invoke_confined: "Invoke E h tr ctx (p, t) = ((p', t'), r) \<Longrightarrow> R t t'"
  by (auto simp: Invoke_def Let_def ok_def stays split: if_splits outcome.splits prod.splits
      dest!: invoke_failed_confined send_confined)

lemma client_confined: "client E h tr c (p, t) = ((p', t'), r) \<Longrightarrow> R t t'"
  by (cases c) (auto simp: ok_def stays Stop_def SendInput_def CloseInput_def send_from_def Let_def
      split: if_splits outcome.splits prod.splits dest!: send_confined Invoke_confined)

end

lemma lift_st_frame [simp]: "frame p (fst (lift_st f p))"
  by (simp add: lift_st_def split: prod.split)

lemma lift_sink_frame [simp]: "frame p (lift_sink f p)"
  by (simp add: lift_sink_def)

interpretation pool_client: confined_transport "pool_transport p" frame for p
proof
  fix s t u v :: "'a pool" and ctx m
  show "frame t (fst (tSendMessage (pool_transport p) ctx m t))"
    by (cases "sendMessage ctx m t") (auto simp: pool_transport_def SendMessage_def dest: sendMessage_frame)
  show "frame t u \<Longrightarrow> frame u v \<Longrightarrow> frame t v" by (rule frame_trans)
qed (auto simp: the_ui_def pool_transport_def lift_host_def lift_ui_def split: option.splits)

section \<open>What the operations of the pool keep\<close>

text \<open>
  A relation on pools that sending and receiving keep, and that most fields do not disturb: then the
  operations that set only those fields keep it.
\<close>

locale frame_relation =
  fixes R :: "'w pool \<Rightarrow> 'w pool \<Rightarrow> bool"
  assumes R_trans: "R p q \<Longrightarrow> R q r \<Longrightarrow> R p r"
    and R_frame: "frame p q \<Longrightarrow> R p q"
    and R_fields [simp]:
      "R p (p\<lparr>stateCh := c\<rparr>)" "R p (p\<lparr>poolHost := hst\<rparr>)"
      "R p (p\<lparr>minRunspaces := n\<rparr>)" "R p (p\<lparr>maxRunspaces := n\<rparr>)" "R p (p\<lparr>availableRunspaces := n\<rparr>)"
      "R p (p\<lparr>dispatchLoopStarted := b\<rparr>)"
      "R p (p\<lparr>serverProtocolVersion := a1, serverPSVersion := a2\<rparr>)"
      "R p (p\<lparr>negotiatedMinRunspaces := n, negotiatedMaxRunspaces := k\<rparr>)"
begin

lemma R_refl: "R p p"
  by (rule R_frame) simp

lemma world_R [simp]: "R p (p\<lparr>world := w\<rparr>)" "R p (p\<lparr>poolAssembler := a\<rparr>)"
  by (simp_all add: R_frame)

lemma send_R: "sendMessage ctx m p = (q, r) \<Longrightarrow> R p q"
  by (rule R_frame) (rule sendMessage_frame)

lemma before_open_R:
  assumes "before_open f p = (q, r)" and "\<And>q r. f p = (q, r) \<Longrightarrow> R p q"
  shows "R p q"
  using assms by (auto simp: before_open_def R_refl split: if_splits)

lemma setters_R:
  "SetHost hst p = (q, r) \<Longrightarrow> R p q" "SetMinRunspaces n p = (q, r) \<Longrightarrow> R p q"
  "SetMaxRunspaces n p = (q, r) \<Longrightarrow> R p q"
  by (auto simp: SetHost_def SetMinRunspaces_def SetMaxRunspaces_def before_open_def ok_def R_refl
      split: if_splits)

lemma receive_R:
  "receiveMessageWithHostCallbacks E h ctx p = Some (q, r) \<Longrightarrow> R p q"
  using receiveMessageWithHostCallbacks_frame [of E h ctx p "(q, r)"] by (auto intro: R_frame)

lemma and_run_R:
  assumes "and_run y f = Some (q, r)" and "\<And>p1 x. y = Some (p1, x) \<Longrightarrow> R p p1"
    and "\<And>p1 x. y = Some (p1, Ret x) \<Longrightarrow> f x p1 = Some (q, r) \<Longrightarrow> R p1 q"
  shows "R p q"
  using assms by (auto simp: and_run_def split: option.splits prod.splits outcome.splits
      intro: R_trans)

lemma bind_st_R:
  assumes "bind_st y f = (q, r)" and "\<And>p1 x. y = (p1, x) \<Longrightarrow> R p p1"
    and "\<And>p1 x. y = (p1, Ret x) \<Longrightarrow> f x p1 = (q, r) \<Longrightarrow> R p1 q"
  shows "R p q"
  using assms by (cases "(y, f)" rule: bind_st.cases) (auto intro: R_trans)

lemma then_do_R:
  assumes "then_do y f = (q, r)" and "\<And>p1 x. y = (p1, x) \<Longrightarrow> R p p1"
    and "\<And>p1 x. y = (p1, Ret x) \<Longrightarrow> f p1 = (q, r) \<Longrightarrow> R p1 q"
  shows "R p q"
  using assms by (cases "(y, f)" rule: then_do.cases) (auto intro: R_trans)

lemma wrap_st_R:
  "wrap_st what y = (q, r) \<Longrightarrow> (\<And>q r. y = (q, r) \<Longrightarrow> R p q) \<Longrightarrow> R p q"
  by (cases y) (auto simp: wrap_st_def)

lemma sends_R:
  "sendSessionCapability ctx p = (q, r) \<Longrightarrow> R p q"
  "sendInitRunspacePool ctx p = (q, r) \<Longrightarrow> R p q"
  "sendConnectRunspacePool ctx p = (q, r) \<Longrightarrow> R p q"
  by (auto simp: sendSessionCapability_def sendInitRunspacePool_def sendConnectRunspacePool_def
      intro: send_R)

lemma capability_R:
  assumes "receiveSessionCapability E h ctx p = Some (q, r)"
  shows "R p q"
proof -
  from assms obtain p1 x where m: "receiveMessageWithHostCallbacks E h ctx p = Some (p1, x)"
    by (cases "receiveMessageWithHostCallbacks E h ctx p") (auto simp: receiveSessionCapability_def)
  show ?thesis
  proof (cases x)
    case (Ret msg)
    have "R p1 q"
      using assms m Ret
      by (cases "wrap_err ''parse capability data'' (parseCapabilityData E (MsgData msg))")
        (auto simp: receiveSessionCapability_def ok_def R_refl split: if_splits)
    then show ?thesis by (rule R_trans [OF receive_R [OF m]])
  qed (use assms receive_R [OF m] m in \<open>auto simp: receiveSessionCapability_def\<close>)
qed

lemma prepareMessage_R: "prepareMessage m p = (q, r) \<Longrightarrow> R p q"
  by (rule R_frame) (rule prepareMessage_frame)

lemma prepared_R: "prepared what m1 m2 p = (q, r) \<Longrightarrow> R p q"
  unfolding prepared_def
  by (elim bind_st_R wrap_st_R) (auto simp: R_refl intro: prepareMessage_R elim: bind_st_R wrap_st_R)

lemma requests_R:
  "SendGetAvailableRunspaces ctx p = (q, r) \<Longrightarrow> R p q"
  "GetCommandMetadata E h ctx names p = (q, r) \<Longrightarrow> R p q"
  "GetHandshakeFragments p = (q, x) \<Longrightarrow> R p q"
  "GetConnectHandshakeFragments p = (q, x) \<Longrightarrow> R p q"
  "ProcessConnectResponse d p = (q, r) \<Longrightarrow> R p q"
  by (auto simp: SendGetAvailableRunspaces_def GetCommandMetadata_def Let_def GetHandshakeFragments_def
      GetConnectHandshakeFragments_def ProcessConnectResponse_def ok_def R_refl
      split: if_splits prod.splits
      intro: send_R prepared_R elim!: bind_st_R wrap_st_R)

end

text \<open>If it is not disturbed by a change of state either, then opening and closing keep it too.\<close>

locale pool_relation = frame_relation +
  assumes R_state [simp]: "R p (p\<lparr>poolState := st\<rparr>)"
begin

lemma setState_R [simp]: "R p (setState st p)"
  using R_trans [OF R_state R_fields(1)]
  by (auto simp: setState_def Let_def split: outcome.splits option.splits)

lemma simple_R [simp]:
  "R p (setBroken p)" "R p (InitializeAvailabilityIfNeeded p)" "R p (StartDispatchLoop p)"
  by (auto simp: setBroken_def InitializeAvailabilityIfNeeded_def StartDispatchLoop_def R_refl)

lemma accept_opened_R: "accept_opened E d p = (q, r) \<Longrightarrow> R p q"
  by (cases "wrap_err ''parse runspace pool state'' (parseRunspacePoolState E d)")
    (auto simp: accept_opened_def ok_def R_refl split: if_splits intro: R_trans [OF R_fields(8) setState_R])

lemma waitForOpened_R:
  assumes "waitForOpened E h ctx p = Some y"
  shows "R p (fst y)"
proof (rule waitForOpened.raw_induct [where P = "\<lambda>E h ctx p y. R p (fst y)", OF _ assms], goal_cases)
  case (1 rec E h ctx p y)
  from 1(2) obtain p1 x where m: "receiveMessageWithHostCallbacks E h ctx p = Some (p1, x)"
    by (auto split: option.splits)
  have more: "R p q" if "R p1 q" for q
    by (rule R_trans [OF receive_R [OF m] that])
  show ?case
  proof (cases x)
    case (Ret msg)
    with 1(2) m show ?thesis
      by (auto simp: R_refl split: if_splits intro!: more dest: 1(1) accept_opened_R [of E _ p1 "fst y" "snd y"])
        (metis accept_opened_R prod.collapse)
  qed (use 1(2) m more [OF R_refl] in auto)
qed

lemma or_broken_R:
  assumes "or_broken what y = Some (q, r)" and "\<And>q r. y = Some (q, r) \<Longrightarrow> R p q"
  shows "R p q"
  using assms by (auto simp: or_broken_def split: option.splits prod.splits outcome.splits
      intro: R_trans [OF _ simple_R(1)])

lemma Open_R:
  assumes "Open E h ctx p = Some (q, r)"
  shows "R p q"
proof (cases "poolState p = PoolBeforeOpen")
  case True
  let ?p1 = "setState PoolOpening p"
  have wait: "R p1 p2" if "waitForOpened E h ctx p1 = Some (p2, x)" for p1 p2 x
    using waitForOpened_R [OF that] by simp
  show ?thesis
  proof (cases "SkipHandshakeSend ?p1")
    case skip: True
    with assms True have "or_broken ''wait for opened (creationXml flow)'' (waitForOpened E h ctx ?p1) = Some (q, r)"
      by (simp add: Open_def Let_def)
    then show ?thesis
      by (rule R_trans [OF setState_R or_broken_R]) (rule wait)
  next
    case False
    with assms True have "and_run (or_broken ''send session capability'' (Some (sendSessionCapability ctx ?p1))) (\<lambda>_ p.
          and_run (or_broken ''receive session capability'' (receiveSessionCapability E h ctx p)) (\<lambda>_ p.
          and_run (or_broken ''send init runspace pool'' (Some (sendInitRunspacePool ctx p))) (\<lambda>_ p.
          and_run (or_broken ''wait for opened'' (waitForOpened E h ctx p)) (\<lambda>_ p.
            Some (ok (p\<lparr>dispatchLoopStarted := True\<rparr>)))))) = Some (q, r)"
      by (simp add: Open_def Let_def)
    from setState_R this show ?thesis
      by (rule R_trans [OF _ and_run_R])
        (elim or_broken_R and_run_R, auto simp: ok_def R_refl intro: sends_R capability_R wait)+
  qed
qed (use assms in \<open>simp add: Open_def R_refl\<close>)

lemma Connect_R:
  assumes "Connect ctx p = (q, r)"
  shows "R p q"
proof (cases "poolState p = PoolBeforeOpen")
  case True
  let ?p1 = "StartDispatchLoop (p\<lparr>poolState := PoolConnecting\<rparr>)"
  have p1: "R p ?p1" by (rule R_trans [OF R_state simple_R(3)])
  obtain p2 x where s: "then_do (wrap_st ''send session capability'' (sendSessionCapability ctx ?p1))
      (\<lambda>p. wrap_st ''send connect runspace pool'' (sendConnectRunspacePool ctx p)) = (p2, x)"
    by fastforce
  then have "R ?p1 p2"
    by (elim then_do_R wrap_st_R) (auto intro: sends_R wrap_st_R)
  then have "R p p2" by (rule R_trans [OF p1])
  moreover have "R p (InitializeAvailabilityIfNeeded (setState PoolOpened ?p1))"
    by (intro R_trans [OF p1 R_trans [OF setState_R simple_R(2)]])
  ultimately show ?thesis
    using assms True s by (auto simp: Connect_def Let_def split: if_splits outcome.splits)
qed (use assms in \<open>simp add: Connect_def R_refl\<close>)

lemma Disconnect_R: "Disconnect p = (q, r) \<Longrightarrow> R p q"
  by (auto simp: Disconnect_def Let_def ok_def R_refl split: if_splits option.splits prod.splits
      intro: R_trans [OF setState_R world_R(1)])

lemma Close_R: "Close ctx p = (q, r) \<Longrightarrow> R p q"
  by (auto simp: Close_def Let_def R_refl split: if_splits prod.splits outcome.splits
      intro: R_trans [OF setState_R send_R])

end

interpretation keeping: pool_relation keeps_ok
  by unfold_locales (auto intro: keeps_ok_trans keeps_frame)

lemmas keeps_send = keeping.send_R
lemmas keeps_setters = keeping.setters_R
lemmas keeps_receive = keeping.receive_R
lemmas and_run_keeps = keeping.and_run_R
lemmas bind_st_keeps = keeping.bind_st_R
lemmas then_do_keeps = keeping.then_do_R
lemmas wrap_st_keeps = keeping.wrap_st_R
lemmas keeps_sends = keeping.sends_R
lemmas keeps_Open = keeping.Open_R
lemmas keeps_Connect = keeping.Connect_R
lemmas keeps_Disconnect = keeping.Disconnect_R
lemmas keeps_Close = keeping.Close_R
lemmas keeps_requests = keeping.requests_R

lemma keeps_cleanup: "pool_ok p \<Longrightarrow> cleanup st err p = (q, r) \<Longrightarrow> keeps_ok p q"
  using cleanup_eq [of p st err] by (auto simp: keeps_ok_def ok_def)

lemma keeps_Close_finish: "pool_ok p \<Longrightarrow> Close_finish ev p = (q, r) \<Longrightarrow> keeps_ok p q"
  by (cases ev) (auto simp: ok_def elim!: then_do_keeps dest: keeps_cleanup)

lemma keeps_metadata_wait:
  "metadata_wait E ev p = Some (q, r) \<Longrightarrow> keeps_ok p q"
  by (cases ev) (auto simp: keeps_ok_def pool_ok_def chan_take_def split: option.splits list.splits if_splits)

lemma keeps_register_pipeline:
  assumes "pipe_ok pl" and "register_pipeline pl p = (q, r)"
  shows "keeps_ok p q"
proof -
  let ?p1 = "register (pipeID pl) pl p"
  have "keeps_ok ?p1 q"
    using assms(2) by (auto simp: register_pipeline_def Let_def keeps_ok_def pool_ok_def all_ok_def
        split: option.splits prod.splits outcome.splits if_splits)
  then show ?thesis by (rule keeps_ok_trans [OF keeps_register [OF assms(1)]])
qed

lemma keeps_creation:
  "CreatePipeline i cmd p = (q, x) \<Longrightarrow> keeps_ok p q"
  "CreatePipelineBuilder i p = (q, x) \<Longrightarrow> keeps_ok p q"
  "AdoptPipeline pl p = (q, r) \<Longrightarrow> pipe_ok pl \<Longrightarrow> keeps_ok p q"
  by (auto simp: CreatePipeline_def CreatePipelineBuilder_def AdoptPipeline_def ok_def pipe_ok_new
      split: if_splits intro: keeps_register_pipeline [OF pipe_ok_new(2)]
      keeps_register_pipeline [OF pipe_ok_new(4)] keeps_pipelines all_ok_upd)

lemma keeps_watch: "watch_pipeline i p = Some (q, pl) \<Longrightarrow> keeps_ok p q"
  by (auto simp: watch_pipeline_def Let_def keeps_drop split: option.splits if_splits)

end
