(* ===== verification/Pool_Runs.thy ===== *)
theory Pool_Runs
  imports Pool_Correct
begin

text \<open>
  Runs of a pool. A state is the pool, where its dispatch loop stands and the goroutines that answer
  host calls; a step is an operation of the client, an iteration of the loop, a goroutine that
  finishes, or something that happens to a pipeline or a context. The invariant of every run is
  proved here; the properties are in theory \<open>Pool_Theorems\<close>.
\<close>

section \<open>The dispatch loop and its deliveries\<close>

lemma sendToChannel_ok: "sendToChannel s m p = (q, x) \<Longrightarrow> pipe_ok p \<Longrightarrow> pipe_ok q"
  using pipe_ok_stream_step [of p s "Put m"]
  by (auto simp: sendToChannel_def split: outcome.splits option.splits)

lemma blocked_send_ok: "blocked_send w s m p = (q, x) \<Longrightarrow> pipe_ok p \<Longrightarrow> pipe_ok q"
  by (cases w) (auto split: option.splits intro: sendToChannel_ok)

lemma HandleMessage_ok: "HandleMessage E m p = (q, x) \<Longrightarrow> pipe_ok p \<Longrightarrow> pipe_ok q"
  using HandleMessage_other [of m E p q x]
  by (cases "stream_of (MType m)") (auto simp: HandleMessage_stream kept_def intro: sendToChannel_ok)

lemma after_delivery_keeps:
  assumes "after_delivery i d p = (q, r)"
    and "\<And>old. fmlookup (pipelines p) i = Some old \<Longrightarrow> pipe_ok old \<Longrightarrow> pipe_ok (fst d)"
  shows "keeps_ok p q"
proof -
  have fail: "pipe_ok pl1" if "Pipeline_Fail e pl = (pl1, x)" "pipe_ok pl" for e pl pl1 x
    using Fail_ok [OF that(2), of e] that(1) by (auto simp: ok_def)
  show ?thesis
    using assms by (cases "(i, d, p)" rule: after_delivery.cases)
      (auto split: prod.splits outcome.splits intro: keeps_update fail)
qed

lemma route_keeps: "route_to_pipeline E m p = (q, r) \<Longrightarrow> keeps_ok p q"
  by (auto simp: route_to_pipeline_def split: option.splits elim!: after_delivery_keeps)
    (metis HandleMessage_ok prod.collapse)

lemma resume_keeps:
  assumes "resume_delivery w i pl s m p = (q, r)"
    and "fmlookup (pipelines p) i = Some pl \<or> fmlookup (pipelines p) i = None"
  shows "keeps_ok p q"
  using assms unfolding resume_delivery_def
  by (elim after_delivery_keeps) (metis blocked_send_ok option.distinct(1) option.inject prod.collapse)

lemma exiting_keeps: "exiting y = (q, r) \<Longrightarrow> (\<And>q r. y = (q, r) \<Longrightarrow> keeps_ok p q) \<Longrightarrow> keeps_ok p q"
  unfolding exiting_def by (erule bind_st_keeps) auto

lemma messages_keep:
  "on_capability E d p = (q, r) \<Longrightarrow> keeps_ok p q"
  "pool_ok p \<Longrightarrow> on_pool_state E d p = (q, r) \<Longrightarrow> keeps_ok p q"
  "on_availability E d p = (q, r) \<Longrightarrow> keeps_ok p q"
  by (auto simp: on_capability_def on_pool_state_def on_availability_def Let_def
      split: outcome.splits if_splits elim!: exiting_keeps intro: keeps_cleanup
      keeps_ok_trans [OF keeps_setState keeps_event])

lemma dispatch_message_keeps:
  assumes "pool_ok p" and "dispatch_message E m p = (q, r)"
    and "PipelineID m = uuid_Nil \<Longrightarrow> MType m \<noteq> MessageTypeRunspaceHostCall"
  shows "keeps_ok p q"
  using assms by (auto simp: dispatch_message_def split: if_splits
      intro: route_keeps messages_keep(1,3) messages_keep(2) [OF assms(1)])

lemma dispatch_error_keeps:
  "pool_ok p \<Longrightarrow> dispatch_error e p = (q, r) \<Longrightarrow> keeps_ok p q"
  by (auto simp: dispatch_error_def handleTransportError_def split: if_splits
      elim!: exiting_keeps intro: keeps_cleanup)

section \<open>Operations of the client\<close>

datatype 'w pool_op =
    PSetHost "'w host option" | PSetMin int | PSetMax int | PSetMessageID uint64
  | PSetTransport "'w readWriter" | PSetCallback "(string \<Rightarrow> (string \<times> goval) list \<Rightarrow> 'w \<Rightarrow> 'w) option"
  | POpen context_state | PConnect context_state | PDisconnect | PClose context_state
  | PCloseEnds close_event | PResumeOpened | PStartLoop | PSend context_state message
  | PGetAvailable context_state | PGetMetadata context_state "string list"
  | PMetadataEnds metadata_event | PHandshake | PConnectHandshake | PConnectResponse bytes
  | PAdopt pipeline | PCreate uuid string | PCreateBuilder uuid | PTransportError gerr

text \<open>
  The pool after an operation, with whether it returned; \<open>None\<close> when it does not return, or not yet.
\<close>

definition done_with :: "'s \<times> 'a outcome \<Rightarrow> ('s \<times> bool) option" where
  "done_with r = Some (fst r, returned (snd r))"

fun exec :: "codec_env \<Rightarrow> heap \<Rightarrow> 'w pool_op \<Rightarrow> 'w pool \<Rightarrow> ('w pool \<times> bool) option" where
  "exec E h (PSetHost hst) p = done_with (SetHost hst p)"
| "exec E h (PSetMin n) p = done_with (SetMinRunspaces n p)"
| "exec E h (PSetMax n) p = done_with (SetMaxRunspaces n p)"
| "exec E h (PSetMessageID i) p = Some (SetMessageID i p, True)"
| "exec E h (PSetTransport t) p = Some (SetTransport t p, True)"
| "exec E h (PSetCallback cb) p = Some (SetSecurityEventCallback cb p, True)"
| "exec E h (POpen ctx) p = Option.bind (Open E h ctx p) done_with"
| "exec E h (PConnect ctx) p =
     (case Connect ctx p of
        (q, ConnectReturns r) \<Rightarrow> done_with (q, r)
      | (q, ConnectWaits) \<Rightarrow> Some (q, True))"
| "exec E h PDisconnect p = done_with (Disconnect p)"
| "exec E h (PClose ctx) p =
     (case Close ctx p of
        (q, CloseReturns r) \<Rightarrow> done_with (q, r)
      | (q, CloseWaits) \<Rightarrow> Some (q, True))"
| "exec E h (PCloseEnds ev) p = done_with (Close_finish ev p)"
| "exec E h PResumeOpened p = Some (ResumeOpened E p, True)"
| "exec E h PStartLoop p = Some (StartDispatchLoop p, True)"
| "exec E h (PSend ctx m) p = done_with (SendMessage ctx m p)"
| "exec E h (PGetAvailable ctx) p = done_with (SendGetAvailableRunspaces ctx p)"
| "exec E h (PGetMetadata ctx names) p = done_with (GetCommandMetadata E h ctx names p)"
| "exec E h (PMetadataEnds ev) p = Option.bind (metadata_wait E ev p) done_with"
| "exec E h PHandshake p = done_with (GetHandshakeFragments p)"
| "exec E h PConnectHandshake p = done_with (GetConnectHandshakeFragments p)"
| "exec E h (PConnectResponse d) p = done_with (ProcessConnectResponse d p)"
| "exec E h (PAdopt pl) p = done_with (AdoptPipeline pl p)"
| "exec E h (PCreate i cmd) p = done_with (CreatePipeline i cmd p)"
| "exec E h (PCreateBuilder i) p = done_with (CreatePipelineBuilder i p)"
| "exec E h (PTransportError e) p = done_with (handleTransportError e p)"

text \<open>A pipeline that is adopted was created by one of the constructors.\<close>

fun op_fits :: "'w pool_op \<Rightarrow> bool" where
  "op_fits (PAdopt pl) = created pl"
| "op_fits _ = True"

lemma done_with_Some: "done_with r = Some (q, b) \<longleftrightarrow> (\<exists>x. r = (q, x) \<and> b = returned x)"
  by (cases r) (auto simp: done_with_def)

lemma keeps_exec:
  assumes "pool_ok p" and "op_fits op" and "exec E h op p = Some (q, b)"
  shows "keeps_ok p q"
proof (cases op)
  case (PAdopt pl)
  with assms show ?thesis
    using created_ok [of pl] by (auto simp: done_with_Some intro: keeps_creation(3))
next
  case (POpen ctx)
  with assms(3) show ?thesis
    by (cases "Open E h ctx p") (auto simp: done_with_Some intro: keeps_Open)
next
  case (PMetadataEnds ev)
  with assms(3) show ?thesis
    by (cases "metadata_wait E ev p") (auto simp: done_with_Some intro: keeps_metadata_wait)
next
  case (PSetMessageID i)
  with assms(3) show ?thesis by (auto simp: SetMessageID_def)
next
  case (PSetTransport t)
  with assms(3) show ?thesis by (auto simp: SetTransport_def)
next
  case (PSetCallback cb)
  with assms(3) show ?thesis by (auto simp: SetSecurityEventCallback_def)
qed (use assms in \<open>auto simp: done_with_Some SendMessage_def handleTransportError_def
    split: prod.splits connecting.splits closing.splits
    intro: keeps_setters keeps_Connect keeps_Disconnect keeps_Close
      keeps_Close_finish [OF assms(1)] keeps_send keeps_requests keeps_creation(1,2)
      keeps_cleanup [OF assms(1)]\<close>)

section \<open>Steps\<close>

datatype loop =
    NotStarted | AtCheck | AtReceive | Delivering uuid stream message | AwaitingPlace message | LoopEnded

record 'w psys =
  thePool :: "'w pool"
  theLoop :: loop
  poolCalls :: "message list"
  pipeCalls :: "(uuid \<times> message) list"

definition start_system :: "'w pool \<Rightarrow> 'w psys" where
  "start_system p = \<lparr>thePool = p, theLoop = NotStarted, poolCalls = [], pipeCalls = []\<rparr>"

text \<open>The loop after an iteration.\<close>

fun proceed :: "dispatched \<Rightarrow> 'w psys \<Rightarrow> 'w psys" where
  "proceed NextMessage y = y\<lparr>theLoop := AtCheck\<rparr>"
| "proceed ExitLoop y = y\<lparr>theLoop := LoopEnded\<rparr>"
| "proceed (DeliveryWaits i s m) y = y\<lparr>theLoop := Delivering i s m\<rparr>"
| "proceed (LimiterWaits m) y = y\<lparr>theLoop := AwaitingPlace m\<rparr>"
| "proceed (AnswersPipeline i m) y = y\<lparr>theLoop := AtCheck, pipeCalls := (i, m) # pipeCalls y\<rparr>"
| "proceed (AnswersPool m) y = y\<lparr>theLoop := AtCheck, poolCalls := m # poolCalls y\<rparr>"

text \<open>
  A step that panics ends the program, so it is no step. A pipeline that is not in the map any more
  is held by the client or by a goroutine, in whatever state.
\<close>

definition holds :: "uuid \<Rightarrow> pipeline \<Rightarrow> 'w pool \<Rightarrow> bool" where
  "holds i pl p \<longleftrightarrow> fmlookup (pipelines p) i = Some pl \<or> fmlookup (pipelines p) i = None"

inductive step :: "codec_env \<Rightarrow> heap \<Rightarrow> 'w psys \<Rightarrow> 'w psys \<Rightarrow> bool" for E h where
  operation:
    "op_fits op \<Longrightarrow> exec E h op (thePool y) = Some (q, True) \<Longrightarrow> step E h y (y\<lparr>thePool := q\<rparr>)"
| loop_starts:
    "theLoop y = NotStarted \<Longrightarrow> dispatchLoopStarted (thePool y) \<Longrightarrow>
     step E h y (y\<lparr>theLoop := AtCheck\<rparr>)"
| check:
    "theLoop y = AtCheck \<Longrightarrow>
     step E h y (y\<lparr>theLoop := (if loop_ends (thePool y) then LoopEnded else AtReceive)\<rparr>)"
| iteration:
    "theLoop y = AtReceive \<Longrightarrow> receive_and_dispatch E (thePool y) = Some (q, Ret d) \<Longrightarrow>
     step E h y (proceed d (y\<lparr>thePool := q\<rparr>))"
| delivery:
    "theLoop y = Delivering i s m \<Longrightarrow> holds i pl (thePool y) \<Longrightarrow>
     resume_delivery w i pl s m (thePool y) = (q, Ret d) \<Longrightarrow>
     step E h y (proceed d (y\<lparr>thePool := q\<rparr>))"
| place:
    "theLoop y = AwaitingPlace m \<Longrightarrow> on_host_call m (thePool y) = (q, Ret d) \<Longrightarrow>
     step E h y (proceed d (y\<lparr>thePool := q\<rparr>))"
| pool_answered:
    "m \<in> set (poolCalls y) \<Longrightarrow> pool_call_goroutine E h m (thePool y) = (q, Ret ()) \<Longrightarrow>
     step E h y (y\<lparr>thePool := q, poolCalls := remove1 m (poolCalls y)\<rparr>)"
| pipeline_answered:
    "(i, m) \<in> set (pipeCalls y) \<Longrightarrow> holds i pl (thePool y) \<Longrightarrow>
     host_call_goroutine E h (pool_transport (thePool y)) m (pl, thePool y) = ((pl1, q), Ret ()) \<Longrightarrow>
     step E h y (y\<lparr>thePool := update_pipeline i pl1 q, pipeCalls := remove1 (i, m) (pipeCalls y)\<rparr>)"
| pipeline_operation:
    "holds i pl (thePool y) \<Longrightarrow>
     client E h (pool_transport (thePool y)) c (pl, thePool y) = ((pl1, q), r) \<Longrightarrow> returned r \<Longrightarrow>
     step E h y (y\<lparr>thePool := update_pipeline i pl1 q\<rparr>)"
| record_taken:
    "fmlookup (pipelines (thePool y)) i = Some pl \<Longrightarrow> chan_take (pipeStreams pl s) = Some (m, c) \<Longrightarrow>
     step E h y (y\<lparr>thePool :=
       update_pipeline i (pl\<lparr>pipeStreams := (pipeStreams pl)(s := c)\<rparr>) (thePool y)\<rparr>)"
| pipeline_removed:
    "watch_pipeline i (thePool y) = Some (q, pl) \<Longrightarrow> step E h y (y\<lparr>thePool := q\<rparr>)"
| state_taken:
    "chan_take (stateCh (thePool y)) = Some (st, c) \<Longrightarrow>
     step E h y (y\<lparr>thePool := (thePool y)\<lparr>stateCh := c\<rparr>\<rparr>)"
| context_done:
    "step E h y (y\<lparr>thePool := (thePool y)\<lparr>poolCtx := ctx_cancel e (poolCtx (thePool y))\<rparr>\<rparr>)"

inductive run :: "codec_env \<Rightarrow> heap \<Rightarrow> 'w psys \<Rightarrow> 'w psys \<Rightarrow> bool" for E h where
  here: "run E h y y"
| further: "run E h x y \<Longrightarrow> step E h y z \<Longrightarrow> run E h x z"

section \<open>The invariant of a run\<close>

text \<open>
  The places that are taken in the limiter are the goroutines that answer calls of the pool.
\<close>

definition sys_ok :: "'w psys \<Rightarrow> bool" where
  "sys_ok y \<longleftrightarrow>
     pool_ok (thePool y) \<and> chan_cap (hostCallLimiter (thePool y)) = DefaultMaxConcurrentHostCalls \<and>
     \<not> chan_closed (hostCallLimiter (thePool y)) \<and>
     length (chan_queue (hostCallLimiter (thePool y))) = length (poolCalls y) \<and>
     length (poolCalls y) \<le> DefaultMaxConcurrentHostCalls"

lemma sys_ok_keeps:
  assumes "sys_ok y" and "keeps_ok (thePool y) q" and "poolCalls z = poolCalls y" and "thePool z = q"
  shows "sys_ok z \<and> (poolDone (thePool y) \<longrightarrow> poolDone (thePool z))"
  using assms by (simp add: sys_ok_def keeps_ok_def)

text \<open>The only step that takes a place, and the only one that gives one back.\<close>

definition no_new_call :: "dispatched \<Rightarrow> bool" where
  "no_new_call d \<longleftrightarrow> (\<forall>m. d \<noteq> AnswersPool m)"

lemma sys_ok_proceed:
  assumes "sys_ok y" and "keeps_ok (thePool y) q" and "no_new_call d"
  shows "sys_ok (proceed d (y\<lparr>thePool := q\<rparr>)) \<and>
    (poolDone (thePool y) \<longrightarrow> poolDone (thePool (proceed d (y\<lparr>thePool := q\<rparr>))))"
  using assms(3) by (intro sys_ok_keeps [OF assms(1,2)]; cases d) (auto simp: no_new_call_def)

lemma sys_ok_place:
  assumes "sys_ok y" and "on_host_call m p = (q, Ret d)" and "frame (thePool y) p"
  shows "sys_ok (proceed d (y\<lparr>thePool := q\<rparr>)) \<and>
    (poolDone (thePool y) \<longrightarrow> poolDone (thePool (proceed d (y\<lparr>thePool := q\<rparr>))))"
  using assms frame_fields [OF assms(3)]
  by (auto simp: on_host_call_def sys_ok_def pool_ok_def chan_offer_Some
      split: outcome.splits option.splits if_splits)

lemma after_delivery_no_call: "after_delivery i d p = (q, Ret r) \<Longrightarrow> no_new_call r"
  by (cases "(i, d, p)" rule: after_delivery.cases)
    (auto simp: no_new_call_def split: prod.splits outcome.splits)

lemma exiting_Ret: "exiting y = (q, Ret d) \<Longrightarrow> d = ExitLoop"
  by (auto simp: exiting_def bind_st_Ret)

lemma dispatch_message_no_call:
  assumes "dispatch_message E m p = (q, Ret d)"
    and "PipelineID m = uuid_Nil \<Longrightarrow> MType m \<noteq> MessageTypeRunspaceHostCall"
  shows "no_new_call d"
  using assms by (auto simp: dispatch_message_def route_to_pipeline_def on_capability_def
      on_pool_state_def on_availability_def Let_def no_new_call_def
      split: if_splits option.splits outcome.splits
      dest!: after_delivery_no_call [unfolded no_new_call_def] exiting_Ret)

lemma dispatch_error_no_call: "dispatch_error e p = (q, Ret d) \<Longrightarrow> no_new_call d"
  by (auto simp: dispatch_error_def no_new_call_def split: if_splits dest: exiting_Ret)

lemma sys_ok_iteration:
  assumes "sys_ok y" and "receive_and_dispatch E (thePool y) = Some (q, Ret d)"
  shows "sys_ok (proceed d (y\<lparr>thePool := q\<rparr>)) \<and>
    (poolDone (thePool y) \<longrightarrow> poolDone (thePool (proceed d (y\<lparr>thePool := q\<rparr>))))"
proof -
  from assms(2) obtain p1 x where r: "receiveMessage (poolCtx (thePool y)) (thePool y) = Some (p1, x)"
    by (auto simp: receive_and_dispatch_def split: option.splits)
  have f: "frame (thePool y) p1" using receiveMessage_frame [OF r] by simp
  then have k: "keeps_ok (thePool y) p1" by (rule keeps_frame)
  have p1: "pool_ok p1" using k assms(1) by (simp add: keeps_ok_def sys_ok_def)
  show ?thesis
  proof (cases x)
    case (Ret m)
    with assms(2) r have d: "dispatch_message E m p1 = (q, Ret d)" by (simp add: receive_and_dispatch_def)
    show ?thesis
    proof (cases "PipelineID m = uuid_Nil \<and> MType m = MessageTypeRunspaceHostCall")
      case True
      have "MessageTypeRunspaceHostCall \<noteq> MessageTypeSessionCapability" by (simp add: message_type_defs)
      with True d have "on_host_call m p1 = (q, Ret d)" by (simp add: dispatch_message_def)
      from assms(1) this f show ?thesis by (rule sys_ok_place)
    next
      case other: False
      then show ?thesis
        using keeps_ok_trans [OF k dispatch_message_keeps [OF p1 d]] dispatch_message_no_call [OF d]
        by (intro sys_ok_proceed [OF assms(1)]) auto
    qed
  next
    case (Fail e)
    with assms(2) r have d: "dispatch_error e p1 = (q, Ret d)" by (simp add: receive_and_dispatch_def)
    from keeps_ok_trans [OF k dispatch_error_keeps [OF p1 d]] dispatch_error_no_call [OF d] show ?thesis
      by (rule sys_ok_proceed [OF assms(1)])
  next
    case (Panic z)
    with assms(2) r show ?thesis by (simp add: receive_and_dispatch_def)
  qed
qed

lemma release_keeps:
  assumes "keeps_ok p q" and "pool_ok p" and "hostCallLimiter p = Chan n (u # us) False"
  shows "pool_ok (release_limiter q) \<and> hostCallLimiter (release_limiter q) = Chan n us False \<and>
    (poolDone p \<longrightarrow> poolDone (release_limiter q))"
  using assms by (auto simp: release_limiter_def keeps_ok_def pool_ok_def chan_take_def)

lemma pool_call_keeps:
  assumes "pool_ok p" and "pool_call_goroutine E h m p = (q, Ret ())"
  shows "\<exists>p1. keeps_ok p p1 \<and> q = release_limiter p1"
proof -
  obtain p1 x where c: "pool_handleHostCall E h (poolCtx p) m p = (p1, x)" by fastforce
  have k: "keeps_ok p p1" by (rule keeps_frame) (rule pool_handleHostCall_frame [OF c])
  then have ok: "pool_ok p1" using assms(1) by (simp add: keeps_ok_def)
  show ?thesis
  proof (cases x)
    case (Ret u)
    with c k assms(2) show ?thesis by (auto simp: pool_call_goroutine_def ok_def)
  next
    case (Fail e)
    obtain p2 where "handleTransportError (EWrap ''host call failed'' e) p1 = ok p2" "keeps_ok p1 p2"
      using cleanup_eq [OF ok] keeps_cleanup [OF ok] by (auto simp: handleTransportError_def ok_def) blast
    with c k assms(2) Fail keeps_ok_trans show ?thesis
      by (auto simp: pool_call_goroutine_def) (auto simp: ok_def)
  qed (use c assms(2) in \<open>simp add: pool_call_goroutine_def\<close>)
qed

lemma sys_ok_pool_answered:
  assumes "sys_ok y" and "m \<in> set (poolCalls y)"
    and "pool_call_goroutine E h m (thePool y) = (q, Ret ())"
  shows "sys_ok (y\<lparr>thePool := q, poolCalls := remove1 m (poolCalls y)\<rparr>) \<and>
    (poolDone (thePool y) \<longrightarrow> poolDone q)"
proof -
  have ok: "pool_ok (thePool y)" using assms(1) by (simp add: sys_ok_def)
  from pool_call_keeps [OF this assms(3)] obtain p1 where
    p1: "keeps_ok (thePool y) p1" "q = release_limiter p1" by blast
  have "poolCalls y \<noteq> []" using assms(2) by auto
  with assms(1) obtain u us where "hostCallLimiter (thePool y) = Chan DefaultMaxConcurrentHostCalls (u # us) False"
    by (cases "hostCallLimiter (thePool y)"; cases "chan_queue (hostCallLimiter (thePool y))")
      (auto simp: sys_ok_def)
  with release_keeps [OF p1(1) ok this] assms(1,2) p1(2) show ?thesis
    by (auto simp: sys_ok_def length_remove1)
qed

lemma holds_ok: "pool_ok p \<Longrightarrow> holds i pl p \<Longrightarrow> fmlookup (pipelines p) i = Some old \<Longrightarrow> old = pl \<and> pipe_ok pl"
  by (auto simp: holds_def pool_ok_def all_ok_def)

lemma keeps_update_frame:
  assumes "pool_ok p" and "frame p q" and "holds i pl p" and "kept pl pl1"
  shows "keeps_ok p (update_pipeline i pl1 q)"
proof (rule keeps_ok_trans [OF keeps_frame [OF assms(2)] keeps_update])
  fix old
  assume "fmlookup (pipelines q) i = Some old"
  with holds_ok [OF assms(1,3)] assms(2,4) show "pipe_ok pl1" by (auto simp: frame_fields kept_def)
qed

lemma step_ok: "step E h y z \<Longrightarrow> sys_ok y \<Longrightarrow> sys_ok z \<and> (poolDone (thePool y) \<longrightarrow> poolDone (thePool z))"
proof (induction rule: step.induct)
  case (operation op y q)
  then show ?case by (intro sys_ok_keeps [where q = q] keeps_exec) (auto simp: sys_ok_def)
next
  case (loop_starts y)
  then show ?case by (intro sys_ok_keeps [where q = "thePool y"]) auto
next
  case (check y)
  then show ?case by (intro sys_ok_keeps [where q = "thePool y"]) auto
next
  case (iteration y q d)
  then show ?case by (intro sys_ok_iteration)
next
  case (delivery y i s m pl w q d)
  then show ?case
    by (intro sys_ok_proceed resume_keeps) (auto simp: holds_def resume_delivery_def dest: after_delivery_no_call)
next
  case (place y m q d)
  then show ?case by (intro sys_ok_place) auto
next
  case (pool_answered m y q)
  then show ?case using sys_ok_pool_answered by simp
next
  case (pipeline_answered i m y pl pl1 q)
  then show ?case
    by (intro sys_ok_keeps [where q = "update_pipeline i pl1 q"] keeps_update_frame)
      (auto simp: sys_ok_def dest: pool_client.goroutine_confined kept_goroutine)
next
  case (pipeline_operation i pl y c pl1 q r)
  then show ?case
    by (intro sys_ok_keeps [where q = "update_pipeline i pl1 q"] keeps_update_frame)
      (auto simp: sys_ok_def dest: pool_client.client_confined kept_client)
next
  case (record_taken y i pl s m c)
  then show ?case
    using pipe_ok_stream_step [of pl s "Take m" c]
    by (intro sys_ok_keeps [where q = "update_pipeline i (pl\<lparr>pipeStreams := (pipeStreams pl)(s := c)\<rparr>) (thePool y)"]
        keeps_update) auto
next
  case (pipeline_removed i y q pl)
  then show ?case by (intro sys_ok_keeps [where q = q] keeps_watch) auto
next
  case (state_taken y st c)
  then show ?case by (intro sys_ok_keeps [OF state_taken.prems keeps_fields(2)]) auto
next
  case (context_done y e)
  then show ?case by (intro sys_ok_keeps [OF context_done.prems keeps_fields(8)]) auto
qed

lemma run_ok: "run E h x y \<Longrightarrow> sys_ok x \<Longrightarrow> sys_ok y \<and> (poolDone (thePool x) \<longrightarrow> poolDone (thePool y))"
  by (induction rule: run.induct) (auto dest: step_ok)

lemma sys_ok_new: "sys_ok (start_system (NewPoolWithContext ns ctx tr w i))"
  by (simp add: sys_ok_def start_system_def NewPoolWithContext_def pool_ok_def all_ok_def)

end
