(* ===== verification/Pool_Theorems.thy ===== *)
theory Pool_Theorems
  imports Pool_Runs
begin

text \<open>
  The properties of a pool: the invariant of its runs, the end of its pipelines, the opening
  handshake, the routing of messages, and what a lost connection and a late message do.
\<close>

section \<open>Every run\<close>

text \<open>
  C5. In every run of a pool, whatever the client, the server, the host and the pipelines do: at most
  64 calls of the pool are being answered at a time, one for each place taken in the limiter; a pool
  is done exactly when it was cleaned up, and stays so; every pipeline in its map has closed its
  streams exactly when it is done, is done when its state is terminal, and buffers at most 100
  records in each stream. And nothing ever reaches the channel that \<open>GetCommandMetadata\<close> waits for:
  that wait is never ended by a reply.
\<close>

theorem pool_invariant:
  assumes "run E h (start_system (NewPoolWithContext ns ctx tr w i)) y"
  shows "length (poolCalls y) \<le> 64 \<and>
    length (chan_queue (hostCallLimiter (thePool y))) = length (poolCalls y) \<and>
    (poolDone (thePool y) \<longleftrightarrow> cleanedUp (thePool y)) \<and>
    (\<forall>z. run E h y z \<longrightarrow> poolDone (thePool y) \<longrightarrow> poolDone (thePool z)) \<and>
    (\<forall>k pl s. fmlookup (pipelines (thePool y)) k = Some pl \<longrightarrow>
       chan_closed (pipeStreams pl s) = pipeDone pl \<and> (terminal (pipeState pl) \<longrightarrow> pipeDone pl) \<and>
       length (chan_queue (pipeStreams pl s)) \<le> 100) \<and>
    metadata_wait E MetadataReply (thePool y) = None"
proof -
  have y: "sys_ok y" using run_ok [OF assms sys_ok_new] by simp
  then show ?thesis
    using run_ok [of E h y]
    by (auto simp: sys_ok_def DefaultMaxConcurrentHostCalls_def pool_ok_def all_ok_def chan_take_def)
      (auto simp: pipe_ok_def streams_ok_def streamBuffer_def)
qed

section \<open>The end of the pipelines\<close>

lemma ended_broken:
  assumes "pipe_ok pl"
  shows "Wait (ended (Some e) pl) \<noteq> None \<and>
    (\<not> terminal (pipeState pl) \<longrightarrow>
       Wait (ended (Some e) pl) = Some (Some (EWrap ''runspace pool broken'' e)))"
  using Fail_ok [OF assms, of "EWrap ''runspace pool broken'' e"]
  by (auto simp: ended_def Wait_def ok_def)

lemma ended_closed: "Wait (ended None pl) = Wait pl \<and> pipeState (ended None pl) = pipeState pl"
  by (simp add: ended_def Wait_def Cancel_def)

text \<open>
  C8. A pool that breaks ends its pipelines, a pool that is closed does not. From any point of any
  run before the end, a transport error breaks the pool without a panic and every pipeline in the
  map is done, so that \<open>Wait\<close> returns, with the error for those that were running. After the end of
  a pool that the server closed, or whose \<open>Close\<close> timed out, the pipelines are only cancelled:
  \<open>Wait\<close> still blocks on each that was not done.
\<close>

theorem pool_end:
  assumes "run E h (start_system (NewPoolWithContext ns ctx tr w i)) y" and "\<not> poolDone (thePool y)"
  shows "(\<exists>q. handleTransportError e (thePool y) = (q, Ret ()) \<and> poolDone q \<and> poolState q = PoolBroken \<and>
      (\<forall>k pl. fmlookup (pipelines (thePool y)) k = Some pl \<longrightarrow>
        (\<exists>pl'. fmlookup (pipelines q) k = Some pl' \<and> Wait pl' \<noteq> None \<and>
          (\<not> terminal (pipeState pl) \<longrightarrow>
             Wait pl' = Some (Some (EWrap ''runspace pool broken'' e)))))) \<and>
    (\<exists>q. cleanup PoolClosed None (thePool y) = (q, Ret ()) \<and> poolDone q \<and> poolState q = PoolClosed \<and>
      (\<forall>k pl. fmlookup (pipelines (thePool y)) k = Some pl \<longrightarrow>
        (\<exists>pl'. fmlookup (pipelines q) k = Some pl' \<and> pipeCtx pl' \<noteq> None \<and> Wait pl' = Wait pl)))"
proof -
  have ok: "pool_ok (thePool y)" using run_ok [OF assms(1) sys_ok_new] by (simp add: sys_ok_def)
  then have pl: "pipe_ok pl" if "fmlookup (pipelines (thePool y)) k = Some pl" for k pl
    using that by (auto simp: pool_ok_def all_ok_def)
  show ?thesis
    using cleanup_eq [OF ok, of PoolBroken "Some e"] cleanup_eq [OF ok, of PoolClosed None] assms(2)
    by (auto simp: handleTransportError_def ok_def end_all_def dest!: pl ended_broken [of _ e])
      (auto simp: ended_def Wait_def Cancel_def)
qed

section \<open>Opening\<close>

lemma setBroken_state [simp]: "poolState (setBroken p) = PoolBroken"
  by (simp add: setBroken_def)

lemma or_broken_state:
  assumes "or_broken what y = Some (q, r)"
  shows "\<forall>e. r = Fail e \<longrightarrow> poolState q = PoolBroken"
  using assms by (auto simp: or_broken_def split: option.splits prod.splits outcome.splits)

lemma or_broken_Ret: "or_broken what y = Some (q, Ret x) \<longleftrightarrow> y = Some (q, Ret x)"
  by (auto simp: or_broken_def split: option.splits prod.splits outcome.splits)

lemma and_run_state:
  assumes "and_run (or_broken what y) f = Some (q, Fail e)"
    and "\<And>p x. f x p = Some (q, Fail e) \<Longrightarrow> poolState q = PoolBroken"
  shows "poolState q = PoolBroken"
  using assms or_broken_state [of what y]
  by (auto simp: and_run_def split: option.splits prod.splits outcome.splits)

lemma accept_opened_state: "accept_opened E d p = (q, Ret ()) \<Longrightarrow> poolState q = PoolOpened"
  by (auto simp: accept_opened_def bind_st_Ret ok_def split: if_splits)

lemma waitForOpened_state:
  assumes "waitForOpened E h ctx p = Some y"
  shows "snd y = Ret () \<longrightarrow> poolState (fst y) = PoolOpened"
proof (rule waitForOpened.raw_induct
    [where P = "\<lambda>E h ctx p y. snd y = Ret () \<longrightarrow> poolState (fst y) = PoolOpened", OF _ assms], goal_cases)
  case (1 rec E h ctx p y)
  then show ?case
    by (auto split: option.splits outcome.splits if_splits dest: 1(1))
      (metis accept_opened_state prod.collapse)+
qed

lemma open_states:
  assumes "Open E h ctx p = Some (q, r)"
  shows "(poolState p = PoolBeforeOpen \<longrightarrow>
      (r = Ret () \<longrightarrow> poolState q = PoolOpened) \<and> (\<forall>e. r = Fail e \<longrightarrow> poolState q = PoolBroken)) \<and>
    (poolState p \<noteq> PoolBeforeOpen \<longrightarrow> q = p \<and> (\<exists>e. r = Fail e))"
proof (cases "poolState p = PoolBeforeOpen")
  case True
  let ?p1 = "setState PoolOpening p"
  show ?thesis
  proof (cases "SkipHandshakeSend ?p1")
    case skip: True
    with assms True have
      o: "or_broken ''wait for opened (creationXml flow)'' (waitForOpened E h ctx ?p1) = Some (q, r)"
      by (simp add: Open_def Let_def)
    from or_broken_state [OF o] o waitForOpened_state [of E h ctx ?p1 "(q, r)"] True show ?thesis
      by (auto simp: or_broken_Ret)
  next
    case False
    with assms True have
      o: "and_run (or_broken ''send session capability'' (Some (sendSessionCapability ctx ?p1))) (\<lambda>_ p.
          and_run (or_broken ''receive session capability'' (receiveSessionCapability E h ctx p)) (\<lambda>_ p.
          and_run (or_broken ''send init runspace pool'' (Some (sendInitRunspacePool ctx p))) (\<lambda>_ p.
          and_run (or_broken ''wait for opened'' (waitForOpened E h ctx p)) (\<lambda>_ p.
            Some (ok (p\<lparr>dispatchLoopStarted := True\<rparr>)))))) = Some (q, r)"
      by (simp add: Open_def Let_def)
    have "poolState q = PoolBroken" if "r = Fail e" for e
      using o unfolding that by (elim and_run_state) (simp add: ok_def)
    moreover have "poolState q = PoolOpened" if "r = Ret ()"
    proof -
      from o that obtain p2 p3 where "waitForOpened E h ctx p2 = Some (p3, Ret ())"
        "q = p3\<lparr>dispatchLoopStarted := True\<rparr>"
        by (auto simp: and_run_def or_broken_Ret ok_def split: option.splits prod.splits outcome.splits)
      with waitForOpened_state [of E h ctx p2 "(p3, Ret ())"] show ?thesis by simp
    qed
    ultimately show ?thesis using True by simp
  qed
qed (use assms in \<open>auto simp: Open_def\<close>)

text \<open>
  C17. \<open>Open\<close> of a pool that was not opened before, when it returns, leaves it in one of two states:
  opened when it returns nil, broken when it returns an error, whatever the transport, the host and
  the server do. A pool in any other state refuses and is left alone.
\<close>

theorem open_outcome:
  assumes "Open E h ctx p = Some (q, r)"
  shows "(poolState p = PoolBeforeOpen \<longrightarrow>
      (r = Ret () \<longrightarrow> poolState q = PoolOpened) \<and> (\<forall>e. r = Fail e \<longrightarrow> poolState q = PoolBroken)) \<and>
    (poolState p \<noteq> PoolBeforeOpen \<longrightarrow> q = p \<and> (\<exists>e. r = Fail e))"
  using open_states [OF assms] .

lemma receive_plain:
  assumes "receiveMessage ctx p = Some (q, Ret m)" and "MType m \<noteq> MessageTypeRunspaceHostCall"
  shows "receiveMessageWithHostCallbacks E h ctx p = Some (q, Ret m)"
  using assms by (subst receiveMessageWithHostCallbacks.simps) simp

text \<open>The messages that \<open>waitForOpened\<close> passes over.\<close>

definition passed_over :: "message \<Rightarrow> bool" where
  "passed_over m \<longleftrightarrow>
     MType m = MessageTypeApplicationPrivate \<or> MType m = MessageTypeRunspacePoolInitData \<or>
     MType m = MessageTypeSessionCapability"

lemma waitForOpened_pipe:
  assumes "list_all passed_over ms" and "MType st = MessageTypeRunspacePoolState"
    and "list_all (sendable sz) (ms @ [st])" and "idle (poolAssembler q)"
    and "poolTransport q = pipe_transport" and "world q = (cs, out)"
    and "concat cs = wire_all sz oid (ms @ [st])"
  shows "\<exists>cs'. concat cs' = [] \<and>
    waitForOpened E h None q = Some (accept_opened E (MsgData st) (q\<lparr>world := (cs', out)\<rparr>))"
  using assms
proof (induction ms arbitrary: q cs oid)
  case Nil
  from receiveMessage_wire [OF _ Nil.prems(4-6), of sz st "oid + 1" "[]"] Nil.prems(3,7)
  obtain cs' where r: "receiveMessage None q = Some (q\<lparr>world := (cs', out)\<rparr>, Ret st)" "concat cs' = []"
    by auto
  have "receiveMessageWithHostCallbacks E h None q = Some (q\<lparr>world := (cs', out)\<rparr>, Ret st)"
    using Nil.prems(2) by (intro receive_plain [OF r(1)]) (simp add: message_type_defs)
  with r(2) Nil.prems(2) show ?case
    by (intro exI [of _ cs']) (subst waitForOpened.simps, simp add: message_type_defs)
next
  case (Cons m ms)
  from receiveMessage_wire [OF _ Cons.prems(4-6), of sz m "oid + 1" "wire_all sz (oid + 1) (ms @ [st])"]
    Cons.prems(3,7)
  obtain cs1 where r: "receiveMessage None q = Some (q\<lparr>world := (cs1, out)\<rparr>, Ret m)"
    "concat cs1 = wire_all sz (oid + 1) (ms @ [st])"
    by auto
  let ?q = "q\<lparr>world := (cs1, out)\<rparr>"
  have m: "passed_over m" using Cons.prems(1) by simp
  have "receiveMessageWithHostCallbacks E h None q = Some (?q, Ret m)"
    using m by (intro receive_plain [OF r(1)]) (auto simp: passed_over_def message_type_defs)
  with m have w: "waitForOpened E h None q = waitForOpened E h None ?q"
    by (subst waitForOpened.simps) (simp add: passed_over_def)
  from Cons.IH [of ?q cs1 "oid + 1"] Cons.prems r(2)
  obtain cs2 where "concat cs2 = []"
    "waitForOpened E h None ?q = Some (accept_opened E (MsgData st) (?q\<lparr>world := (cs2, out)\<rparr>))"
    by auto
  with w show ?case by auto
qed

lemma receiveSessionCapability_pipe:
  assumes "MType cap = MessageTypeSessionCapability" and "sendable sz cap"
    and "parseCapabilityData E (MsgData cap) = Ret caps"
    and "ProtocolVersion caps = CHR ''2'' # v" and "v \<noteq> []"
    and "idle (poolAssembler q)" and "poolTransport q = pipe_transport" and "world q = (cs, out)"
    and "concat cs = wire_bytes sz oid cap @ rest"
  shows "\<exists>cs'. concat cs' = rest \<and>
    receiveSessionCapability E h None q = Some (ok (q\<lparr>world := (cs', out),
      serverProtocolVersion := ProtocolVersion caps, serverPSVersion := PSVersion caps\<rparr>))"
proof -
  from receiveMessage_wire [OF assms(2,6-9)] obtain cs' where
    r: "receiveMessage None q = Some (q\<lparr>world := (cs', out)\<rparr>, Ret cap)" "concat cs' = rest"
    by blast
  have "receiveMessageWithHostCallbacks E h None q = Some (q\<lparr>world := (cs', out)\<rparr>, Ret cap)"
    using assms(1) by (intro receive_plain [OF r(1)]) (simp add: message_type_defs)
  with r(2) assms(1,3-5) show ?thesis
    by (intro exI [of _ cs']) (auto simp: receiveSessionCapability_def Let_def neq_Nil_conv)
qed

lemma opening_fields:
  assumes "p = NewPool ns pipe_transport (cs, []) i"
  shows "poolState p = PoolBeforeOpen"
    "setState PoolOpening p = p\<lparr>poolState := PoolOpening, stateCh := Chan 1 [PoolOpening] False\<rparr>"
    "\<not> SkipHandshakeSend p" "poolID p = i" "minRunspaces p = 1" "maxRunspaces p = 1"
    "poolFragmenter p = NewFragmenter DefaultMaxFragmentSize" "poolAssembler p = NewAssembler"
    "poolTransport p = pipe_transport" "world p = (cs, [])"
    "maxSize (poolFragmenter p) = DefaultMaxFragmentSize" "objectID (poolFragmenter p) = 0"
  by (simp_all add: assms NewPool_def NewPoolWithContext_def setState_def chan_offer_def make_chan_def NewFragmenter_def)

text \<open>
  C7. The whole handshake over a pipe. If the server's side of the pipe carries a SESSION_CAPABILITY
  with a protocol version 2.x, then any messages that the client passes over, then a
  RUNSPACEPOOL_STATE that says opened, in whatever chunks the bytes arrive, then \<open>Open\<close> returns nil;
  the pool is opened, its loop is started, the server's versions and the negotiated numbers of
  runspaces are recorded, every byte was read, and exactly the SESSION_CAPABILITY and
  INIT_RUNSPACEPOOL messages of the client were written.
\<close>

theorem open_handshake:
  assumes "MType cap = MessageTypeSessionCapability" and "parseCapabilityData E (MsgData cap) = Ret caps"
    and "ProtocolVersion caps = CHR ''2'' # v" and "v \<noteq> []" and "list_all passed_over ms"
    and "MType st = MessageTypeRunspacePoolState" and "parseRunspacePoolState E (MsgData st) = Ret info"
    and "siState info = 2" and "list_all (sendable sz) (cap # ms @ [st])"
    and "concat cs = wire_all sz oid (cap # ms @ [st])"
    and "p = NewPool ns pipe_transport (cs, []) i"
  shows "\<exists>q. Open E h None p = Some (q, Ret ()) \<and> poolState q = PoolOpened \<and> dispatchLoopStarted q \<and>
    serverProtocolVersion q = ProtocolVersion caps \<and> serverPSVersion q = PSVersion caps \<and>
    negotiatedMaxRunspaces q = (if 0 < siMaxRunspaces info then siMaxRunspaces info else 1) \<and>
    concat (fst (world q)) = [] \<and>
    snd (world q) = wire_all 307200 0 [NewSessionCapability i (bytes_of_string capability_document),
      NewInitRunspacePool i (bytes_of_string (createRunspacePoolInitXML 1 1))]"
proof -
  let ?cap = "NewSessionCapability i (bytes_of_string capability_document)"
  let ?init = "NewInitRunspacePool i (bytes_of_string (createRunspacePoolInitXML 1 1))"
  let ?p1 = "setState PoolOpening p"
  have s: "sendable 307200 ?cap" "sendable 307200 ?init"
    using handshake_documents
    by (simp_all add: sendable_def NewSessionCapability_def NewInitRunspacePool_def)
  note p = opening_fields [OF assms(11)]
  have c: "concat cs = wire_bytes sz (oid + 1) cap @ wire_all sz (oid + 1) (ms @ [st])"
    using assms(10) by simp
  have 1: "sendSessionCapability None ?p1 = (?p1\<lparr>poolFragmenter := (poolFragmenter p)\<lparr>objectID := 1\<rparr>,
      world := (cs, wire_bytes 307200 1 ?cap)\<rparr>, Ret ())"
    using sendMessage_pipe [OF s(1), of ?p1 cs "[]"] p
    by (simp add: sendSessionCapability_def createSessionCapabilityMessage_def)
  let ?p2 = "?p1\<lparr>poolFragmenter := (poolFragmenter p)\<lparr>objectID := 1\<rparr>, world := (cs, wire_bytes 307200 1 ?cap)\<rparr>"
  from receiveSessionCapability_pipe [OF assms(1) _ assms(2-4) _ _ _ c, of ?p2 "wire_bytes 307200 1 ?cap" h]
    assms(9) p idle_new
  obtain cs1 where 2: "concat cs1 = wire_all sz (oid + 1) (ms @ [st])"
    "receiveSessionCapability E h None ?p2 = Some (ok (?p2\<lparr>world := (cs1, wire_bytes 307200 1 ?cap),
      serverProtocolVersion := ProtocolVersion caps, serverPSVersion := PSVersion caps\<rparr>))"
    by auto
  let ?p3 = "?p2\<lparr>world := (cs1, wire_bytes 307200 1 ?cap),
    serverProtocolVersion := ProtocolVersion caps, serverPSVersion := PSVersion caps\<rparr>"
  let ?out = "wire_bytes 307200 1 ?cap @ wire_bytes 307200 2 ?init"
  let ?p4 = "?p3\<lparr>poolFragmenter := (poolFragmenter p)\<lparr>objectID := 2\<rparr>, world := (cs1, ?out)\<rparr>"
  have 3: "sendInitRunspacePool None ?p3 = (?p4, Ret ())"
    using sendMessage_pipe [OF s(2), of ?p3 cs1 "wire_bytes 307200 1 ?cap"] p
    by (simp add: sendInitRunspacePool_def createInitRunspacePoolMessage_def)
  from waitForOpened_pipe [OF assms(5,6) _ _ _ _ 2(1), of ?p4 ?out E h] assms(9) p idle_new
  obtain cs2 where 4: "concat cs2 = []"
    "waitForOpened E h None ?p4 = Some (accept_opened E (MsgData st) (?p4\<lparr>world := (cs2, ?out)\<rparr>))"
    by auto
  show ?thesis
    using 1 2(2) 3 4 p(1,3,5,6) assms(7,8)
    by (simp add: Open_def Let_def or_broken_def ok_def accept_opened_def RunspacePoolStateOpened_def p(2))
      (simp add: setState_def chan_offer_def)
qed

section \<open>Routing\<close>

lemma update_pipeline_only:
  "update_pipeline i pl p = p\<lparr>pipelines := pipelines (update_pipeline i pl p)\<rparr>"
  "fmdom (pipelines (update_pipeline i pl p)) = fmdom (pipelines p)"
  "j \<noteq> i \<Longrightarrow> fmlookup (pipelines (update_pipeline i pl p)) j = fmlookup (pipelines p) j"
  by (auto simp: update_pipeline_def register_def)

lemma after_delivery_only:
  assumes "after_delivery i d p = (q, r)"
  shows "\<exists>pl. q = update_pipeline i pl p"
  using assms by (cases "(i, d, p)" rule: after_delivery.cases) (auto split: prod.splits outcome.splits)

text \<open>
  C18. Pipelines are isolated from each other. A message that names a pipeline changes the state of
  that pipeline at most: no other pipeline, no field of the pool and not which pipelines there are,
  even if the delivery fails, blocks or panics. A message for a pipeline that the pool does not know
  is dropped.
\<close>

theorem routing_isolated:
  assumes "PipelineID msg \<noteq> uuid_Nil" and "dispatch_message E msg p = (q, r)"
  shows "q = p\<lparr>pipelines := pipelines q\<rparr> \<and> fmdom (pipelines q) = fmdom (pipelines p) \<and>
    (\<forall>j. j \<noteq> PipelineID msg \<longrightarrow> fmlookup (pipelines q) j = fmlookup (pipelines p) j) \<and>
    (fmlookup (pipelines p) (PipelineID msg) = None \<longrightarrow> q = p \<and> r = Ret NextMessage)"
proof (cases "fmlookup (pipelines p) (PipelineID msg)")
  case None
  with assms show ?thesis by (auto simp: dispatch_message_def route_to_pipeline_def)
next
  case (Some pl)
  with assms obtain pl' where "q = update_pipeline (PipelineID msg) pl' p"
    by (auto simp: dispatch_message_def route_to_pipeline_def dest: after_delivery_only)
  then show ?thesis
    using Some update_pipeline_only(1,2) [of "PipelineID msg" pl' p]
      update_pipeline_only(3) [of _ "PipelineID msg" pl' p]
    by (metis option.distinct(1))
qed

section \<open>The connection is lost\<close>

lemma eof_transient:
  "errors_is (EWrap ''read fragment header'' (EIs IoEOF)) IoEOF \<and>
   \<not> isClosedNetworkError (EWrap ''read fragment header'' (EIs IoEOF))"
  by code_simp

text \<open>
  C39. An end of file does not end an opened pool. If the transport of a pool that is opened reports
  the end of its input, the dispatch loop takes it for a transient error: it goes round for ever, each
  time without any change, and neither the pool nor a pipeline that waits for its records is told.
\<close>

theorem eof_spins:
  assumes "poolState (thePool y) = PoolOpened" and "poolCtx (thePool y) = None"
    and "\<And>n. rwRead (poolTransport (thePool y)) n (world (thePool y)) =
      (world (thePool y), [], Some (EIs IoEOF))"
    and "theLoop y = AtReceive"
  shows "receive_and_dispatch E (thePool y) = Some (thePool y, Ret NextMessage) \<and>
    step E h y (y\<lparr>theLoop := AtCheck\<rparr>) \<and> step E h (y\<lparr>theLoop := AtCheck\<rparr>) y"
proof -
  let ?p = "thePool y"
  have "ReadFull (rwRead (poolTransport ?p)) Frag_HeaderSize [] (world ?p) =
      Some (world ?p, Fail (EIs IoEOF))"
    by (subst ReadFull.simps) (simp add: assms(3) Frag_HeaderSize_def)
  then have "read_fragment ?p = Some (?p, Fail (EWrap ''read fragment header'' (EIs IoEOF)))"
    by (simp add: read_fragment_def read_full_def)
  then have "receiveMessage None ?p = Some (?p, Fail (EWrap ''read fragment header'' (EIs IoEOF)))"
    by (subst receiveMessage.simps) simp
  then have r: "receive_and_dispatch E ?p = Some (?p, Ret NextMessage)"
    using assms(1,2) eof_transient
    by (simp add: receive_and_dispatch_def dispatch_error_def transient_def)
  have "step E h y (proceed NextMessage (y\<lparr>thePool := ?p\<rparr>))"
    by (rule step.iteration [OF assms(4) r])
  moreover
  have "step E h (y\<lparr>theLoop := AtCheck\<rparr>) ((y\<lparr>theLoop := AtCheck\<rparr>)\<lparr>theLoop :=
      (if loop_ends (thePool (y\<lparr>theLoop := AtCheck\<rparr>)) then LoopEnded else AtReceive)\<rparr>)"
    by (rule step.check) simp
  moreover have "y\<lparr>theLoop := AtReceive\<rparr> = y" using assms(4) by simp
  ultimately show ?thesis using r assms(1) by (simp add: loop_ends_def)
qed

section \<open>A late message\<close>

lemma registered_then_watched:
  assumes "register_pipeline pl q = (q1, Ret i)" and "poolDone q" and "\<not> pipeDone pl"
  shows "i = pipeID pl \<and> (\<exists>q2. watch_pipeline i q1 = Some (q2, Cancel pl) \<and> fmlookup (pipelines q2) i = None)"
  using assms by (auto simp: register_pipeline_def register_def watch_pipeline_def Let_def
      split: option.splits prod.splits outcome.splits)

lemma unknown_pipeline_dropped:
  "fmlookup (pipelines p) (PipelineID m) = None \<Longrightarrow> PipelineID m \<noteq> uuid_Nil \<Longrightarrow>
   dispatch_message E m p = (p, Ret NextMessage)"
  by (simp add: dispatch_message_def route_to_pipeline_def)

lemma created_in_done_pool:
  assumes "CreatePipeline k cmd q = (q1, Ret i)" and "poolDone q"
  shows "i = k \<and> (\<exists>q2 pl. watch_pipeline k q1 = Some (q2, pl) \<and> pipeCtx pl \<noteq> None \<and> Wait pl = None \<and>
    (\<forall>m. PipelineID m = k \<longrightarrow> k \<noteq> uuid_Nil \<longrightarrow> dispatch_message E m q2 = (q2, Ret NextMessage)))"
proof -
  let ?pl = "NewPipeline k (poolID q) cmd"
  have n: "pipeID ?pl = k" "\<not> pipeDone ?pl" by (simp_all add: constructors)
  from assms(1) have "register_pipeline ?pl q = (q1, Ret i)"
    by (simp add: CreatePipeline_def split: if_splits)
  from registered_then_watched [OF this assms(2) n(2)] n(1) obtain q2 where
    "i = k" "watch_pipeline k q1 = Some (q2, Cancel ?pl)" "fmlookup (pipelines q2) k = None"
    by auto
  moreover have "pipeCtx (Cancel ?pl) \<noteq> None \<and> Wait (Cancel ?pl) = None"
    by (simp add: Cancel_def constructors Wait_def)
  ultimately show ?thesis using unknown_pipeline_dropped [of q2 _ E] by auto
qed

text \<open>
  C40. The end of a pool is not final. If the pool ended while its loop was in a receive, by an
  error in a goroutine that answers a host call, and the message that arrives is a state message that
  says opened, then the pool is opened again, although it is done. Pipelines can be created in it
  (on a multiplexed transport, if that takes the command), but the watcher of each one cancels it and
  takes it out of the pool at once: every message for it is dropped from then on, and \<open>Wait\<close> for it
  still blocks then.
\<close>

theorem ended_pool_reopens:
  assumes "run E h (start_system (NewPoolWithContext ns ctx tr w i)) y" and "poolDone (thePool y)"
    and "theLoop y = AtReceive" and "receiveMessage (poolCtx (thePool y)) (thePool y) = Some (p1, Ret msg)"
    and "PipelineID msg = uuid_Nil" and "MType msg = MessageTypeRunspacePoolState"
    and "parseRunspacePoolState E (MsgData msg) = Ret info" and "siState info = 2"
  shows "\<exists>q. step E h y (y\<lparr>thePool := q, theLoop := AtCheck\<rparr>) \<and> poolState q = PoolOpened \<and> poolDone q \<and>
    (\<forall>k cmd. rwMux (poolTransport q) = None \<longrightarrow> snd (CreatePipeline k cmd q) = Ret k) \<and>
    (\<forall>k cmd q1 i. CreatePipeline k cmd q = (q1, Ret i) \<longrightarrow>
       i = k \<and> (\<exists>q2 pl. watch_pipeline k q1 = Some (q2, pl) \<and> pipeCtx pl \<noteq> None \<and> Wait pl = None \<and>
         (\<forall>m. PipelineID m = k \<longrightarrow> k \<noteq> uuid_Nil \<longrightarrow> dispatch_message E m q2 = (q2, Ret NextMessage))))"
proof -
  let ?q = "emitSecurityEventLocked ''session_lifecycle'' (opened_event E (setState PoolOpened p1))
    (setState PoolOpened p1)"
  have f: "frame (thePool y) p1" using receiveMessage_frame [OF assms(4)] by simp
  have d: "poolDone ?q" using assms(2) frame_fields [OF f] by simp
  have "dispatch_message E msg p1 = (?q, Ret NextMessage)"
    using assms(5-8) by (simp add: dispatch_message_def on_pool_state_def Let_def message_type_defs
        RunspacePoolStateClosed_def RunspacePoolStateBroken_def RunspacePoolStateOpened_def)
  with assms(4) have "receive_and_dispatch E (thePool y) = Some (?q, Ret NextMessage)"
    by (simp add: receive_and_dispatch_def)
  from step.iteration [OF assms(3) this, of h]
  have 1: "step E h y (y\<lparr>thePool := ?q, theLoop := AtCheck\<rparr>)" by simp
  have 2: "poolState ?q = PoolOpened" by simp
  then have 3: "rwMux (poolTransport ?q) = None \<Longrightarrow> snd (CreatePipeline k cmd ?q) = Ret k" for k cmd
    by (simp add: CreatePipeline_def register_pipeline_def register_def constructors Let_def)
  show ?thesis
    by (rule exI [of _ ?q]) (intro conjI allI impI 1 2 3 d created_in_done_pool [OF _ d])
qed

section \<open>Witnesses\<close>

text \<open>
  A pool whose pipe holds one message, and the run that starts its loop up to the receive of that
  message.
\<close>

definition demo_pool :: "message list \<Rightarrow> pipe pool" where
  "demo_pool ms = NewPool Ret pipe_transport ([wire_all 307200 0 ms], []) uuid_Nil"

definition demo_host_call :: message where
  "demo_host_call = NewRunspaceHostCall uuid_Nil []"

definition demo_opened :: message where
  "demo_opened = NewRunspacePoolStateMessage uuid_Nil 2 (bytes_of_string ''<I32>2</I32>'')"

definition demo_capability :: message where
  "demo_capability = NewSessionCapability uuid_Nil (bytes_of_string capability_document)"

lemma demo_answers:
  "parseRunspacePoolState no_env (bytes_of_string ''<I32>2</I32>'') =
     Ret \<lparr>siState = 2, siMinRunspaces = 0, siMaxRunspaces = 0\<rparr> \<and>
   parseCapabilityData no_env (bytes_of_string capability_document) =
     Ret \<lparr>ProtocolVersion = ''2.3'', PSVersion = ''2.0'', SerializationVersion = ''1.1.0.1''\<rparr>"
  by (rule conjI; code_simp)

lemma demo_sendable: "sendable 307200 demo_host_call" "sendable 307200 demo_opened" "sendable 307200 demo_capability"
  using handshake_documents
  by (simp_all add: sendable_def demo_host_call_def demo_opened_def demo_capability_def NewRunspaceHostCall_def
      NewRunspacePoolStateMessage_def NewSessionCapability_def bytes_of_string_def)

definition demo_receiving :: "message list \<Rightarrow> pipe psys" where
  "demo_receiving ms = (start_system (demo_pool ms))\<lparr>thePool := StartDispatchLoop (demo_pool ms), theLoop := AtReceive\<rparr>"

lemma demo_run_receiving: "run no_env fmempty (start_system (demo_pool ms)) (demo_receiving ms)"
proof -
  let ?y = "(start_system (demo_pool ms))\<lparr>thePool := StartDispatchLoop (demo_pool ms)\<rparr>"
  have "step no_env fmempty (start_system (demo_pool ms)) ?y"
    using step.operation [of PStartLoop no_env fmempty "start_system (demo_pool ms)"]
    by (simp add: start_system_def)
  moreover have "step no_env fmempty ?y (?y\<lparr>theLoop := AtCheck\<rparr>)"
    by (rule step.loop_starts) (simp_all add: start_system_def StartDispatchLoop_def)
  moreover have "step no_env fmempty (?y\<lparr>theLoop := AtCheck\<rparr>) (demo_receiving ms)"
    using step.check [of "?y\<lparr>theLoop := AtCheck\<rparr>" no_env fmempty]
    by (simp add: demo_receiving_def loop_ends_def StartDispatchLoop_def demo_pool_def NewPool_def
        NewPoolWithContext_def)
  ultimately show ?thesis by (blast intro: run.here run.further)
qed

lemma demo_pool_new:
  "demo_pool ms = NewPoolWithContext Ret None pipe_transport ([wire_all 307200 0 ms], []) uuid_Nil"
  by (simp add: demo_pool_def NewPool_def)

lemma demo_message:
  assumes "sendable 307200 m" and "poolAssembler p = NewAssembler" and "poolTransport p = pipe_transport"
    and "world p = ([wire_all 307200 0 [m]], [])"
  shows "\<exists>p1. receiveMessage None p = Some (p1, Ret m) \<and> frame p p1"
  using receiveMessage_wire [OF assms(1) _ assms(3,4), of 1 "[]"] assms(2) idle_new
  by (auto simp: frame_def)

lemma demo_fields [simp]:
  "poolCtx (demo_pool ms) = None" "poolTransport (demo_pool ms) = pipe_transport"
  "poolAssembler (demo_pool ms) = NewAssembler" "world (demo_pool ms) = ([wire_all 307200 0 ms], [])"
  "poolDone (demo_pool ms) = False" "pipelines (demo_pool ms) = fmempty"
  "hostCallLimiter (demo_pool ms) = make_chan 64" "poolState (demo_pool ms) = PoolBeforeOpen"
  by (simp_all add: demo_pool_new NewPoolWithContext_def DefaultMaxConcurrentHostCalls_def)

lemma demo_receiving_fields [simp]:
  "thePool (demo_receiving ms) = StartDispatchLoop (demo_pool ms)" "theLoop (demo_receiving ms) = AtReceive"
  "poolCalls (demo_receiving ms) = []"
  by (simp_all add: demo_receiving_def start_system_def)

text \<open>A run in which one call of the pool is being answered.\<close>

theorem pool_invariant_witness:
  "\<exists>y. run no_env fmempty (start_system (demo_pool [demo_host_call])) y \<and> poolCalls y = [demo_host_call] \<and>
     length (chan_queue (hostCallLimiter (thePool y))) = 1 \<and>
     metadata_wait no_env MetadataReply (thePool y) = None"
proof -
  let ?x = "demo_receiving [demo_host_call]"
  obtain p1 where p1: "receiveMessage None (thePool ?x) = Some (p1, Ret demo_host_call)" "frame (thePool ?x) p1"
    using demo_message [OF demo_sendable(1), of "thePool ?x"] by (auto simp: StartDispatchLoop_def)
  from frame_fields(6) [OF p1(2)] have "hostCallLimiter p1 = make_chan 64" by (simp add: StartDispatchLoop_def)
  then obtain q where "dispatch_message no_env demo_host_call p1 = (q, Ret (AnswersPool demo_host_call))"
    by (simp add: dispatch_message_def demo_host_call_def NewRunspaceHostCall_def on_host_call_def
        chan_offer_def message_type_defs)
  with p1(1) have "receive_and_dispatch no_env (thePool ?x) = Some (q, Ret (AnswersPool demo_host_call))"
    by (simp add: receive_and_dispatch_def StartDispatchLoop_def)
  from step.iteration [OF _ this, of fmempty]
  have r: "run no_env fmempty (start_system (demo_pool [demo_host_call]))
      (proceed (AnswersPool demo_host_call) (?x\<lparr>thePool := q\<rparr>))"
    by (intro run.further [OF demo_run_receiving]) simp
  from pool_invariant [OF r [unfolded demo_pool_new]] r show ?thesis
    by (intro exI [of _ "proceed (AnswersPool demo_host_call) (?x\<lparr>thePool := q\<rparr>)"]) simp
qed

text \<open>A pool with a pipeline, adopted while it was connecting.\<close>

theorem pool_end_witness:
  "\<exists>y pl. run no_env fmempty (start_system (demo_pool [])) y \<and> fmlookup (pipelines (thePool y)) uuid_Nil = Some pl \<and>
     (\<exists>q pl'. handleTransportError (EIs IoEOF) (thePool y) = (q, Ret ()) \<and>
        fmlookup (pipelines q) uuid_Nil = Some pl' \<and>
        Wait pl' = Some (Some (EWrap ''runspace pool broken'' (EIs IoEOF)))) \<and>
     (\<exists>q pl'. cleanup PoolClosed None (thePool y) = (q, Ret ()) \<and> poolDone q \<and>
        fmlookup (pipelines q) uuid_Nil = Some pl' \<and> Wait pl' = None)"
proof -
  let ?x = "start_system (demo_pool [])"
  let ?p1 = "(demo_pool [])\<lparr>poolState := PoolOpened\<rparr>"
  let ?y = "?x\<lparr>thePool := ?p1\<lparr>pipelines := fmupd uuid_Nil demo_pipeline fmempty\<rparr>\<rparr>"
  have "ResumeOpened no_env (demo_pool []) = ?p1"
    by (simp add: ResumeOpened_def Let_def emitSecurityEventLocked_def demo_pool_new NewPoolWithContext_def)
  then have 1: "step no_env fmempty ?x (?x\<lparr>thePool := ?p1\<rparr>)"
    using step.operation [of PResumeOpened no_env fmempty ?x] by (simp add: start_system_def)
  have "exec no_env fmempty (PAdopt demo_pipeline) ?p1 =
      Some (?p1\<lparr>pipelines := fmupd uuid_Nil demo_pipeline fmempty\<rparr>, True)"
    by (simp add: AdoptPipeline_def done_with_def ok_def demo_pipeline_def NewWithID_def)
  then have 2: "step no_env fmempty (?x\<lparr>thePool := ?p1\<rparr>) ?y"
    using step.operation [of "PAdopt demo_pipeline" no_env fmempty "?x\<lparr>thePool := ?p1\<rparr>"] by simp
  have r: "run no_env fmempty ?x ?y" by (rule run.further [OF run.further [OF run.here 1] 2])
  have l: "fmlookup (pipelines (thePool ?y)) uuid_Nil = Some demo_pipeline" "\<not> poolDone (thePool ?y)"
    "\<not> terminal (pipeState demo_pipeline)" "Wait demo_pipeline = None"
    by (simp_all add: demo_pipeline_def NewWithID_def Wait_def)
  note e = pool_end [OF r [unfolded demo_pool_new [of "[]"]], folded demo_pool_new, OF l(2), of "EIs IoEOF"]
  from e l(1,3) have "\<exists>q pl'. handleTransportError (EIs IoEOF) (thePool ?y) = (q, Ret ()) \<and>
      fmlookup (pipelines q) uuid_Nil = Some pl' \<and>
      Wait pl' = Some (Some (EWrap ''runspace pool broken'' (EIs IoEOF)))"
    by blast
  moreover from e l(1,4) have "\<exists>q pl'. cleanup PoolClosed None (thePool ?y) = (q, Ret ()) \<and> poolDone q \<and>
      fmlookup (pipelines q) uuid_Nil = Some pl' \<and> Wait pl' = None"
    by metis
  ultimately show ?thesis using r l(1) by blast
qed

theorem open_outcome_witness:
  "\<exists>q e. Open no_env fmempty (Some CtxCanceled) ((demo_pool [])\<lparr>SkipHandshakeSend := True\<rparr>) =
      Some (q, Fail e) \<and> poolState q = PoolBroken"
proof -
  let ?p = "(demo_pool [])\<lparr>SkipHandshakeSend := True\<rparr>"
  have "receiveMessageWithHostCallbacks no_env fmempty (Some CtxCanceled) p = Some (p, Fail (EIs CtxCanceled))"
    for p :: "pipe pool"
    by (subst receiveMessageWithHostCallbacks.simps) (simp add: receiveMessage.simps)
  then have "waitForOpened no_env fmempty (Some CtxCanceled) p = Some (p, Fail (EIs CtxCanceled))"
    for p :: "pipe pool"
    by (subst waitForOpened.simps) simp
  moreover have "setState PoolOpening ?p =
      ?p\<lparr>poolState := PoolOpening, stateCh := Chan 1 [PoolOpening] False\<rparr>"
    by (simp add: demo_pool_new NewPoolWithContext_def setState_def chan_offer_def make_chan_def)
  ultimately obtain q e where o: "Open no_env fmempty (Some CtxCanceled) ?p = Some (q, Fail e)"
    by (simp add: Open_def or_broken_def)
  from open_outcome [OF o] o show ?thesis by simp
qed

theorem open_handshake_witness:
  "\<exists>q. Open no_env fmempty None (demo_pool [demo_capability, demo_opened]) = Some (q, Ret ()) \<and>
     poolState q = PoolOpened \<and> serverProtocolVersion q = ''2.3'' \<and> negotiatedMaxRunspaces q = 1"
  using open_handshake [of demo_capability no_env "\<lparr>ProtocolVersion = ''2.3'', PSVersion = ''2.0'',
      SerializationVersion = ''1.1.0.1''\<rparr>" "''.3''" "[]" demo_opened
      "\<lparr>siState = 2, siMinRunspaces = 0, siMaxRunspaces = 0\<rparr>" 307200
      "[wire_all 307200 0 [demo_capability, demo_opened]]" 0 "demo_pool [demo_capability, demo_opened]"
      Ret uuid_Nil fmempty] demo_answers demo_sendable
  by (auto simp: demo_pool_def demo_capability_def demo_opened_def NewSessionCapability_def
      NewRunspacePoolStateMessage_def)

theorem eof_spins_witness:
  "\<exists>y :: pipe psys. poolState (thePool y) = PoolOpened \<and> step no_env fmempty y (y\<lparr>theLoop := AtCheck\<rparr>) \<and>
     step no_env fmempty (y\<lparr>theLoop := AtCheck\<rparr>) y"
  using eof_spins [of "(demo_receiving [])\<lparr>thePool := (demo_pool [])\<lparr>poolState := PoolOpened, world := ([], [])\<rparr>\<rparr>"
      no_env fmempty]
  by (intro exI [of _ "(demo_receiving [])\<lparr>thePool := (demo_pool [])\<lparr>poolState := PoolOpened, world := ([], [])\<rparr>\<rparr>"])
    (simp add: pipe_transport_def)

theorem ended_pool_reopens_witness:
  "\<exists>y z :: pipe psys. poolDone (thePool y) \<and> poolState (thePool y) = PoolBroken \<and>
     step no_env fmempty y z \<and> poolState (thePool z) = PoolOpened \<and> poolDone (thePool z)"
proof -
  let ?x = "demo_receiving [demo_opened]"
  have ok: "pool_ok (thePool ?x)"
    by (simp add: StartDispatchLoop_def pool_ok_def demo_pool_new NewPoolWithContext_def all_ok_def)
  obtain q where q: "cleanup PoolBroken (Some (EIs IoEOF)) (thePool ?x) = ok q" "poolDone q" "poolState q = PoolBroken"
    "poolCtx q = None"
    using cleanup_eq [OF ok, of PoolBroken "Some (EIs IoEOF)"] by (auto simp: StartDispatchLoop_def)
  have w: "poolAssembler q = NewAssembler" "poolTransport q = pipe_transport"
    "world q = ([wire_all 307200 0 [demo_opened]], [])"
    using q(1) by (auto simp: cleanup_def demo_pool_new NewPoolWithContext_def StartDispatchLoop_def ok_def
        setState_def ended_event_def emitSecurityEventLocked_def Let_def chan_offer_def make_chan_def
        sorted_list_of_fset.rep_eq)
  let ?y = "?x\<lparr>thePool := q\<rparr>"
  have "step no_env fmempty ?x ?y"
    using step.operation [of "PTransportError (EIs IoEOF)" no_env fmempty ?x q] q(1)
    by (simp add: handleTransportError_def done_with_def ok_def)
  with demo_run_receiving have r: "run no_env fmempty (start_system (demo_pool [demo_opened])) ?y"
    by (rule run.further)
  obtain p1 where "receiveMessage None q = Some (p1, Ret demo_opened)"
    using demo_message [OF demo_sendable(2) w] by blast
  with q(4) have m: "receiveMessage (poolCtx (thePool ?y)) (thePool ?y) = Some (p1, Ret demo_opened)" by simp
  have d: "PipelineID demo_opened = uuid_Nil" "MType demo_opened = MessageTypeRunspacePoolState"
    "parseRunspacePoolState no_env (MsgData demo_opened) = Ret \<lparr>siState = 2, siMinRunspaces = 0, siMaxRunspaces = 0\<rparr>"
    using demo_answers by (simp_all add: demo_opened_def NewRunspacePoolStateMessage_def)
  from ended_pool_reopens [OF r [unfolded demo_pool_new] _ _ m d] q(2,3) obtain z where
    "step no_env fmempty ?y (?y\<lparr>thePool := z, theLoop := AtCheck\<rparr>)" "poolState z = PoolOpened" "poolDone z"
    by auto
  then show ?thesis
    using q(2,3) by (intro exI [of _ ?y] exI [of _ "?y\<lparr>thePool := z, theLoop := AtCheck\<rparr>"]) simp
qed

theorem routing_isolated_witness:
  "\<exists>q r. dispatch_message no_env (NewPipelineOutput uuid_Nil (UUID 1 0 0 0 0 0 0 0 0 0 0 0 0 0 0 0) [1])
      ((demo_pool [])\<lparr>pipelines := fmupd uuid_Nil demo_pipeline fmempty\<rparr>) = (q, r) \<and>
    fmlookup (pipelines q) uuid_Nil = Some demo_pipeline"
proof -
  let ?m = "NewPipelineOutput uuid_Nil (UUID 1 0 0 0 0 0 0 0 0 0 0 0 0 0 0 0) [1]"
  let ?p = "(demo_pool [])\<lparr>pipelines := fmupd uuid_Nil demo_pipeline fmempty\<rparr>"
  obtain q r where d: "dispatch_message no_env ?m ?p = (q, r)" by fastforce
  have "PipelineID ?m \<noteq> uuid_Nil" by (simp add: NewPipelineOutput_def uuid_Nil_def)
  from routing_isolated [OF this d] d show ?thesis by (simp add: NewPipelineOutput_def uuid_Nil_def)
qed

end
