(* ===== verification/Adapter_Correct.thy ===== *)
theory Adapter_Correct
  imports Out_Of_Proc_Correct Pool_Theorems
begin

text \<open>
  Conversations over the out-of-process transport, and the adapter that turns them into a stream of
  bytes for a pool.
\<close>

section \<open>One packet from a stream\<close>

lemma newline_byte: "byte_of_char (CHR 0x0A) = newline"
  by (simp add: byte_of_char_def newline_def)

lemma newline_bytes: "newline \<in> set (bytes_of_string s) \<longleftrightarrow> CHR 0x0A \<in> set s"
proof -
  have "newline = byte_of_char c \<longleftrightarrow> c = CHR 0x0A" for c
    by (metis newline_byte char_of_byte_of_char)
  then show ?thesis by (auto simp: bytes_of_string_def image_iff)
qed

context lively_reader
begin

lemma receive_element:
  assumes "alive w" and "oopReader t = rd" and "brErr (oopBuf t) = None"
    and "length (brBuf (oopBuf t)) \<le> bufio_size"
    and "brBuf (oopBuf t) @ remaining w = bytes_of_string (s @ [CHR 0x0A]) @ rest"
    and "element_text s" and "CHR 0x0A \<notin> set s" and "parsePacket E s = Ret pk"
  shows "\<exists>b w1. ReceivePacket E t w = Some ((t\<lparr>oopBuf := b\<rparr>, w1), Ret pk) \<and> alive w1 \<and>
    brErr b = None \<and> length (brBuf b) \<le> bufio_size \<and> brBuf b @ remaining w1 = rest"
proof -
  have "brBuf (oopBuf t) @ remaining w = bytes_of_string s @ newline # rest"
    using assms(5) by (simp add: bytes_of_string_def newline_byte)
  moreover have "newline \<notin> set (bytes_of_string s)" using assms(7) by (simp add: newline_bytes)
  ultimately obtain b w1 where
    r: "bufio_ReadString rd (oopBuf t) w = Some ((b, w1), Ret (bytes_of_string (s @ [CHR 0x0A])))"
      "alive w1" "brErr b = None" "length (brBuf b) \<le> bufio_size" "brBuf b @ remaining w1 = rest"
    using read_line_exact [OF assms(1,3,4), of "bytes_of_string s" rest "[]"]
    by (auto simp: bufio_ReadString_def bytes_of_string_def newline_byte)
  with assms(2,8) element_of_element [OF assms(6)] show ?thesis
    by (intro exI [of _ b] exI [of _ w1]) (subst ReceivePacket.simps, simp)
qed

end

lemma bytes_of_string_Nil [simp]: "bytes_of_string s = [] \<longleftrightarrow> s = []"
  by (simp add: bytes_of_string_def)

section \<open>Conversations\<close>

datatype oop_sent =
    SentData uuid string bytes | SentCommand uuid | SentClose uuid | SentSignal uuid
  | SentDataAck uuid | SentCloseAck uuid | SentSignalAck uuid

fun send_one :: "codec_env \<Rightarrow> 'w oop \<Rightarrow> oop_sent \<Rightarrow> 'w \<Rightarrow> 'w \<times> unit outcome" where
  "send_one E t (SentData i st d) = SendDataWithStream E t i st d"
| "send_one E t (SentCommand i) = SendCommand E t i"
| "send_one E t (SentClose i) = SendClose E t i"
| "send_one E t (SentSignal i) = SendSignal E t i"
| "send_one E t (SentDataAck i) = SendDataAck E t i"
| "send_one E t (SentCloseAck i) = SendCloseAck E t i"
| "send_one E t (SentSignalAck i) = SendSignalAck E t i"

fun send_packets :: "codec_env \<Rightarrow> 'w oop \<Rightarrow> oop_sent list \<Rightarrow> 'w \<Rightarrow> 'w \<times> unit outcome" where
  "send_packets E t [] w = ok w"
| "send_packets E t (x # xs) w = then_do (send_one E t x w) (send_packets E t xs)"

fun receive_packets ::
  "codec_env \<Rightarrow> nat \<Rightarrow> 'w oop \<Rightarrow> 'w \<Rightarrow> (('w oop \<times> 'w) \<times> packet list outcome) option" where
  "receive_packets E 0 t w = Some ((t, w), Ret [])"
| "receive_packets E (Suc n) t w =
     and_run (ReceivePacket E t w) (\<lambda>pk (t, w).
     and_run (receive_packets E n t w) (\<lambda>pks tw. Some (tw, Ret (pk # pks))))"

text \<open>The packet that each of them stands for.\<close>

definition tag_packet :: "string \<Rightarrow> uuid \<Rightarrow> packet" where
  "tag_packet name i = \<lparr>pkType = name, pkGuid = i, pkStream = StreamDefault, pkData = []\<rparr>"

fun sent_packet :: "oop_sent \<Rightarrow> packet" where
  "sent_packet (SentData i st d) = \<lparr>pkType = PacketTypeData, pkGuid = i, pkStream = st, pkData = d\<rparr>"
| "sent_packet (SentCommand i) = tag_packet PacketTypeCommand i"
| "sent_packet (SentClose i) = tag_packet PacketTypeClose i"
| "sent_packet (SentSignal i) = tag_packet PacketTypeSignal i"
| "sent_packet (SentDataAck i) = tag_packet PacketTypeDataAck i"
| "sent_packet (SentCloseAck i) = tag_packet PacketTypeCloseAck i"
| "sent_packet (SentSignalAck i) = tag_packet PacketTypeSignalAck i"

fun good_stream :: "oop_sent \<Rightarrow> bool" where
  "good_stream (SentData i st d) = (st = StreamDefault \<or> st = StreamPromptResponse)"
| "good_stream _ = True"

fun sent_line :: "codec_env \<Rightarrow> oop_sent \<Rightarrow> string" where
  "sent_line E (SentData i st d) = data_line E i st d"
| "sent_line E (SentCommand i) = tag_line E ''Command'' i"
| "sent_line E (SentClose i) = tag_line E ''Close'' i"
| "sent_line E (SentSignal i) = tag_line E ''Signal'' i"
| "sent_line E (SentDataAck i) = tag_line E ''DataAck'' i"
| "sent_line E (SentCloseAck i) = tag_line E ''CloseAck'' i"
| "sent_line E (SentSignalAck i) = tag_line E ''SignalAck'' i"

definition sent_bytes :: "codec_env \<Rightarrow> oop_sent list \<Rightarrow> bytes" where
  "sent_bytes E xs = concat (map (\<lambda>x. bytes_of_string (sent_line E x)) xs)"

lemmas send_defs =
  SendDataWithStream_def SendCommand_def SendClose_def SendSignal_def SendDataAck_def
  SendCloseAck_def SendSignalAck_def

lemma send_one_line: "send_one E t x w = oop_write t (sent_line E x) w"
  by (cases x) (simp_all add: send_defs)

lemma send_packets_pipe:
  "oopWriter t = pipe_write \<Longrightarrow> send_packets E t xs (cs, out) = ((cs, out @ sent_bytes E xs), Ret ())"
  by (induction xs arbitrary: out) (simp_all add: send_one_line oop_write_def sent_bytes_def ok_def)

lemma sent_line_parsed:
  assumes "guid_text E" and "good_stream x"
  shows "\<exists>s. sent_line E x = s @ [CHR 0x0A] \<and> element_text s \<and> CHR 0x0A \<notin> set s \<and>
    parsePacket E s = Ret (sent_packet x)"
proof -
  have g: "CHR 0x0A \<notin> set (formatGUID E i)" for i by (rule guid_text.specials(4) [OF assms(1)])
  have tag: "\<exists>s. tag_line E name i = s @ [CHR 0x0A] \<and> element_text s \<and> CHR 0x0A \<notin> set s \<and>
      parsePacket E s = Ret (tag_packet name i)" if "name \<in> set tag_names" for name i
  proof -
    from guid_text.parse_tag [OF assms(1) that] obtain s where
      s: "tag_line E name i = s @ [CHR 0x0A]" "element_text s" "parsePacket E s = Ret (tag_packet name i)"
      by (auto simp: tag_packet_def)
    have "CHR 0x0A \<notin> set name" using that by (auto simp: tag_names_def packet_type_defs)
    with s(1) g have "CHR 0x0A \<notin> set s" by (auto simp: tag_line_def)
    with s show ?thesis by blast
  qed
  show ?thesis
  proof (cases x)
    case (SentData i st d)
    with assms(2) have st: "st = StreamDefault \<or> st = StreamPromptResponse" by simp
    from guid_text.parse_data [OF assms(1) this] obtain s where
      s: "data_line E i st d = s @ [CHR 0x0A]" "element_text s" "parsePacket E s = Ret (sent_packet x)"
      using SentData by auto
    have "CHR 0x0A \<notin> set (b64_encode d)" using b64_encode_chars by fastforce
    then have "CHR 0x0A \<notin> set s"
      using s(1) g st by (auto simp: data_line_def StreamDefault_def StreamPromptResponse_def)
    with s SentData show ?thesis by auto
  qed (use tag in \<open>simp_all add: tag_names_def packet_type_defs\<close>)
qed

context lively_reader
begin

lemma receive_packets_exact:
  assumes "guid_text E" and "list_all good_stream xs"
    and "alive w" and "oopReader t = rd" and "brErr (oopBuf t) = None"
    and "length (brBuf (oopBuf t)) \<le> bufio_size"
    and "brBuf (oopBuf t) @ remaining w = sent_bytes E xs @ rest"
  shows "\<exists>b w1. receive_packets E (length xs) t w = Some ((t\<lparr>oopBuf := b\<rparr>, w1), Ret (map sent_packet xs)) \<and>
    alive w1 \<and> brErr b = None \<and> length (brBuf b) \<le> bufio_size \<and> brBuf b @ remaining w1 = rest"
  using assms(2-)
proof (induction xs arbitrary: t w)
  case Nil
  then show ?case by (intro exI [of _ "oopBuf t"] exI [of _ w]) (simp add: sent_bytes_def)
next
  case (Cons x xs)
  from sent_line_parsed [OF assms(1), of x] Cons.prems(1) obtain s where
    s: "sent_line E x = s @ [CHR 0x0A]" "element_text s" "CHR 0x0A \<notin> set s" "parsePacket E s = Ret (sent_packet x)"
    by auto
  from receive_element [OF Cons.prems(2-5) _ s(2-4), of "sent_bytes E xs @ rest"] Cons.prems(6) s(1)
  obtain b w1 where r: "ReceivePacket E t w = Some ((t\<lparr>oopBuf := b\<rparr>, w1), Ret (sent_packet x))" "alive w1"
    "brErr b = None" "length (brBuf b) \<le> bufio_size" "brBuf b @ remaining w1 = sent_bytes E xs @ rest"
    by (auto simp: sent_bytes_def)
  from Cons.IH [of w1 "t\<lparr>oopBuf := b\<rparr>"] Cons.prems(1,3) r(2-5) obtain b2 w2 where
    "receive_packets E (length xs) (t\<lparr>oopBuf := b\<rparr>) w1 = Some ((t\<lparr>oopBuf := b2\<rparr>, w2), Ret (map sent_packet xs))"
    "alive w2" "brErr b2 = None" "length (brBuf b2) \<le> bufio_size" "brBuf b2 @ remaining w2 = rest"
    by auto
  with r(1) show ?case by (intro exI [of _ b2] exI [of _ w2]) simp
qed

end

interpretation lively_pipe: lively_reader pipe_read "\<lambda>w. concat (fst w)"
  "\<lambda>w. [] \<notin> set (fst w) \<and> snd w = out" for out
proof
  fix w w1 :: pipe and bs err and n :: nat
  assume a: "[] \<notin> set (fst w) \<and> snd w = out" and "concat (fst w) \<noteq> []" "0 < n"
    and rd: "pipe_read n w = (w1, bs, err)"
  obtain cs where w: "w = (cs, out)" using a by (cases w) auto
  obtain cs' where c: "chunk_read n cs = (cs', bs, err)" "w1 = (cs', out)"
    using rd w by (auto split: prod.splits)
  from lively_chunks.read_prefix [OF _ _ \<open>0 < n\<close> c(1)] a \<open>concat (fst w) \<noteq> []\<close> w c(2)
  show "err = None \<and> bs @ concat (fst w1) = concat (fst w) \<and> length bs \<le> n \<and>
      ([] \<notin> set (fst w1) \<and> snd w1 = out) \<and> (bs = [] \<longrightarrow> (0::nat) < 0)"
    by auto
qed

text \<open>
  C10. The out-of-process framing loses nothing: whatever packets one side sends, data for any GUID on
  either stream, commands, closes, signals and acknowledgements, \<open>ReceivePacket\<close> of the other side
  returns them one by one, with their types, GUIDs, streams and data, in whatever pieces the lines
  arrive. The \<open>uuid\<close> package is relied on for texts of hexadecimal digits that it parses back.
\<close>

theorem packets_received:
  assumes "guid_text E" and "list_all good_stream xs"
    and "send_packets E (NewTransport pipe_read pipe_write) xs (cs, []) = ((cs', out), r)"
    and "concat chunked = out" and "[] \<notin> set chunked"
  shows "r = Ret () \<and>
    (\<exists>t w. receive_packets E (length xs) (NewTransport pipe_read pipe_write) (chunked, out') =
       Some ((t, w), Ret (map sent_packet xs)) \<and> brBuf (oopBuf t) @ concat (fst w) = [])"
proof -
  let ?t = "NewTransport pipe_read pipe_write"
  have s: "cs' = cs" "out = sent_bytes E xs" "r = Ret ()"
    using assms(3) send_packets_pipe [of ?t E xs cs "[]"] by (auto simp: NewTransport_def)
  from lively_pipe.receive_packets_exact [OF assms(1,2), of "(chunked, out')" out' ?t "[]"] assms(4,5) s
  obtain b w1 where "receive_packets E (length xs) ?t (chunked, out') = Some ((?t\<lparr>oopBuf := b\<rparr>, w1), Ret (map sent_packet xs))"
    "brBuf b @ concat (fst w1) = []"
    by (auto simp: NewTransport_def NewReader_def bufio_size_def)
  with s(3) show ?thesis by auto
qed

section \<open>The adapter\<close>

text \<open>Iterations of the read loop, until it ends.\<close>

fun read_loop :: "codec_env \<Rightarrow> nat \<Rightarrow> 'w adapter \<Rightarrow> ('w adapter \<times> bool outcome) option" where
  "read_loop E 0 a = Some (a, Ret True)"
| "read_loop E (Suc n) a =
     (case readLoop_once E a of
        Some (a1, Ret True) \<Rightarrow> read_loop E n a1
      | r \<Rightarrow> r)"

lemma read_loop_more: "read_loop E m x = Some (y, Ret True) \<Longrightarrow> read_loop E (Suc m) x = readLoop_once E y"
proof (induction m arbitrary: x)
  case 0
  then show ?case by (auto split: option.splits prod.splits outcome.splits bool.splits)
next
  case (Suc m)
  from Suc.prems obtain z where "readLoop_once E x = Some (z, Ret True)" "read_loop E m z = Some (y, Ret True)"
    by (auto split: option.splits prod.splits outcome.splits bool.splits if_splits)
  with Suc.IH show ?case by (subst read_loop.simps(2)) (simp del: read_loop.simps)
qed

text \<open>\<open>Read\<close> of an adapter whose loop has stored data: a reader of the stored bytes.\<close>

definition stored :: "'w adapter \<Rightarrow> bytes" where
  "stored a = concat (adPending a)"

interpretation adapter_reader: byte_reader "rwRead (adapter_transport E)" stored
  "\<lambda>a. length (adPending a)" "\<lambda>a. \<exists>ps. a = (a0\<lparr>adPending := ps\<rparr>)" for E a0
proof
  fix w w1 :: "'a adapter" and bs err and n :: nat
  assume "\<exists>ps. w = a0\<lparr>adPending := ps\<rparr>" and "stored w \<noteq> []" and "0 < n"
    and "rwRead (adapter_transport E) n w = (w1, bs, err)"
  then show "err = None \<and> bs @ stored w1 = stored w \<and> length bs \<le> n \<and>
      (\<exists>ps. w1 = a0\<lparr>adPending := ps\<rparr>) \<and> (bs = [] \<longrightarrow> length (adPending w1) < length (adPending w))"
    by (cases "adPending w")
      (auto simp: stored_def adapter_transport_def adapter_ready_def split: if_splits)
qed

text \<open>The sends of a client over an adapter: fragments of the session, and of pipelines.\<close>

fun adapter_sends :: "codec_env \<Rightarrow> (uuid option \<times> bytes) list \<Rightarrow> 'w adapter \<Rightarrow> 'w adapter \<times> unit outcome" where
  "adapter_sends E [] a = ok a"
| "adapter_sends E ((None, d) # ds) a = then_do (adapter_write E d a) (adapter_sends E ds)"
| "adapter_sends E ((Some i, d) # ds) a = then_do (SendPipelineData E i d a) (adapter_sends E ds)"

definition sent_data :: "(uuid option \<times> bytes) list \<Rightarrow> oop_sent list" where
  "sent_data ds = map (\<lambda>(i, d). SentData (case i of None \<Rightarrow> NullGUID | Some j \<Rightarrow> j) StreamDefault d) ds"

definition sent_acks :: "(uuid option \<times> bytes) list \<Rightarrow> oop_sent list" where
  "sent_acks ds = map (\<lambda>(i, d). SentDataAck (case i of None \<Rightarrow> NullGUID | Some j \<Rightarrow> j)) ds"

lemma sent_lists [simp]:
  "sent_data [] = []" "sent_acks [] = []" "sent_bytes E [] = []" "length (sent_data ds) = length ds"
  "sent_bytes E (x # xs) = bytes_of_string (sent_line E x) @ sent_bytes E xs"
  by (simp_all add: sent_data_def sent_acks_def sent_bytes_def)

lemma adapter_sends_pipe:
  assumes "oopWriter (adTransport a) = pipe_write" and "adWorld a = (cs, out)"
  shows "adapter_sends E ds a = (a\<lparr>adWorld := (cs, out @ sent_bytes E (sent_data ds))\<rparr>, Ret ())"
  using assms
proof (induction ds arbitrary: a out)
  case (Cons x ds)
  obtain i d where x: "x = (i, d)" by fastforce
  let ?o = "out @ bytes_of_string (data_line E (case i of None \<Rightarrow> NullGUID | Some j \<Rightarrow> j) StreamDefault d)"
  have "adapter_sends E (x # ds) a = adapter_sends E ds (a\<lparr>adWorld := (cs, ?o)\<rparr>)"
    using Cons.prems by (cases i) (simp_all add: x adapter_write_def SendPipelineData_def through_def
        SendData_def SendDataWithStream_def oop_write_def)
  with Cons.IH [of "a\<lparr>adWorld := (cs, ?o)\<rparr>" ?o] Cons.prems show ?case
    by (simp add: x sent_data_def)
qed (simp add: ok_def)

lemma read_loop_data:
  assumes "guid_text E" and "adCtx a = None" and "oopReader (adTransport a) = pipe_read"
    and "oopWriter (adTransport a) = pipe_write" and "brErr (oopBuf (adTransport a)) = None"
    and "length (brBuf (oopBuf (adTransport a))) \<le> bufio_size"
    and "adWorld a = (cs, out)" and "[] \<notin> set cs"
    and "brBuf (oopBuf (adTransport a)) @ concat cs = sent_bytes E (sent_data ds)"
  shows "\<exists>a'. read_loop E (length ds) a = Some (a', Ret True) \<and> adPending a' = adPending a @ map snd ds \<and>
    adCtx a' = None \<and> adReadErr a' = adReadErr a \<and> adClosed a' = adClosed a \<and>
    oopReader (adTransport a') = pipe_read \<and> oopBuf (adTransport a') = NewReader \<and>
    adWorld a' = ([], out @ sent_bytes E (sent_acks ds))"
  using assms(2-)
proof (induction ds arbitrary: a cs out)
  case Nil
  have "concat cs = [] \<longrightarrow> cs = []" using Nil.prems(7) by (cases cs) auto
  with Nil.prems show ?case by (cases "oopBuf (adTransport a)") (simp add: NewReader_def)
next
  case (Cons x ds)
  obtain i d where x: "x = (i, d)" by fastforce
  let ?i = "case i of None \<Rightarrow> NullGUID | Some j \<Rightarrow> j"
  let ?pk = "\<lparr>pkType = PacketTypeData, pkGuid = ?i, pkStream = StreamDefault, pkData = d\<rparr>"
  have b: "brBuf (oopBuf (adTransport a)) @ concat cs =
      bytes_of_string (sent_line E (SentData ?i StreamDefault d)) @ sent_bytes E (sent_data ds)"
    using Cons.prems(8) by (simp add: x sent_data_def)
  from sent_line_parsed [OF assms(1), of "SentData ?i StreamDefault d"] obtain s where
    s: "sent_line E (SentData ?i StreamDefault d) = s @ [CHR 0x0A]" "element_text s" "CHR 0x0A \<notin> set s"
      "parsePacket E s = Ret ?pk"
    by auto
  from lively_pipe.receive_element [of "(cs, out)" out "adTransport a" s "sent_bytes E (sent_data ds)", OF _ _ _ _ _ s(2-4)]
    Cons.prems b s(1)
  obtain buf cs1 where r: "ReceivePacket E (adTransport a) (cs, out) =
      Some (((adTransport a)\<lparr>oopBuf := buf\<rparr>, (cs1, out)), Ret ?pk)" "[] \<notin> set cs1"
    "brErr buf = None" "length (brBuf buf) \<le> bufio_size" "brBuf buf @ concat cs1 = sent_bytes E (sent_data ds)"
    by auto
  let ?ack = "bytes_of_string (tag_line E ''DataAck'' ?i)"
  let ?a = "wake_reader (a\<lparr>adTransport := (adTransport a)\<lparr>oopBuf := buf\<rparr>, adWorld := (cs1, out @ ?ack),
    adPending := adPending a @ [d]\<rparr>)"
  have "readLoop_once E a = Some (?a, Ret True)"
    using Cons.prems(1,3,6) r(1)
    by (simp add: readLoop_once_def on_packet_def best_effort_def SendDataAck_def oop_write_def)
  moreover have f: "adPending (wake_reader q) = adPending q" "adCtx (wake_reader q) = adCtx q"
    "adReadErr (wake_reader q) = adReadErr q" "adClosed (wake_reader q) = adClosed q"
    "adTransport (wake_reader q) = adTransport q" "adWorld (wake_reader q) = adWorld q" for q :: "pipe adapter"
    by (simp_all add: wake_reader_def)
  ultimately show ?case
    using Cons.IH [of ?a cs1 "out @ ?ack"] Cons.prems r(2-5) by (simp add: f x sent_acks_def)
qed

text \<open>At the end of the input the loop ends too.\<close>

lemma read_loop_end:
  assumes "adCtx a = None" and "oopReader (adTransport a) = pipe_read" and "oopBuf (adTransport a) = NewReader"
    and "adWorld a = ([], out)"
  shows "\<exists>a'. readLoop_once E a = Some (a', Ret False) \<and> adPending a' = adPending a \<and>
    adReadErr a' = Some (EIs IoEOF) \<and> adClosed a' \<and> readLoopDone a' \<and> adWorld a' = ([], out)"
proof -
  have f: "bufio_fill pipe_read 100 NewReader ([], out) = (NewReader\<lparr>brErr := Some (EIs IoEOF)\<rparr>, ([], out))"
    by (simp add: numeral_eq_Suc NewReader_def bufio_size_def)
  have n: "split_line [] = None" by (simp add: split_line_def)
  have "read_line pipe_read [] (NewReader\<lparr>brErr := Some (EIs IoEOF)\<rparr>) ([], out) =
      Some ((NewReader, ([], out)), Fail (EIs IoEOF))"
    by (subst read_line.simps) (simp add: NewReader_def n)
  with f have "bufio_ReadString pipe_read NewReader ([], out) = Some ((NewReader, ([], out)), Fail (EIs IoEOF))"
    unfolding bufio_ReadString_def by (subst read_line.simps) (simp add: NewReader_def n bufio_size_def)
  then have "ReceivePacket E (adTransport a) (adWorld a) =
      Some (((adTransport a)\<lparr>oopBuf := NewReader\<rparr>, ([], out)), Fail (EIs IoEOF))"
    using assms(2-4) by (subst ReceivePacket.simps) simp
  then show ?thesis using assms(1)
    by (simp add: readLoop_once_def readLoop_exit_def wake_reader_def)
qed

text \<open>
  C11. From adapter to adapter: the fragments that one adapter writes, for the session and for
  pipelines, come out of \<open>Read\<close> of the other as one stream of the same bytes in the same order, in
  whatever pieces the lines travel and whatever the sizes of the reads; each packet is answered by
  one DataAck for its GUID; and when the connection ends, the loop ends, what was received can
  still be read, and after it \<open>Read\<close> reports the end of the file without blocking.
\<close>

theorem adapter_to_adapter:
  assumes "guid_text E" and "a = NewAdapter (NewTransport pipe_read pipe_write) i (cs, [])"
    and "adapter_sends E ds a = (a', r)" and "concat chunked = snd (adWorld a')" and "[] \<notin> set chunked"
    and "b = NewAdapter (NewTransport pipe_read pipe_write) j (chunked, [])" and "n \<le> length (concat (map snd ds))"
  shows "r = Ret () \<and>
    (\<exists>b'. read_loop E (length ds + 1) b = Some (b', Ret False) \<and>
       snd (adWorld b') = sent_bytes E (sent_acks ds) \<and>
       (\<exists>c. ReadFull (rwRead (adapter_transport E)) n [] b' =
              Some (c, Ret (take n (concat (map snd ds)))) \<and> stored c = drop n (concat (map snd ds))) \<and>
       (\<forall>k. rwRead (adapter_transport E) k (b'\<lparr>adPending := []\<rparr>) =
              (b'\<lparr>adPending := []\<rparr>, [], Some (EIs IoEOF))))"
proof -
  note new = NewAdapter_def NewAdapterWithContext_def NewTransport_def
  have s: "r = Ret ()" "concat chunked = sent_bytes E (sent_data ds)"
    using adapter_sends_pipe [of a cs "[]" E ds] assms(2-4) by (auto simp: new)
  from read_loop_data [OF assms(1), of b chunked "[]" ds] s(2) assms(5,6) obtain b1 where
    b1: "read_loop E (length ds) b = Some (b1, Ret True)" "adPending b1 = map snd ds" "adCtx b1 = None"
      "oopReader (adTransport b1) = pipe_read" "oopBuf (adTransport b1) = NewReader"
      "adWorld b1 = ([], sent_bytes E (sent_acks ds))"
    by (auto simp: new NewReader_def bufio_size_def)
  from read_loop_end [OF b1(3-6), of E] obtain b' where
    b': "readLoop_once E b1 = Some (b', Ret False)" "adPending b' = map snd ds" "adReadErr b' = Some (EIs IoEOF)"
      "adWorld b' = ([], sent_bytes E (sent_acks ds))"
    using b1(2) by auto
  have "\<exists>ps. b' = b'\<lparr>adPending := ps\<rparr>" by (rule exI [of _ "adPending b'"]) simp
  from adapter_reader.ReadFull_prefix [OF this, of "[]" n E] assms(7) b'(2)
  obtain c where "ReadFull (rwRead (adapter_transport E)) n [] b' = Some (c, Ret (take n (concat (map snd ds))))"
    "stored c = drop n (concat (map snd ds))"
    by (auto simp: stored_def)
  with s(1) read_loop_more [OF b1(1)] b' show ?thesis by (auto simp: adapter_transport_def adapter_ready_def)
qed

section \<open>An idle pool\<close>

lemma idle_read:
  assumes "adPending a = []" and "adReadErr a = None" and "\<not> adClosed a" and "0 < n"
  shows "ReadFull (rwRead (adapter_transport E)) n [] a = Some (a, Fail read_timeout)"
  using assms by (subst ReadFull.simps) (simp add: adapter_transport_def adapter_ready_def read_timeout_def)

lemma timeout_not_transient: "\<not> transient (EWrap ''read fragment header'' read_timeout)"
  by (simp add: transient_def isTimeoutError_def read_timeout_def)

text \<open>
  C19. An idle connection breaks the pool. If nothing arrives for the 30 seconds after which \<open>Read\<close> of
  the adapter gives up, the dispatch loop of the pool does not take the error for a timeout: it
  breaks the pool, ends, and fails every pipeline, also one that runs a command without output.
\<close>

theorem idle_adapter_breaks_pool:
  assumes "run E h (start_system (NewPoolWithContext ns ctx tr w i)) y" and "theLoop y = AtReceive"
    and "\<not> poolDone (thePool y)" and "poolCtx (thePool y) = None"
    and "poolTransport (thePool y) = adapter_transport E" and "world (thePool y) = a"
    and "adPending a = []" and "adReadErr a = None" and "\<not> adClosed a"
  shows "\<exists>q. step E h y (y\<lparr>thePool := q, theLoop := LoopEnded\<rparr>) \<and> poolState q = PoolBroken \<and> poolDone q \<and>
    (\<forall>k pl. fmlookup (pipelines (thePool y)) k = Some pl \<and> \<not> terminal (pipeState pl) \<longrightarrow>
      (\<exists>pl'. fmlookup (pipelines q) k = Some pl' \<and> Wait pl' = Some (Some
         (EWrap ''runspace pool broken'' (EWrap ''read fragment header'' read_timeout)))))"
proof -
  let ?p = "thePool y" and ?e = "EWrap ''read fragment header'' read_timeout"
  have ok: "pool_ok ?p" using run_ok [OF assms(1) sys_ok_new] by (simp add: sys_ok_def)
  have pl: "pipe_ok pl" if "fmlookup (pipelines ?p) k = Some pl" for k pl
    using that ok by (auto simp: pool_ok_def all_ok_def)
  have "ReadFull (rwRead (adapter_transport E)) Frag_HeaderSize [] a = Some (a, Fail read_timeout)"
    by (rule idle_read [OF assms(7-9)]) (simp add: Frag_HeaderSize_def)
  then have "read_fragment ?p = Some (?p, Fail ?e)"
    using assms(5,6) by (simp add: read_fragment_def read_full_def)
  then have "receiveMessage None ?p = Some (?p, Fail ?e)" by (subst receiveMessage.simps) simp
  moreover obtain q where q: "cleanup PoolBroken (Some ?e) ?p = ok q" "poolDone q" "poolState q = PoolBroken"
    "pipelines q = end_all (Some ?e) (pipelines ?p)"
    using cleanup_eq [OF ok, of PoolBroken "Some ?e"] assms(3) by auto
  ultimately have "receive_and_dispatch E ?p = Some (q, Ret ExitLoop)"
    using assms(4) timeout_not_transient
    by (simp add: receive_and_dispatch_def dispatch_error_def handleTransportError_def exiting_def ok_def)
  from step.iteration [OF assms(2) this, of h]
  have "step E h y (y\<lparr>thePool := q, theLoop := LoopEnded\<rparr>)" by simp
  moreover have "Wait (ended (Some ?e) pl) = Some (Some (EWrap ''runspace pool broken'' ?e))"
    if "fmlookup (pipelines ?p) k = Some pl" "\<not> terminal (pipeState pl)" for k pl
    using ended_broken [OF pl [OF that(1)], of ?e] that(2) by simp
  ultimately show ?thesis using q by (intro exI [of _ q]) (auto simp: end_all_def)
qed

section \<open>Witnesses\<close>

text \<open>The texts of GUIDs of RFC 9562, and the packages' functions for them.\<close>

definition hex_char :: "nat \<Rightarrow> char" where
  "hex_char n = ''0123456789abcdef'' ! n"

definition hex_nibble :: "char \<Rightarrow> nat option" where
  "hex_nibble c =
     (if 48 \<le> code c \<and> code c \<le> 57 then Some (code c - 48)
      else if 97 \<le> code c \<and> code c \<le> 102 then Some (code c - 87) else None)"

definition byte_hex :: "byte \<Rightarrow> string" where
  "byte_hex b = [hex_char (unat b div 16), hex_char (unat b mod 16)]"

fun unhex :: "string \<Rightarrow> bytes option" where
  "unhex (c # d # cs) =
     (case (hex_nibble c, hex_nibble d, unhex cs) of
        (Some x, Some y, Some bs) \<Rightarrow> Some (of_nat (x * 16 + y) # bs)
      | _ \<Rightarrow> None)"
| "unhex [] = Some []"
| "unhex [c] = None"

definition guid_string :: "uuid \<Rightarrow> string" where
  "guid_string u =
     (let h = (\<lambda>i j. concat (map byte_hex (slice (uuid_bytes u) i j))) in
      h 0 4 @ ''-'' @ h 4 6 @ ''-'' @ h 6 8 @ ''-'' @ h 8 10 @ ''-'' @ h 10 16)"

definition guid_parse :: "string \<Rightarrow> uuid option" where
  "guid_parse s =
     (case unhex (filter (\<lambda>c. c \<noteq> CHR ''-'') s) of
        Some [a, b, c, d, e, f, g, h, i, j, k, l, m, n, p, q] \<Rightarrow> Some (UUID a b c d e f g h i j k l m n p q)
      | _ \<Rightarrow> None)"

definition guid_env :: codec_env where
  "guid_env = no_env\<lparr>uuid_String := guid_string, uuid_Parse := guid_parse\<rparr>"

lemma hex_table:
  "map (\<lambda>n. hex_nibble (hex_char n)) [0..<16] = map Some [0..<16] \<and>
   list_all (\<lambda>n. hex_char n \<in> set guid_chars \<and> ascii_lower (hex_char n) = hex_char n \<and> hex_char n \<noteq> CHR ''-'') [0..<16]"
  by (rule conjI; code_simp)

lemma hex_char_facts:
  assumes "n < 16"
  shows "hex_nibble (hex_char n) = Some n" "hex_char n \<in> set guid_chars"
    "ascii_lower (hex_char n) = hex_char n" "hex_char n \<noteq> CHR ''-''"
  using hex_table assms by (auto simp: list_all_iff map_eq_conv)

lemma nibbles [simp]: "unat (b :: byte) div 16 < 16" "unat (b :: byte) mod 16 < 16"
proof -
  have "unat b < 256" by simp
  then show "unat b div 16 < 16" by linarith
qed simp

lemma byte_hex_facts [simp]:
  "set (byte_hex b) \<subseteq> set guid_chars" "map ascii_lower (byte_hex b) = byte_hex b"
  "filter (\<lambda>c. c \<noteq> CHR ''-'') (byte_hex b) = byte_hex b"
  "unhex (byte_hex b @ cs) = map_option ((#) b) (unhex cs)"
proof -
  have "(of_nat (unat b div 16 * 16 + unat b mod 16) :: byte) = b" by (simp only: div_mult_mod_eq) simp
  then show "unhex (byte_hex b @ cs) = map_option ((#) b) (unhex cs)"
    by (simp add: byte_hex_def hex_char_facts split: option.split)
qed (simp_all add: byte_hex_def hex_char_facts)

interpretation rfc_guids: guid_text guid_env
proof
  fix i
  obtain a b c d e f g h j k l m n p q r where i: "i = UUID a b c d e f g h j k l m n p q r" by (cases i)
  have lower: "formatGUID guid_env i = guid_string i"
    by (simp add: formatGUID_def guid_env_def strings_ToLower_def guid_string_def i slice_def ascii_lower_def)
  show "set (formatGUID guid_env i) \<subseteq> set guid_chars"
    unfolding lower using byte_hex_facts(1) by (simp add: guid_string_def i slice_def guid_chars_def)
  have "unhex (filter (\<lambda>c. c \<noteq> CHR ''-'') (guid_string i)) =
      Some [a, b, c, d, e, f, g, h, j, k, l, m, n, p, q, r]"
    using byte_hex_facts(4) [of r "[]"] by (simp add: guid_string_def i slice_def)
  then show "uuid_Parse guid_env (formatGUID guid_env i) = Some i"
    unfolding lower by (simp add: guid_env_def guid_parse_def i)
qed

theorem packets_received_witness:
  "\<exists>t w. receive_packets guid_env 2 (NewTransport pipe_read pipe_write)
       ([sent_bytes guid_env [SentCommand uuid_Nil, SentData uuid_Nil StreamDefault [1, 2]]], []) =
     Some ((t, w), Ret [tag_packet PacketTypeCommand uuid_Nil,
       \<lparr>pkType = PacketTypeData, pkGuid = uuid_Nil, pkStream = StreamDefault, pkData = [1, 2]\<rparr>])"
proof -
  let ?xs = "[SentCommand uuid_Nil, SentData uuid_Nil StreamDefault [1, 2]]"
  have "send_packets guid_env (NewTransport pipe_read pipe_write) ?xs ([], []) = (([], sent_bytes guid_env ?xs), Ret ())"
    using send_packets_pipe [of "NewTransport pipe_read pipe_write" guid_env ?xs "[]" "[]"]
    by (simp add: NewTransport_def)
  moreover have "[] \<notin> set [sent_bytes guid_env ?xs]" by (simp add: tag_line_def)
  ultimately show ?thesis
    using packets_received [OF rfc_guids.guid_text_axioms, of ?xs "[]" "[]" "sent_bytes guid_env ?xs" "Ret ()"
        "[sent_bytes guid_env ?xs]" "[]"]
    by (auto simp: numeral_2_eq_2)
qed

theorem adapter_to_adapter_witness:
  "\<exists>b'. read_loop guid_env 3 (NewAdapter (NewTransport pipe_read pipe_write) uuid_Nil
       ([sent_bytes guid_env (sent_data [(None, [1, 2]), (Some uuid_Nil, [3])])], [])) = Some (b', Ret False) \<and>
     (\<exists>c. ReadFull (rwRead (adapter_transport guid_env)) 2 [] b' = Some (c, Ret [1, 2]) \<and> stored c = [3])"
proof -
  let ?ds = "[(None, [1, 2]), (Some uuid_Nil, [3])] :: (uuid option \<times> bytes) list"
  let ?a = "NewAdapter (NewTransport pipe_read pipe_write) uuid_Nil ([], [])"
  have s: "adapter_sends guid_env ?ds ?a = (?a\<lparr>adWorld := ([], sent_bytes guid_env (sent_data ?ds))\<rparr>, Ret ())"
    using adapter_sends_pipe [of ?a "[]" "[]" guid_env ?ds]
    by (simp add: NewAdapter_def NewAdapterWithContext_def NewTransport_def del: adapter_sends.simps)
  have n: "[] \<notin> set [sent_bytes guid_env (sent_data ?ds)]" by (simp add: sent_data_def data_line_def)
  have "(2::nat) \<le> length (concat (map snd ?ds))" by simp
  from adapter_to_adapter [OF rfc_guids.guid_text_axioms refl s _ n refl this, of uuid_Nil]
  show ?thesis by (auto simp: numeral_3_eq_3)
qed

theorem idle_adapter_breaks_pool_witness:
  "\<exists>y z :: pipe adapter psys. poolState (thePool y) = PoolOpened \<and> step no_env fmempty y z \<and>
     theLoop z = LoopEnded \<and> poolState (thePool z) = PoolBroken"
proof -
  let ?a = "NewAdapter (NewTransport pipe_read pipe_write) uuid_Nil ([], [])"
  let ?p = "NewPoolWithContext Ret None (adapter_transport no_env) ?a uuid_Nil"
  let ?x = "start_system ?p"
  let ?q = "?p\<lparr>poolState := PoolOpened, dispatchLoopStarted := True\<rparr>"
  let ?x1 = "?x\<lparr>thePool := ?p\<lparr>poolState := PoolOpened\<rparr>\<rparr>"
  let ?x2 = "?x\<lparr>thePool := ?q\<rparr>"
  have "ResumeOpened no_env ?p = ?p\<lparr>poolState := PoolOpened\<rparr>"
    by (simp add: ResumeOpened_def Let_def emitSecurityEventLocked_def NewPoolWithContext_def)
  then have 1: "step no_env fmempty ?x ?x1"
    using step.operation [of PResumeOpened no_env fmempty ?x] by (simp add: start_system_def)
  have 2: "step no_env fmempty ?x1 ?x2"
    using step.operation [of PStartLoop no_env fmempty ?x1] by (simp add: StartDispatchLoop_def)
  have 3: "step no_env fmempty ?x2 (?x2\<lparr>theLoop := AtCheck\<rparr>)"
    by (rule step.loop_starts) (simp_all add: start_system_def)
  have 4: "step no_env fmempty (?x2\<lparr>theLoop := AtCheck\<rparr>) (?x2\<lparr>theLoop := AtReceive\<rparr>)"
    using step.check [of "?x2\<lparr>theLoop := AtCheck\<rparr>" no_env fmempty] by (simp add: loop_ends_def)
  have r: "run no_env fmempty ?x (?x2\<lparr>theLoop := AtReceive\<rparr>)"
    by (rule run.further [OF run.further [OF run.further [OF run.further [OF run.here 1] 2] 3] 4])
  from idle_adapter_breaks_pool [OF r, of ?a] obtain q where
    "step no_env fmempty (?x2\<lparr>theLoop := AtReceive\<rparr>) (?x2\<lparr>theLoop := AtReceive, thePool := q, theLoop := LoopEnded\<rparr>)"
    "poolState q = PoolBroken"
    by (auto simp: NewPoolWithContext_def NewAdapter_def NewAdapterWithContext_def)
  then show ?thesis
    by (intro exI [of _ "?x2\<lparr>theLoop := AtReceive\<rparr>"]
        exI [of _ "?x2\<lparr>theLoop := AtReceive, thePool := q, theLoop := LoopEnded\<rparr>"]) simp
qed

end
