(* ===== verification/Clixml_Types.thy ===== *)
theory Clixml_Types
  imports Clixml_Theorems
begin

text \<open>
  The types of the values that the deserializer produces: the Go types that \<open>deserializeElement\<close>
  names, with integers that fit their width and maps without a key twice. The invariant covers the
  table of objects that later elements refer to.
\<close>

section \<open>Values on the wire\<close>

definition typed_fields :: "(goval \<Rightarrow> bool) \<Rightarrow> (string \<times> goval) list \<Rightarrow> bool" where
  "typed_fields P m \<longleftrightarrow> distinct (map fst m) \<and> (\<forall>v\<in>set (map snd m). P v)"

lemma typed_fields_mono [mono]: "P \<le> Q \<Longrightarrow> typed_fields P m \<le> typed_fields Q m"
  by (auto simp: typed_fields_def le_fun_def)

inductive wire_value :: "goval \<Rightarrow> bool" where
  wire_nil: "wire_value VNil"
| wire_string: "wire_value (VString s)"
| wire_int32: "in_signed 32 i \<Longrightarrow> wire_value (VInt32 i)"
| wire_int64: "in_signed 64 i \<Longrightarrow> wire_value (VInt64 i)"
| wire_bool: "wire_value (VBool b)"
| wire_float: "wire_value (VFloat f)"
| wire_bytes: "wire_value (VBytes bs)"
| wire_time: "wire_value (VTime t)"
| wire_uuid: "wire_value (VUUID u)"
| wire_secure: "wire_value (VSecure bs)"
| wire_script: "wire_value (VScript s)"
| wire_slice: "(\<forall>v\<in>set vs. wire_value v) \<Longrightarrow> wire_value (VSlice vs)"
| wire_map: "typed_fields wire_value m \<Longrightarrow> wire_value (VMap m)"
| wire_object: "typed_fields wire_value m \<Longrightarrow> wire_value v \<Longrightarrow> wire_value (VObject (PSObject tns m [] [] ts v))"

inductive_cases wire_cases:
  "wire_value (VInt32 i)" "wire_value (VInt64 i)" "wire_value (VInt i)" "wire_value (VSlice vs)"
  "wire_value (VMap m)" "wire_value (VObject ob)"

definition table_typed :: "deserializer \<Rightarrow> bool" where
  "table_typed d \<longleftrightarrow> (\<forall>i v. fmlookup (dobjs d) i = Some v \<longrightarrow> wire_value v)"

definition gives :: "('a \<Rightarrow> bool) \<Rightarrow> 'a run \<Rightarrow> bool" where
  "gives P r \<longleftrightarrow> (\<forall>d x. r = Some (d, x) \<longrightarrow> table_typed d \<and> (\<forall>v. x = Ret v \<longrightarrow> P v))"

definition typed_reader :: "reader \<Rightarrow> bool" where
  "typed_reader el \<longleftrightarrow> (\<forall>n as d. table_typed d \<longrightarrow> gives wire_value (el n as d))"

lemma gives_simps [simp]:
  "gives P None" "gives P (Some (d, Ret v)) \<longleftrightarrow> table_typed d \<and> P v"
  "gives P (Some (d, Fail e)) \<longleftrightarrow> table_typed d" "gives P (Some (d, Panic z)) \<longleftrightarrow> table_typed d"
  by (auto simp: gives_def)

lemma gives_bind:
  assumes "gives P r" and "\<And>d v. table_typed d \<Longrightarrow> P v \<Longrightarrow> gives Q (k d v)"
  shows "gives Q (bind_run r k)"
  using assms by (cases "(r, k)" rule: bind_run.cases) auto

lemma gives_mono: "gives P r \<Longrightarrow> (\<And>v. P v \<Longrightarrow> Q v) \<Longrightarrow> gives Q r"
  by (auto simp: gives_def)

lemma gives_if: "(B \<Longrightarrow> gives P r) \<Longrightarrow> (\<not> B \<Longrightarrow> gives P s) \<Longrightarrow> gives P (if B then r else s)"
  by simp

lemma table_updates [simp]:
  "table_typed (d\<lparr>dtoks := ts\<rparr>) = table_typed d" "table_typed (enter d) = table_typed d"
  "table_typed (store_tns is tns d) = table_typed d" "table_typed (d\<lparr>ddepth := k\<rparr>) = table_typed d"
  "table_typed (d\<lparr>dtoks := ts, derr := e\<rparr>) = table_typed d"
  by (simp_all add: table_typed_def enter_def store_tns_def)

lemma table_store_ref: "table_typed d \<Longrightarrow> wire_value v \<Longrightarrow> table_typed (store_ref r v d)"
  by (auto simp: table_typed_def store_ref_def split: option.split)

lemma gives_steps:
  assumes "table_typed d"
  shows "gives (\<lambda>_. True) (Some (next_token d))" "gives (\<lambda>_. True) (Some (Skip d))"
    "gives (\<lambda>_. True) (Some (DecodeElement d))" "gives (\<lambda>_. True) (Some (deserializeTypeNames d))"
    "gives (\<lambda>_. True) (Some (wrap_st m (Skip d)))"
  using assms
  by (simp_all add: next_token_def Skip_def DecodeElement_def deserializeTypeNames_def
      split: list.split option.split prod.split)

lemma gives_text_elem:
  assumes "table_typed d" and "\<And>t v. conv t = Ret v \<Longrightarrow> P v"
  shows "gives P (text_elem m conv d)"
proof -
  obtain d1 r where r: "DecodeElement d = (d1, r)" by fastforce
  with gives_steps(3) [OF assms(1)] have "table_typed d1" by (auto simp: gives_def)
  with r assms(2) show ?thesis by (cases r) (auto simp: text_elem_def gives_def)
qed

lemma gives_leave: "gives P r \<Longrightarrow> gives P (leave r)"
  by (auto simp: gives_def leave_def)

lemma update_values: "set (map snd (AList.update k v m)) \<subseteq> insert v (set (map snd m))"
  by (induction m) auto

lemma typed_update: "typed_fields P m \<Longrightarrow> P v \<Longrightarrow> typed_fields P (AList.update k v m)"
  using update_values [of k v m] by (auto simp: typed_fields_def distinct_update simp del: set_map)

lemma typed_updates:
  assumes "typed_fields P m" and "typed_fields P n"
  shows "typed_fields P (AList.updates (map fst n) (map snd n) m)"
proof -
  have "set vs \<subseteq> Collect P \<Longrightarrow> typed_fields P m \<Longrightarrow> typed_fields P (AList.updates ks vs m)" for ks vs m
  proof (induction ks arbitrary: vs m)
    case (Cons k ks)
    then show ?case by (cases vs) (auto intro: typed_update)
  qed simp
  moreover have "set (map snd n) \<subseteq> Collect P" using assms(2) by (auto simp: typed_fields_def)
  ultimately show ?thesis using assms(1) by blast
qed

lemma typed_Nil [simp]: "typed_fields P []"
  by (simp add: typed_fields_def)

lemma gives_reader: "typed_reader el \<Longrightarrow> table_typed d \<Longrightarrow> gives wire_value (el n as d)"
  by (simp add: typed_reader_def)

section \<open>The loops\<close>

lemma gives_loop:
  assumes "table_typed d" and "\<And>d n as. table_typed d \<Longrightarrow> gives P (k1 d n as)"
    and "\<And>d n. table_typed d \<Longrightarrow> gives P (k2 d n)" and "\<And>d u. table_typed d \<Longrightarrow> gives P (k3 d u)"
  shows "gives P (bind_run (Some (next_token d)) (\<lambda>d1 t.
    case t of XStart n as \<Rightarrow> k1 d1 n as | XEnd n \<Rightarrow> k2 d1 n | XText u \<Rightarrow> k3 d1 u))"
  using assms by (auto intro!: gives_bind [OF gives_steps(1)] split: xtok.split)

lemma gives_des_list:
  "typed_reader el \<Longrightarrow> table_typed d \<Longrightarrow> gives (\<lambda>vs. \<forall>v\<in>set vs. wire_value v) (des_list f el d)"
proof (induction f arbitrary: d)
  case (Suc f)
  show ?case
    unfolding des_list.simps(2)
    by (intro gives_loop gives_if gives_bind [OF gives_reader] gives_bind [OF Suc.IH] Suc.IH Suc.prems)
      (simp_all add: Suc.prems)
qed simp

lemma gives_des_entry:
  "typed_reader el \<Longrightarrow> table_typed d \<Longrightarrow> wire_value v \<Longrightarrow>
    gives (\<lambda>kv. wire_value (snd kv)) (des_entry f el k v d)"
proof (induction f arbitrary: d k v)
  case (Suc f)
  show ?case
    unfolding des_entry.simps(2)
    by (intro gives_loop gives_if gives_bind [OF gives_reader] Suc.IH Suc.prems) (simp_all add: Suc.prems)
qed simp

lemma gives_des_dict:
  "typed_reader el \<Longrightarrow> table_typed d \<Longrightarrow> typed_fields wire_value m \<Longrightarrow>
    gives (typed_fields wire_value) (des_dict f el m d)"
proof (induction f arbitrary: d m)
  case (Suc f)
  show ?case
    unfolding des_dict.simps(2)
    by (intro gives_loop gives_if gives_bind [OF gives_des_entry] gives_bind [OF gives_steps(2)] Suc.IH
        Suc.prems typed_update wire_nil) (simp_all add: Suc.prems)
qed simp

lemma gives_des_props:
  "typed_reader el \<Longrightarrow> table_typed d \<Longrightarrow> typed_fields wire_value m \<Longrightarrow>
    gives (typed_fields wire_value) (des_props f el m d)"
proof (induction f arbitrary: d m)
  case (Suc f)
  have upd: "typed_fields wire_value (if B then AList.update k x m else m)" if "wire_value x" for B k x
    using that Suc.prems(3) by (simp add: typed_update)
  show ?case
    unfolding des_props.simps(2)
    by (intro gives_loop gives_if gives_bind [OF gives_reader] Suc.IH Suc.prems upd) (simp_all add: Suc.prems)
qed simp

lemma gives_des_obj:
  "typed_reader el \<Longrightarrow> table_typed d \<Longrightarrow> typed_fields wire_value m \<Longrightarrow> wire_value v \<Longrightarrow>
    gives wire_value (des_obj f el r tns m ts v hasD d)"
proof (induction f arbitrary: d tns m ts v hasD)
  case (Suc f)
  note prems = Suc.prems and IH = Suc.IH [OF prems(1)]
  have tn: "table_typed (if B then store_tns is names d else d)" if "table_typed d" for B "is" names d
    using that by simp
  have ob: "wire_value (VObject (PSObject tns m [] [] ts v))" by (rule wire_object [OF prems(3,4)])
  show ?case
    unfolding des_obj.simps(2) Let_def
    by (intro gives_loop gives_if gives_bind [OF gives_reader] gives_bind [OF gives_steps(4)]
        gives_bind [OF gives_steps(2)] gives_bind [OF gives_steps(3)] gives_bind [OF gives_des_props]
        gives_bind [OF gives_des_dict] gives_bind [OF gives_des_list] IH tn prems typed_update typed_updates)
      (auto simp: prems ob intro: table_store_ref wire_map wire_slice)
qed simp

lemma gives_Ref: "table_typed d \<Longrightarrow> gives wire_value (deserializeRef as d)"
  unfolding deserializeRef_def
  by (auto intro!: gives_bind [OF gives_steps(2)] simp: table_typed_def split: option.split)

lemma gives_elem_step:
  assumes "typed_reader el" and "table_typed d"
  shows "gives wire_value (elem_step E f el n as d)"
proof -
  have opt: "of_option m g x = Ret v \<Longrightarrow> (\<And>y. x = Some y \<Longrightarrow> wire_value (g y)) \<Longrightarrow> wire_value v" for m g x v
    by (auto simp: of_option_def split: option.splits)
  have sec: "secure_value E d t = Ret v \<Longrightarrow> wire_value v" for t v
    by (auto simp: secure_value_def and_then_eq_Ret intro: wire_secure split: option.splits)
  note e = assms(2)
  show ?thesis
    unfolding elem_step_def
    by (intro gives_if gives_bind [OF gives_steps(5) [OF e]] gives_text_elem [OF e] gives_leave
        gives_bind [OF gives_des_list [OF assms(1)]] gives_bind [OF gives_des_dict [OF assms(1)]]
        gives_des_obj [OF assms(1)] gives_Ref [OF e])
      (auto simp: e intro: wire_value.intros sec elim!: opt dest: ParseInt_range)
qed

lemma typed_des_elem: "typed_reader (des_elem f E)"
proof (induction f)
  case (Suc f)
  then show ?case by (simp add: typed_reader_def des_elem.simps(2)) (blast intro: gives_elem_step [unfolded typed_reader_def])
qed (simp add: typed_reader_def)

lemma gives_des_objs:
  "typed_reader el \<Longrightarrow> table_typed d \<Longrightarrow> gives (\<lambda>vs. \<forall>v\<in>set vs. wire_value v) (des_objs f el d)"
proof (induction f arbitrary: d)
  case (Suc f)
  then show ?case
    by (cases "dtoks d")
      (auto simp: des_objs.simps(2) next_token_def split: xtok.split
        intro!: gives_bind [OF gives_reader] gives_bind [OF Suc.IH])
qed simp

lemma unmarshal_typed:
  assumes "unmarshal E data = Ret vs"
  shows "\<forall>v\<in>set vs. wire_value v"
proof -
  have new: "table_typed (NewDeserializer\<lparr>dtoks := ts, derr := e\<rparr>)" for ts e
    by (simp add: table_typed_def NewDeserializer_def NewDeserializerWithEncryption_def
        NewDeserializerWithMaxDepthAndEncryption_def)
  have "gives (\<lambda>vs. \<forall>v\<in>set vs. wire_value v) (Deserialize_run f E toks NewDeserializer)" for f toks
    using new by (auto simp: Deserialize_run_def Let_def split: option.split
        intro!: gives_des_objs typed_des_elem gives_bind [OF gives_reader [OF typed_des_elem]])
  then show ?thesis
    using assms unfolding gives_def
    by (auto simp: unmarshal_def Deserialize_def Let_def split: option.splits) (metis (full_types) prod.collapse)
qed

text \<open>
  C23. The deserializer is typed: every value of a document that it accepts is of one of the types that
  CLIXML has here, all the way down. An \<open>I32\<close> and an \<open>I64\<close> hold numbers of their width, an \<open>int\<close>, an
  enum, a pointer or any other type of the serializer's input never comes out, the keys of a map are
  distinct, and an object carries no members apart from its properties.
\<close>

theorem deserializer_typed:
  assumes "unmarshal E data = Ret vs"
  shows "\<forall>v\<in>set vs. wire_value v"
  using unmarshal_typed [OF assms] .

theorem deserializer_typed_witness:
  "wire_value (VInt32 7) \<and> wire_value (VSlice [VBool True, VNil])"
proof -
  have "unmarshal no_env (bytes_of_string ''<Objs><I32>7</I32><LST><B>true</B><Nil/></LST></Objs>'') =
      Ret [VInt32 7, VSlice [VBool True, VNil]]"
    by code_simp
  from deserializer_typed [OF this] show ?thesis by simp
qed

end
