(* ===== verification/Clixml_Faults.thy ===== *)
theory Clixml_Faults
  imports Clixml_Theorems
begin

text \<open>
  Two faults of the CLIXML codec, each shown for a whole family of values: objects that refer to
  each other in a cycle, of any length, which the serializer writes and the deserializer refuses,
  and property names that make other properties of a document.
\<close>

section \<open>Paths of references\<close>





section \<open>Their serialization\<close>







lemma ref_tag [simp]: "simple_name ''Ref''"
  by code_simp


section \<open>Their deserialization\<close>








section \<open>Names that break out\<close>

text \<open>
  The name that turns one property into several: each entry of the list is a name and the text of
  the property that is made up, and \<open>n\<close> is the name that the real value gets.
\<close>

fun forged_name :: "(string \<times> string) list \<Rightarrow> string \<Rightarrow> string" where
  "forged_name [] n = n"
| "forged_name ((k, t) # fs) n = k @ ''\">'' @ string_body t @ ''</S><S N=\"'' @ forged_name fs n"

definition string_fields :: "(string \<times> string) list \<Rightarrow> (string \<times> goval) list" where
  "string_fields fs = map (\<lambda>(k, t). (k, VString t)) fs"

lemma forged_not_Nil [simp]: "n \<noteq> [] \<Longrightarrow> forged_name fs n \<noteq> []"
  by (cases "(fs, n)" rule: forged_name.cases) auto

lemma wr_wr: "wr t (wr u s) = wr (u @ t) s"
  by (simp add: wr_def)

lemma forged_element:
  assumes "list_all (\<lambda>(k, t). k \<noteq> [] \<and> clean_value k \<and> good_string t) (fs @ [(n, v)])"
  shows "emits_seq E (string_fields (fs @ [(n, v)])) s (serializeStringFast v (forged_name fs n) s)"
  using assms
proof (induction fs arbitrary: s)
  case Nil
  then show ?case by (simp add: string_fields_def emits_String name_ok_def)
next
  case (Cons x fs)
  obtain k t where x: "x = (k, t)" by (cases x)
  with Cons.prems have k: "k \<noteq> []" "name_ok k" "good_string t" "n \<noteq> []" by (auto simp: name_ok_def)
  have "serializeStringFast v (forged_name (x # fs) n) s =
      serializeStringFast v (forged_name fs n) (serializeStringFast t k s)"
    using k(1,4) by (simp add: x serializeStringFast_def element_def open_tag_def close_tag_def attr_N_def wr_wr)
  with Cons emits_String [OF k(3,2), of E s] show ?case by (auto simp: x string_fields_def)
qed

lemma foldr_string_fields: "foldr (\<lambda>(k, v). max (height v)) (string_fields fs) 0 \<le> 1"
  by (induction fs) (auto simp: string_fields_def)

lemma forged_writes:
  assumes "list_all (\<lambda>(k, t). k \<noteq> [] \<and> clean_value k \<and> good_string t) (fs @ [(n, v)])"
    and "distinct (map fst (fs @ [(n, v)]))" and "good_string str"
    and "tns = [] \<or> good_types tns \<and> list_all clean tns"
  shows "writes E h (VObject (PSObject tns [(forged_name fs n, VString v)] [] [] str VNil))
    (VObject (PSObject tns (string_fields (fs @ [(n, v)])) [] [] str VNil))"
proof (rule writesI)
  fix name :: string and s :: serializer
  assume name: "name_ok name"
  let ?fs = "string_fields (fs @ [(n, v)])" and ?m = "[(forged_name fs n, VString v)]"
  let ?ob = "PSObject tns [] [] [] str VNil" and ?forged = "PSObject tns ?m [] [] str VNil"
  let ?s = "obj_head None ?ob name s" let ?s1 = "serializeStringFast v (forged_name fs n) (wr ''<Props>'' ?s)"
  have g: "good_object ?ob" using assms(3,4) by (simp add: good_object_def obj_fields_def fields_of_def map_keys_def)
  have h: "obj_head None ?forged name s = ?s" by (simp add: obj_head_def Let_def)
  have "map_keys ?m = [forged_name fs n]" by (simp add: map_keys_def)
  then have 1: "ser_value E h (VObject ?forged) name s = ok (wr ''</Obj>'' (wr ''</Props>'' ?s1))"
    by (simp add: ser_obj.simps h lookup_or_nil_def ok_def [symmetric])
  have "emits_seq E ?fs (wr (open_tag ''Props'' []) ?s) ?s1"
    using forged_element [OF assms(1)] by (simp add: open_tag_def attr_N_def)
  moreover have "[] \<notin> fst ` set ?fs" "distinct (map fst ?fs)"
    using assms(1,2) by (auto simp: string_fields_def list_all_iff comp_def case_prod_beta)
  ultimately have "part E (foldr (\<lambda>(k, v). max (height v)) ?fs 0) (tns, [], str) (tns, ?fs, str) ?s
      (wr (close_tag ''Props'') ?s1)"
    using height_pairs by (intro part_props) auto
  with emits_fields [OF name g, of E ?fs s "wr ''</Props>'' ?s1"]
  have "emits E (VObject (PSObject tns ?fs [] [] str VNil)) name s (wr ''</Obj>'' (wr ''</Props>'' ?s1))"
    by (simp add: close_tag_def)
  with 1 show "\<exists>s'. ser_value E h (VObject ?forged) name s = ok s' \<and>
      emits E (VObject (PSObject tns ?fs [] [] str VNil)) name s s'"
    by blast
qed

text \<open>
  C37. A property name can make up other properties. The serializer writes the name of a property
  into the attribute as it is; so for any names and texts of an attacker's choice there is a name
  that, given to the one property of an object, makes the document that is read as an object with
  all of them, and with the real value under a chosen name. Whoever controls the name of a property
  controls the properties of the object that the other side reads.
\<close>

theorem property_name_injection:
  assumes "list_all (\<lambda>(k, t). k \<noteq> [] \<and> clean_value k \<and> good_string t) (fs @ [(n, v)])"
    and "distinct (map fst (fs @ [(n, v)]))" and "good_string str"
    and "tns = [] \<or> good_types tns \<and> list_all clean tns"
  shows "\<exists>bs. marshal E h (VObject (PSObject tns [(forged_name fs n, VString v)] [] [] str VNil)) = Ret bs \<and>
    (MaxInt < int (length bs) \<or>
     unmarshal E bs = Ret [VObject (PSObject tns (string_fields (fs @ [(n, v)])) [] [] str VNil)])"
proof -
  have "height (VObject (PSObject tns (string_fields (fs @ [(n, v)])) [] [] str VNil)) \<le> 100"
    using foldr_string_fields [of "fs @ [(n, v)]"] by simp
  from raw_document [OF forged_writes [OF assms] this] show ?thesis by (metis not_less)
qed

theorem property_name_injection_witness:
  "\<exists>bs. marshal no_env fmempty (VObject (PSObject []
      [(''user\">guest</S><S N=\"admin\">yes</S><S N=\"note'', VString ''hi'')] [] [] [] VNil)) = Ret bs \<and>
    (MaxInt < int (length bs) \<or> unmarshal no_env bs = Ret [VObject (PSObject []
      [(''user'', VString ''guest''), (''admin'', VString ''yes''), (''note'', VString ''hi'')] [] [] [] VNil)])"
proof -
  let ?fs = "[(''user'', ''guest''), (''admin'', ''yes'')]"
  have "clean_value ''user''" "clean_value ''admin''" "clean_value ''note''" by code_simp+
  then have "list_all (\<lambda>(k, t). k \<noteq> [] \<and> clean_value k \<and> good_string t) (?fs @ [(''note'', ''hi'')])"
    by (simp add: good_string_ascii of_char_def)
  moreover have f: "forged_name ?fs ''note'' = ''user\">guest</S><S N=\"admin\">yes</S><S N=\"note''" by code_simp
  moreover have "good_string []" by (rule good_string_ascii) simp
  ultimately show ?thesis
    using property_name_injection [of ?fs "''note''" "''hi''" "[]" "[]" no_env fmempty, unfolded f]
    by (simp add: string_fields_def)
qed

end
