(* ===== verification/Host_Dispatch.thy ===== *)
theory Host_Dispatch
  imports Host_Wire
begin

text \<open>
  What a host call means: the calls that the client implements, as the server makes them, with
  their number and their parameters on the wire, and the operation of the host that each one asks
  for, written against the interface of \<open>host/host.go\<close>. The property is that a call that goes
  through CLIXML and the dispatch of \<open>host/callback.go\<close> performs just that operation.
\<close>

section \<open>The calls\<close>








section \<open>Their meaning\<close>







section \<open>The wire\<close>











section \<open>The dispatch\<close>







lemma no_first_choice [simp]: "first_choice (VSlice (map VInt32 ds)) = []"
  by (cases ds) (simp_all add: first_choice_def)






end
