(* ===== verification/Secure_String.thy ===== *)
theory Secure_String
  imports Binary_Codec
begin

text \<open>
  Secure strings and credentials (\<open>objects/objects.go\<close>). The plain text is sealed with AES-256 in
  Galois/counter mode under a random key that the value keeps. The mode is modelled here, bit for
  bit as the standard describes it; the block cipher is a parameter, \<open>aes key block\<close>, and what the
  random source returns is an argument.
\<close>

unbundle bit_operations_syntax

section \<open>Galois/counter mode\<close>

type_synonym block_cipher = "bytes \<Rightarrow> bytes \<Rightarrow> bytes"

definition gcm_NonceSize :: nat where "gcm_NonceSize = 12"
definition gcm_TagSize :: nat where "gcm_TagSize = 16"

definition zero_block :: bytes where
  "zero_block = replicate 16 0"

definition block_word :: "bytes \<Rightarrow> 128 word" where
  "block_word bs = word_of_int (foldl (\<lambda>a b. a * 256 + uint b) 0 bs)"

definition word_block :: "128 word \<Rightarrow> bytes" where
  "word_block w = map (\<lambda>i. ucast (drop_bit (8 * (15 - i)) w)) [0..<16]"

text \<open>Multiplication in GF(2 ^ 128), from the most significant bit of the first factor down.\<close>

fun gf_loop :: "nat \<Rightarrow> 128 word \<Rightarrow> 128 word \<Rightarrow> 128 word \<Rightarrow> 128 word" where
  "gf_loop 0 x z v = z"
| "gf_loop (Suc i) x z v =
     gf_loop i x (if bit x i then z XOR v else z)
       (if bit v 0 then drop_bit 1 v XOR 0xE1000000000000000000000000000000 else drop_bit 1 v)"

definition gf_mult :: "128 word \<Rightarrow> 128 word \<Rightarrow> 128 word" where
  "gf_mult x y = gf_loop 128 x 0 y"

function ghash :: "128 word \<Rightarrow> 128 word \<Rightarrow> bytes \<Rightarrow> 128 word" where
  "ghash h y bs =
     (if bs = [] then y
      else ghash h (gf_mult (y XOR block_word (take 16 bs @ replicate (16 - length bs) 0)) h) (drop 16 bs))"
  by pat_completeness auto
termination
  by (relation "measure (\<lambda>(h, y, bs). length bs)") auto

definition counter_block :: "bytes \<Rightarrow> uint32 \<Rightarrow> bytes" where
  "counter_block nonce c = nonce @ BigEndian_PutUint32 c"

function gcm_ctr :: "(bytes \<Rightarrow> bytes) \<Rightarrow> bytes \<Rightarrow> uint32 \<Rightarrow> bytes \<Rightarrow> bytes" where
  "gcm_ctr b nonce c bs =
     (if bs = [] then []
      else map2 (XOR) (take 16 bs) (b (counter_block nonce c)) @ gcm_ctr b nonce (c + 1) (drop 16 bs))"
  by pat_completeness auto
termination
  by (relation "measure (\<lambda>(b, nonce, c, bs). length bs)") auto

declare ghash.simps [simp del] gcm_ctr.simps [simp del]

text \<open>The tag of a cipher text, without additional data.\<close>

definition gcm_tag :: "(bytes \<Rightarrow> bytes) \<Rightarrow> bytes \<Rightarrow> bytes \<Rightarrow> bytes" where
  "gcm_tag b nonce ct =
     (let h = block_word (b zero_block);
          s = ghash h 0 ct;
          s1 = gf_mult (s XOR word_of_nat (8 * length ct)) h in
      map2 (XOR) (word_block s1) (b (counter_block nonce 1)))"

text \<open>The limit of a message: 2 ^ 32 - 2 blocks.\<close>

definition gcm_limit :: nat where
  "gcm_limit = (2 ^ 32 - 2) * 16"

definition gcm_Seal :: "(bytes \<Rightarrow> bytes) \<Rightarrow> bytes \<Rightarrow> bytes \<Rightarrow> bytes outcome" where
  "gcm_Seal b nonce plain =
     (if gcm_limit < length plain then Panic PanicMessage
      else let ct = gcm_ctr b nonce 2 plain in Ret (nonce @ ct @ gcm_tag b nonce ct))"

definition gcm_Open :: "(bytes \<Rightarrow> bytes) \<Rightarrow> bytes \<Rightarrow> bytes \<Rightarrow> bytes outcome" where
  "gcm_Open b nonce data =
     (if length data < gcm_TagSize \<or> gcm_limit + gcm_TagSize < length data then
        Fail (EMsg ''cipher: message authentication failed'')
      else
        let n = length data - gcm_TagSize; ct = take n data in
        if drop n data \<noteq> gcm_tag b nonce ct then
          Fail (EMsg ''cipher: message authentication failed'')
        else Ret (gcm_ctr b nonce 2 ct))"


section \<open>Secure strings\<close>

record secureString =
  ssEncrypted :: bytes
  ssKey :: bytes

text \<open>
  \<open>aes.NewCipher\<close> takes keys of 16, 24 and 32 bytes only. \<open>cipher.NewGCM\<close> fails on a block size
  other than 16, which AES never has.
\<close>

definition NewCipher :: "block_cipher \<Rightarrow> bytes \<Rightarrow> (bytes \<Rightarrow> bytes) outcome" where
  "NewCipher aes k =
     (if length k \<in> {16, 24, 32} then Ret (aes k) else Fail (EMsg ''crypto/aes: invalid key size''))"

text \<open>
  \<open>rand_key\<close> and \<open>rand_nonce\<close> are what the two reads of the random source give: the bytes read, or the
  error of the read.
\<close>

definition NewSecureString_objects ::
  "block_cipher \<Rightarrow> bytes outcome \<Rightarrow> bytes outcome \<Rightarrow> bytes \<Rightarrow> secureString outcome" where
  "NewSecureString_objects aes rand_key rand_nonce plain =
     and_then (wrap_err ''failed to generate encryption key'' rand_key) (\<lambda>key.
     and_then (wrap_err ''failed to create cipher'' (NewCipher aes key)) (\<lambda>block.
     and_then (wrap_err ''failed to generate nonce'' rand_nonce) (\<lambda>nonce.
     and_then (gcm_Seal block nonce plain) (\<lambda>sealed.
     Ret \<lparr>ssEncrypted = sealed, ssKey = key\<rparr>))))"

definition SecureString_Decrypt :: "block_cipher \<Rightarrow> secureString \<Rightarrow> bytes outcome" where
  "SecureString_Decrypt aes s =
     (if ssEncrypted s = [] then Ret []
      else and_then (NewCipher aes (ssKey s)) (\<lambda>block.
        if length (ssEncrypted s) < gcm_NonceSize then Fail (EIs IoUnexpectedEOF)
        else gcm_Open block (take gcm_NonceSize (ssEncrypted s)) (drop gcm_NonceSize (ssEncrypted s))))"

definition NewSecureStringFromEncrypted :: "bytes \<Rightarrow> secureString" where
  "NewSecureStringFromEncrypted b = \<lparr>ssEncrypted = b, ssKey = []\<rparr>"

definition SecureString_EncryptedBytes :: "secureString \<Rightarrow> bytes" where
  "SecureString_EncryptedBytes s = ssEncrypted s"

definition SecureString_Clear :: "secureString \<Rightarrow> secureString" where
  "SecureString_Clear s =
     \<lparr>ssEncrypted = replicate (length (ssEncrypted s)) 0, ssKey = replicate (length (ssKey s)) 0\<rparr>"

section \<open>Credentials\<close>

text \<open>
  A credential holds a pointer to its password, which the caller may share, so the secure strings live
  in a store, and clearing a credential clears the string for every holder of the pointer.
\<close>

type_synonym ss_store = "nat \<Rightarrow> secureString"

record psCredential_obj =
  UserName :: string
  Password :: "nat option"

definition NewPSCredential :: "string \<Rightarrow> nat option \<Rightarrow> psCredential_obj" where
  "NewPSCredential u p = \<lparr>UserName = u, Password = p\<rparr>"

definition PSCredential_Clear :: "psCredential_obj \<Rightarrow> ss_store \<Rightarrow> ss_store" where
  "PSCredential_Clear c st =
     (case Password c of None \<Rightarrow> st | Some a \<Rightarrow> st(a := SecureString_Clear (st a)))"

section \<open>The counter mode is its own inverse\<close>

lemma xor_cancel: "length ks \<ge> length bs \<Longrightarrow> map2 (XOR) (map2 (XOR) bs ks) ks = (bs :: bytes)"
  by (rule nth_equalityI) (simp_all add: xor.assoc)

lemma gcm_ctr_Nil [simp]: "gcm_ctr b n c [] = []"
  by (simp add: gcm_ctr.simps)

lemma gcm_ctr_step:
  "bs \<noteq> [] \<Longrightarrow>
    gcm_ctr b n c bs = map2 (XOR) (take 16 bs) (b (counter_block n c)) @ gcm_ctr b n (c + 1) (drop 16 bs)"
  by (subst gcm_ctr.simps) simp

lemma length_gcm_ctr:
  assumes "\<And>x. length (b x) = 16"
  shows "length (gcm_ctr b n c bs) = length bs"
  using assms
proof (induction b n c bs rule: gcm_ctr.induct)
  case (1 b n c bs)
  then show ?case by (cases "bs = []") (simp_all add: gcm_ctr_step)
qed

lemma ghash_Nil [simp]: "ghash h y [] = y"
  by (simp add: ghash.simps)


lemma gcm_ctr_ctr:
  assumes "\<And>x. length (b x) = 16"
  shows "gcm_ctr b n c (gcm_ctr b n c bs) = bs"
  using assms
proof (induction b n c bs rule: gcm_ctr.induct)
  case (1 b n c bs)
  show ?case
  proof (cases "bs = []")
    case False
    let ?ks = "b (counter_block n c)" and ?x = "take 16 bs" and ?y = "gcm_ctr b n (c + 1) (drop 16 bs)"
    have l: "length (map2 (XOR) ?x ?ks) = length ?x" using 1(2) by simp
    have e: "gcm_ctr b n c bs = map2 (XOR) ?x ?ks @ ?y" using False by (rule gcm_ctr_step)
    have t: "take 16 (map2 (XOR) ?x ?ks @ ?y) = map2 (XOR) ?x ?ks"
      and d: "drop 16 (map2 (XOR) ?x ?ks @ ?y) = ?y"
      using l 1(2) length_gcm_ctr [of b n "c + 1" "drop 16 bs"] by (auto simp: min_def not_le)
    have "map2 (XOR) ?x ?ks @ ?y \<noteq> []" using False l by (metis append_is_Nil_conv length_0_conv take_eq_Nil zero_neq_numeral)
    then have "gcm_ctr b n c (gcm_ctr b n c bs) =
        map2 (XOR) (map2 (XOR) ?x ?ks) ?ks @ gcm_ctr b n (c + 1) ?y"
      unfolding e by (simp only: gcm_ctr_step t d not_False_eq_True)
    also have "\<dots> = ?x @ drop 16 bs"
      using 1(1) [OF False 1(2)] 1(2) by (subst xor_cancel) auto
    finally show ?thesis by simp
  qed simp
qed

lemma length_word_block [simp]: "length (word_block w) = 16"
  by (simp add: word_block_def)

lemma length_gcm_tag:
  assumes "\<And>x. length (b x) = 16"
  shows "length (gcm_tag b n ct) = 16"
  using assms by (simp add: gcm_tag_def Let_def)

lemma gcm_Open_Seal:
  assumes "\<And>x. length (b x) = 16" and "length plain \<le> gcm_limit"
  shows "\<exists>body. gcm_Seal b n plain = Ret (n @ body) \<and> length body = length plain + 16 \<and>
    gcm_Open b n body = Ret plain"
proof -
  let ?ct = "gcm_ctr b n 2 plain"
  have l: "length ?ct = length plain" using assms(1) by (rule length_gcm_ctr)
  have t: "length (gcm_tag b n ?ct) = 16" using assms(1) by (rule length_gcm_tag)
  have "gcm_Open b n (?ct @ gcm_tag b n ?ct) = Ret (gcm_ctr b n 2 ?ct)"
    using assms(2) l t by (simp add: gcm_Open_def gcm_TagSize_def)
  then have "gcm_Open b n (?ct @ gcm_tag b n ?ct) = Ret plain"
    using gcm_ctr_ctr [of b n 2 plain] assms(1) by simp
  moreover have "gcm_Seal b n plain = Ret (n @ ?ct @ gcm_tag b n ?ct)"
    using assms(2) by (simp add: gcm_Seal_def Let_def)
  ultimately show ?thesis using l t by (intro exI [of _ "?ct @ gcm_tag b n ?ct"]) simp
qed

section \<open>Properties\<close>

text \<open>
  C29. For a block cipher with blocks of 16 bytes, a 32-byte key and a 12-byte nonce: \<open>NewSecureString\<close>
  gives a value from which \<open>Decrypt\<close> recovers the plain text, empty included; its encrypted bytes
  are 28 longer. A value made from these bytes alone by \<open>NewSecureStringFromEncrypted\<close>, as the
  deserializer does, keeps the bytes but has no key: \<open>Decrypt\<close> always fails on it, and after
  \<open>Clear\<close> every byte of the value is 0.
\<close>

theorem securestring_roundtrip:
  assumes "\<And>k x. length (aes k x) = 16" and "length key = 32" and "length nonce = 12"
    and "length plain \<le> gcm_limit"
  shows "\<exists>s. NewSecureString_objects aes (Ret key) (Ret nonce) plain = Ret s \<and>
    SecureString_Decrypt aes s = Ret plain \<and>
    length (SecureString_EncryptedBytes s) = length plain + 28 \<and>
    (let r = NewSecureStringFromEncrypted (SecureString_EncryptedBytes s) in
      SecureString_EncryptedBytes r = SecureString_EncryptedBytes s \<and>
      SecureString_Decrypt aes r = Fail (EMsg ''crypto/aes: invalid key size'')) \<and>
    SecureString_EncryptedBytes (SecureString_Clear s) = replicate (length plain + 28) 0"
proof -
  from gcm_Open_Seal [of "aes key" plain nonce] assms(1,4) obtain body where
    b: "gcm_Seal (aes key) nonce plain = Ret (nonce @ body)" "length body = length plain + 16"
       "gcm_Open (aes key) nonce body = Ret plain" by blast
  moreover from assms(3) have "nonce \<noteq> []" by auto
  ultimately show ?thesis using assms(2,3)
    by (intro exI [of _ "\<lparr>ssEncrypted = nonce @ body, ssKey = key\<rparr>"])
      (simp add: NewSecureString_objects_def SecureString_Decrypt_def NewCipher_def gcm_NonceSize_def
        SecureString_EncryptedBytes_def NewSecureStringFromEncrypted_def SecureString_Clear_def Let_def)
qed

definition demo_cipher :: block_cipher where
  "demo_cipher k x = take 16 (map2 (XOR) (x @ replicate 16 0) (k @ replicate 16 0) @ replicate 16 0)"

theorem securestring_roundtrip_witness:
  "\<exists>s. NewSecureString_objects demo_cipher (Ret (replicate 32 7)) (Ret (replicate 12 9)) [115, 51] = Ret s \<and>
    SecureString_Decrypt demo_cipher s = Ret [115, 51]"
proof -
  have "length ([115, 51] :: bytes) \<le> gcm_limit" by (simp add: gcm_limit_def)
  from securestring_roundtrip [of demo_cipher "replicate 32 7" "replicate 12 9", OF _ _ _ this]
  show ?thesis by (auto simp: demo_cipher_def Let_def)
qed

text \<open>Clearing a credential clears the string for every holder of the pointer, and no other string.\<close>

lemma credential_clear:
  "PSCredential_Clear (NewPSCredential u (Some a)) st a = SecureString_Clear (st a)"
  "a \<noteq> b \<Longrightarrow> PSCredential_Clear (NewPSCredential u (Some a)) st b = st b"
  "PSCredential_Clear (NewPSCredential u None) st = st"
  by (simp_all add: PSCredential_Clear_def NewPSCredential_def)

end
