(* ===== verification/Pool_Lifecycle.thy ===== *)
theory Pool_Lifecycle
  imports Pool_Theorems
begin

text \<open>
  The life of a pool: an abstract machine with the state of the pool and whether it is done, and the
  simulation of every run of a pool by it.
\<close>

section \<open>Refinement maps\<close>

text \<open>
  A system refines an abstract one by a map of its states, under an invariant: each step is a step of
  the abstract system between the images, so each run is one too, and what the abstract runs keep
  holds of the images.
\<close>

locale refinement_map =
  fixes concrete :: "'c \<Rightarrow> 'c \<Rightarrow> bool"
    and abstract :: "'a \<Rightarrow> 'a \<Rightarrow> bool"
    and image_of :: "'c \<Rightarrow> 'a"
    and inv :: "'c \<Rightarrow> bool"
  assumes keeps_inv: "inv x \<Longrightarrow> concrete x y \<Longrightarrow> inv y"
    and simulates: "inv x \<Longrightarrow> concrete x y \<Longrightarrow> abstract (image_of x) (image_of y)"
begin

lemma runs_refine:
  assumes "concrete\<^sup>*\<^sup>* x y" and "inv x"
  shows "abstract\<^sup>*\<^sup>* (image_of x) (image_of y) \<and> inv y"
  using assms
proof (induction rule: rtranclp_induct)
  case (step y z)
  then show ?case using keeps_inv simulates by (meson rtranclp.rtrancl_into_rtrancl)
qed simp

lemma abstract_invariant:
  assumes "concrete\<^sup>*\<^sup>* x y" and "inv x" and "P (image_of x)"
    and "\<And>a b. P a \<Longrightarrow> abstract a b \<Longrightarrow> P b"
  shows "P (image_of y)"
proof -
  from runs_refine [OF assms(1,2)] have "abstract\<^sup>*\<^sup>* (image_of x) (image_of y)" by simp
  then show ?thesis using assms(3) by (induction rule: rtranclp_induct) (blast intro: assms(4))+
qed

end

section \<open>The machine\<close>

text \<open>
  The phase of a pool: whether it is done, and its state. An event is an operation of the client, or
  a step that the pool takes by itself (\<open>OnInner\<close>: the dispatch loop, the goroutines, the contexts);
  \<open>OnCloseEnds\<close> is the second half of \<open>Close\<close>, after the wait for the server.
\<close>

type_synonym phase = "bool \<times> poolState"

datatype life_event =
    OnOpen | OnConnect | OnDisconnect | OnClose | OnCloseEnds | OnResume | OnTransportError | OnOther | OnInner

fun event_of :: "'w pool_op \<Rightarrow> life_event" where
  "event_of (POpen ctx) = OnOpen"
| "event_of (PConnect ctx) = OnConnect"
| "event_of PDisconnect = OnDisconnect"
| "event_of (PClose ctx) = OnClose"
| "event_of (PCloseEnds ev) = OnCloseEnds"
| "event_of PResumeOpened = OnResume"
| "event_of (PTransportError e) = OnTransportError"
| "event_of _ = OnOther"

text \<open>
  The phases that an event may lead to. \<open>Open\<close> and \<open>Connect\<close> are for a new pool, \<open>Disconnect\<close> and
  \<open>Close\<close> for an opened one; in every other state they leave the phase as it is. The end of a close
  and a lost transport end a pool that is not done, and do nothing to one that is.
\<close>

fun next_phases :: "life_event \<Rightarrow> phase \<Rightarrow> phase set" where
  "next_phases OnOpen (d, s) = (if s = PoolBeforeOpen then {(d, PoolOpened), (d, PoolBroken)} else {(d, s)})"
| "next_phases OnConnect (d, s) =
     (if s = PoolBeforeOpen then {(d, PoolConnecting), (d, PoolOpened)} else {(d, s)})"
| "next_phases OnDisconnect (d, s) = (if s = PoolOpened then {(d, PoolDisconnected)} else {(d, s)})"
| "next_phases OnClose (d, s) = (if s = PoolOpened then {(d, PoolClosing)} else {(d, s)})"
| "next_phases OnCloseEnds (d, s) = (if d then {(d, s)} else {(d, s), (True, PoolClosed)})"
| "next_phases OnResume (d, s) = {(d, PoolOpened)}"
| "next_phases OnTransportError (d, s) = (if d then {(d, s)} else {(True, PoolBroken)})"
| "next_phases OnOther (d, s) = {(d, s)}"
| "next_phases OnInner (d, s) =
     {(d, s), (d, PoolOpened)} \<union> (if d then {} else {(True, PoolClosed), (True, PoolBroken)})"

definition lifecycle :: "phase \<Rightarrow> phase \<Rightarrow> bool" where
  "lifecycle x y \<longleftrightarrow> (\<exists>e. y \<in> next_phases e x)"

definition phase :: "'w pool \<Rightarrow> phase" where
  "phase p = (poolDone p, poolState p)"

text \<open>What holds of the machine from its start.\<close>

definition phase_ok :: "phase \<Rightarrow> bool" where
  "phase_ok x \<longleftrightarrow>
     snd x \<noteq> PoolOpening \<and> (snd x = PoolClosed \<longrightarrow> fst x) \<and>
     (snd x = PoolBeforeOpen \<or> snd x = PoolConnecting \<longrightarrow> \<not> fst x)"

lemma next_phases_ok: "y \<in> next_phases e x \<Longrightarrow> phase_ok x \<Longrightarrow> phase_ok y"
  by (cases "(e, x)" rule: next_phases.cases) (auto simp: phase_ok_def split: if_splits)

lemma lifecycle_ok: "phase_ok x \<Longrightarrow> lifecycle x y \<Longrightarrow> phase_ok y"
  by (auto simp: lifecycle_def intro: next_phases_ok)

lemma next_phases_inner [simp]: "x \<in> next_phases OnInner x"
  by (cases x) simp

section \<open>The operations\<close>

lemma phase_eq: "phase q = (poolDone q, poolState q)"
  by (simp add: phase_def)

interpretation same_phase: frame_relation "\<lambda>p q. phase q = phase p"
  by unfold_locales (simp_all add: phase_def frame_fields)

interpretation same_done: pool_relation "\<lambda>p q. poolDone q = poolDone p"
  by unfold_locales (simp_all add: frame_fields)

lemma phase_update [simp]: "phase (update_pipeline i pl p) = phase p"
  by (simp add: phase_def update_pipeline_def register_def)

lemma phase_same: "phase q = phase p \<Longrightarrow> phase q \<in> next_phases OnInner (phase p)"
  by (simp only: next_phases_inner)

lemma to_opened:
  "poolDone q = poolDone p \<Longrightarrow> poolState q = PoolOpened \<Longrightarrow> phase q \<in> next_phases OnInner (phase p)"
  by (simp add: phase_def)

lemma phase_other: "phase q = phase p \<Longrightarrow> phase q \<in> next_phases OnOther (phase p)"
  by (simp add: phase_def)

lemma cleanup_phase:
  assumes "pool_ok p" and "cleanup st err p = (q, r)"
  shows "phase q = (if poolDone p then phase p else (True, st))"
  using cleanup_eq [OF assms(1), of st err] assms(2)
  by (cases "poolDone p") (auto simp: phase_def ok_def)

lemma cleanup_life:
  assumes "pool_ok p" and "cleanup st err p = (q, r)" and "st = PoolClosed \<or> st = PoolBroken"
  shows "phase q \<in> next_phases OnInner (phase p)"
  using cleanup_phase [OF assms(1,2)] assms(3) by (auto simp: phase_def)

lemma Open_life:
  assumes "Open E h ctx p = Some (q, r)" and "returned r"
  shows "phase q \<in> next_phases OnOpen (phase p)"
proof (cases "poolState p = PoolBeforeOpen")
  case True
  have d: "poolDone q = poolDone p" by (rule same_done.Open_R [OF assms(1)])
  from open_states [OF assms(1)] assms(2) True have "poolState q = PoolOpened \<or> poolState q = PoolBroken"
    by (cases r) auto
  with d True show ?thesis by (auto simp: phase_def)
qed (use open_states [OF assms(1)] in \<open>simp add: phase_def\<close>)

lemma Connect_phase:
  assumes "Connect ctx p = (q, r)" and "poolState p = PoolBeforeOpen"
  shows "poolState q = PoolConnecting \<or> poolState q = PoolOpened"
proof (cases "SkipHandshakeSend p")
  case True
  with assms show ?thesis
    by (simp add: Connect_def Let_def StartDispatchLoop_def InitializeAvailabilityIfNeeded_def split: if_splits)
      (auto simp: setState_fields)
next
  case False
  let ?p1 = "StartDispatchLoop (p\<lparr>poolState := PoolConnecting\<rparr>)"
  obtain p2 x where s: "then_do (wrap_st ''send session capability'' (sendSessionCapability ctx ?p1))
      (\<lambda>p. wrap_st ''send connect runspace pool'' (sendConnectRunspacePool ctx p)) = (p2, x)"
    by fastforce
  then have "phase p2 = phase ?p1"
    by (elim same_phase.then_do_R same_phase.wrap_st_R) (auto intro: same_phase.sends_R same_phase.wrap_st_R)
  moreover have "q = p2"
    using assms False s by (simp add: Connect_def Let_def StartDispatchLoop_def split: outcome.splits)
  ultimately show ?thesis by (simp add: phase_def StartDispatchLoop_def)
qed

lemma Connect_life:
  assumes "Connect ctx p = (q, r)"
  shows "phase q \<in> next_phases OnConnect (phase p)"
proof (cases "poolState p = PoolBeforeOpen")
  case True
  with Connect_phase [OF assms True] same_done.Connect_R [OF assms] show ?thesis
    by (auto simp: phase_def)
qed (use assms in \<open>simp add: Connect_def phase_def\<close>)

lemma Disconnect_life: "Disconnect p = (q, r) \<Longrightarrow> phase q \<in> next_phases OnDisconnect (phase p)"
  by (auto simp: Disconnect_def Let_def ok_def phase_def split: if_splits option.splits prod.splits)

lemma Close_life:
  assumes "Close ctx p = (q, r)"
  shows "phase q \<in> next_phases OnClose (phase p)"
proof (cases "poolState p = PoolOpened")
  case True
  with assms have "phase q = phase (setState PoolClosing p)"
    by (auto simp: Close_def Let_def split: prod.splits outcome.splits dest: same_phase.send_R)
  with True show ?thesis by (simp add: phase_def)
qed (use assms in \<open>auto simp: Close_def Let_def phase_def split: if_splits\<close>)

lemma phase_close_cancels [simp]: "phase (close_cancels p) = phase p"
  by (simp add: phase_def close_cancels_def)

lemma Close_finish_life:
  assumes "pool_ok p" and "Close_finish ev p = (q, r)"
  shows "phase q \<in> next_phases OnCloseEnds (phase p)"
proof -
  have c: "\<exists>u. cleanup PoolClosed e p = ok u \<and> phase u \<in> next_phases OnCloseEnds (phase p)" for e
    using cleanup_eq [OF assms(1), of PoolClosed e] cleanup_phase [OF assms(1), of PoolClosed e]
    by (auto simp: ok_def phase_def)
  show ?thesis
  proof (cases ev)
    case CloseTimeout
    with c [of None] assms(2) show ?thesis by (auto simp: ok_def)
  next
    case (CloseCancelled e)
    with c [of "Some (EIs e)"] assms(2) show ?thesis by (auto simp: ok_def)
  qed (use assms(2) in \<open>auto simp: ok_def phase_def close_cancels_def\<close>)
qed

lemma creation_phase:
  "CreatePipeline i cmd p = (q, u) \<Longrightarrow> phase q = phase p" "CreatePipelineBuilder i p = (q, u) \<Longrightarrow> phase q = phase p"
  "AdoptPipeline pl p = (q, v) \<Longrightarrow> phase q = phase p" "metadata_wait E ev p = Some (q, w) \<Longrightarrow> phase q = phase p"
  "watch_pipeline i p = Some (q, pl1) \<Longrightarrow> phase q = phase p"
  subgoal by (auto simp: CreatePipeline_def register_pipeline_def register_def Let_def phase_def
        split: if_splits option.splits prod.splits outcome.splits)
  subgoal by (auto simp: CreatePipelineBuilder_def register_pipeline_def register_def Let_def phase_def
        split: if_splits option.splits prod.splits outcome.splits)
  subgoal by (auto simp: AdoptPipeline_def ok_def phase_def split: if_splits)
  subgoal by (cases ev) (auto simp: phase_def split: option.splits if_splits)
  subgoal by (auto simp: watch_pipeline_def Let_def phase_def split: option.splits if_splits)
  done

lemmas unmoved = creation_phase same_phase.setters_R same_phase.requests_R same_phase.send_R

lemma exec_life:
  assumes "pool_ok p" and "exec E h op p = Some (q, True)"
  shows "phase q \<in> next_phases (event_of op) (phase p)"
proof (cases op)
  case (POpen ctx)
  with assms(2) show ?thesis
    by (cases "Open E h ctx p") (auto simp: done_with_Some intro: Open_life)
next
  case (PMetadataEnds ev)
  with assms(2) show ?thesis
    by (cases "metadata_wait E ev p") (auto simp: done_with_Some intro: phase_other unmoved)
next
  case PResumeOpened
  with assms(2) show ?thesis by (auto simp: ResumeOpened_def Let_def phase_def)
next
  case (PTransportError e)
  with assms show ?thesis
    by (auto simp: done_with_Some handleTransportError_def phase_def dest!: cleanup_phase [unfolded phase_def])
next
  case (PSetMessageID i)
  with assms(2) show ?thesis by (auto simp: SetMessageID_def phase_def)
next
  case (PSetTransport t)
  with assms(2) show ?thesis by (auto simp: SetTransport_def phase_def)
next
  case (PSetCallback cb)
  with assms(2) show ?thesis by (auto simp: SetSecurityEventCallback_def phase_def)
next
  case PStartLoop
  with assms(2) show ?thesis by (auto simp: StartDispatchLoop_def phase_def)
qed (use assms(2) in \<open>auto simp: done_with_Some SendMessage_def split: prod.splits connecting.splits closing.splits
    intro: phase_other unmoved Connect_life Disconnect_life Close_life Close_finish_life [OF assms(1)]\<close>)

section \<open>The steps\<close>

lemma after_delivery_phase: "after_delivery i d p = (q, r) \<Longrightarrow> phase q = phase p"
  by (cases "(i, d, p)" rule: after_delivery.cases) (auto split: prod.splits outcome.splits)

lemma on_host_call_phase: "on_host_call m p = (q, r) \<Longrightarrow> phase q = phase p"
  by (auto simp: on_host_call_def phase_def split: outcome.splits option.splits)

lemma exiting_life:
  assumes "exiting (cleanup st err p) = (q, r)" and "pool_ok p" and "st = PoolClosed \<or> st = PoolBroken"
  shows "phase q \<in> next_phases OnInner (phase p)"
proof -
  obtain u where "cleanup st err p = ok u" using cleanup_eq [OF assms(2)] by blast
  with assms(1) cleanup_life [OF assms(2) _ assms(3)] show ?thesis by (auto simp: exiting_def ok_def)
qed

lemma on_pool_state_life:
  assumes "on_pool_state E d p = (q, r)" and "pool_ok p"
  shows "phase q \<in> next_phases OnInner (phase p)"
  using assms(1) exiting_life [OF _ assms(2)]
  by (auto simp: on_pool_state_def Let_def split: outcome.splits if_splits
      intro: phase_same to_opened)

lemma report_phase:
  "on_capability E d p = (q, r) \<Longrightarrow> phase q = phase p" "on_availability E d p = (q, r) \<Longrightarrow> phase q = phase p"
  by (auto simp: on_capability_def on_availability_def phase_def split: outcome.splits)

lemma dispatch_message_life:
  assumes "dispatch_message E m p = (q, r)" and "pool_ok p"
  shows "phase q \<in> next_phases OnInner (phase p)"
  using assms
  by (auto simp: dispatch_message_def route_to_pipeline_def split: if_splits option.splits
      intro: on_pool_state_life phase_same report_phase after_delivery_phase on_host_call_phase)

lemma dispatch_error_life:
  assumes "dispatch_error e p = (q, r)" and "pool_ok p"
  shows "phase q \<in> next_phases OnInner (phase p)"
  using assms(1) exiting_life [OF _ assms(2)]
  by (auto simp: dispatch_error_def handleTransportError_def split: if_splits)

lemma iteration_life:
  assumes "receive_and_dispatch E p = Some (q, Ret d)" and "pool_ok p"
  shows "phase q \<in> next_phases OnInner (phase p)"
proof -
  from assms(1) obtain p1 x where r: "receiveMessage (poolCtx p) p = Some (p1, x)"
    by (auto simp: receive_and_dispatch_def split: option.splits)
  have f: "frame p p1" using receiveMessage_frame [OF r] by simp
  from keeps_frame [OF f] assms(2) have p1: "pool_ok p1" by (simp add: keeps_ok_def)
  have "phase q \<in> next_phases OnInner (phase p1)"
    using assms(1) r dispatch_message_life [OF _ p1] dispatch_error_life [OF _ p1]
    by (cases x) (auto simp: receive_and_dispatch_def)
  with same_phase.R_frame [OF f] show ?thesis by simp
qed

lemma pool_call_life:
  assumes "pool_call_goroutine E h m p = (q, Ret ())" and "pool_ok p"
  shows "phase q \<in> next_phases OnInner (phase p)"
proof -
  obtain p1 x where c: "pool_handleHostCall E h (poolCtx p) m p = (p1, x)" by fastforce
  have f: "frame p p1" by (rule pool_handleHostCall_frame [OF c])
  from keeps_frame [OF f] assms(2) have p1: "pool_ok p1" by (simp add: keeps_ok_def)
  have l: "phase (release_limiter u) = phase u" for u :: "'a pool"
    by (auto simp: release_limiter_def phase_def split: option.splits)
  have "phase q \<in> next_phases OnInner (phase p1)"
  proof (cases x)
    case (Fail e)
    obtain u where u: "handleTransportError (EWrap ''host call failed'' e) p1 = ok u"
      using cleanup_eq [OF p1] by (metis handleTransportError_def)
    then have "phase u \<in> next_phases OnInner (phase p1)"
      using cleanup_life [OF p1] by (auto simp: handleTransportError_def ok_def)
    with assms(1) c Fail u l show ?thesis by (auto simp: pool_call_goroutine_def ok_def)
  qed (use assms(1) c l in \<open>auto simp: pool_call_goroutine_def ok_def intro: phase_same\<close>)
  with same_phase.R_frame [OF f] show ?thesis by simp
qed

lemma step_life:
  assumes "step E h y z" and "sys_ok y"
  shows "(\<exists>op q. op_fits op \<and> exec E h op (thePool y) = Some (q, True) \<and> z = y\<lparr>thePool := q\<rparr>) \<or>
    phase (thePool z) \<in> next_phases OnInner (phase (thePool y))"
proof -
  have ok: "pool_ok (thePool y)" using assms(2) by (simp add: sys_ok_def)
  have pr: "thePool (proceed d u) = thePool u" for d and u :: "'a psys" by (cases d) auto
  from assms(1) ok show ?thesis
  proof cases
    case (operation op q)
    then show ?thesis by blast
  next
    case (iteration q d)
    with ok show ?thesis by (auto simp: pr intro: iteration_life)
  next
    case (delivery i s m pl w q d)
    then show ?thesis by (auto simp: pr resume_delivery_def intro: phase_same after_delivery_phase)
  next
    case (place m q d)
    then show ?thesis by (auto simp: pr intro: phase_same on_host_call_phase)
  next
    case (pool_answered m q)
    with ok show ?thesis by (auto intro: pool_call_life)
  next
    case (pipeline_answered i m pl pl1 q)
    then show ?thesis
      by (auto intro!: phase_same dest!: pool_client.goroutine_confined same_phase.R_frame)
  next
    case (pipeline_operation i pl c pl1 q r)
    then show ?thesis
      by (auto intro!: phase_same dest!: pool_client.client_confined same_phase.R_frame)
  next
    case (record_taken i pl s m c)
    then show ?thesis by (auto intro!: phase_same)
  next
    case (pipeline_removed i q pl)
    then show ?thesis by (auto intro: phase_same unmoved)
  qed (auto simp: phase_def intro!: phase_same [unfolded phase_def])
qed

lemma step_lifecycle:
  assumes "step E h y z" and "sys_ok y"
  shows "lifecycle (phase (thePool y)) (phase (thePool z))"
  using step_life [OF assms] exec_life assms(2) by (fastforce simp: lifecycle_def sys_ok_def)

lemma run_steps: "run E h x y \<Longrightarrow> (step E h)\<^sup>*\<^sup>* x y"
  by (induction rule: run.induct) (auto intro: rtranclp.rtrancl_into_rtrancl)

interpretation pool_life: refinement_map "step E h" lifecycle "\<lambda>y. phase (thePool y)" sys_ok for E h
  by unfold_locales (auto dest: step_ok step_lifecycle)

lemma done_stays: "(step E h)\<^sup>*\<^sup>* y z \<Longrightarrow> sys_ok y \<Longrightarrow> poolDone (thePool y) \<Longrightarrow> poolDone (thePool z)"
proof (induction rule: rtranclp_induct)
  case (step y' z)
  then show ?case using pool_life.runs_refine [OF step.hyps(1)] step_ok by blast
qed simp

text \<open>
  C6. The pool follows its life cycle. At every point of every run, an operation of the client that
  returns leads to a phase that \<open>next_phases\<close> allows after it: \<open>Open\<close> and \<open>Connect\<close> move a new pool
  only, \<open>Disconnect\<close> and \<open>Close\<close> an opened one only, the end of a close and a lost transport end a
  pool that is not done and leave the phase of one that is. Every other step leaves the phase, ends
  the pool once, or opens it by a report of the server (from any state, as \<open>ResumeOpened\<close> does). A
  pool that is done stays so; no operation leaves it opening; a closed pool is done; and one that
  was never opened, or that is still connecting, is not.
\<close>

theorem pool_lifecycle:
  assumes "run E h (start_system (NewPoolWithContext ns ctx tr w i)) y"
  shows "(\<forall>op q. exec E h op (thePool y) = Some (q, True) \<longrightarrow>
      phase q \<in> next_phases (event_of op) (phase (thePool y))) \<and>
    (\<forall>z. step E h y z \<longrightarrow>
      (\<exists>op q. op_fits op \<and> exec E h op (thePool y) = Some (q, True) \<and> z = y\<lparr>thePool := q\<rparr>) \<or>
      phase (thePool z) \<in> next_phases OnInner (phase (thePool y))) \<and>
    (\<forall>z. (step E h)\<^sup>*\<^sup>* y z \<longrightarrow> poolDone (thePool y) \<longrightarrow> poolDone (thePool z)) \<and>
    poolState (thePool y) \<noteq> PoolOpening \<and>
    (poolState (thePool y) = PoolClosed \<longrightarrow> poolDone (thePool y)) \<and>
    (poolState (thePool y) = PoolBeforeOpen \<or> poolState (thePool y) = PoolConnecting \<longrightarrow>
      \<not> poolDone (thePool y))"
proof -
  let ?x = "start_system (NewPoolWithContext ns ctx tr w i)"
  have x: "phase (thePool ?x) = (False, PoolBeforeOpen)"
    by (simp add: phase_def start_system_def NewPoolWithContext_def)
  have y: "sys_ok y" using run_ok [OF assms sys_ok_new] by simp
  then have p: "pool_ok (thePool y)" by (simp add: sys_ok_def)
  have "phase_ok (phase (thePool y))"
    by (rule pool_life.abstract_invariant [OF run_steps [OF assms] sys_ok_new])
      (simp add: x phase_ok_def, rule lifecycle_ok)
  then have "poolState (thePool y) \<noteq> PoolOpening" "poolState (thePool y) = PoolClosed \<longrightarrow> poolDone (thePool y)"
    "poolState (thePool y) = PoolBeforeOpen \<or> poolState (thePool y) = PoolConnecting \<longrightarrow> \<not> poolDone (thePool y)"
    by (simp_all add: phase_ok_def phase_def)
  with exec_life [OF p] step_life [OF _ y] done_stays [OF _ y] show ?thesis
    by (intro conjI allI impI) (assumption | rule mp, assumption+)+
qed

text \<open>
  A pool that is resumed: it can be disconnected, and not be opened again.
\<close>

theorem pool_lifecycle_witness:
  "\<exists>y. run no_env fmempty (start_system (demo_pool [])) y \<and> poolState (thePool y) = PoolOpened \<and>
     (\<forall>q. exec no_env fmempty (POpen None) (thePool y) = Some (q, True) \<longrightarrow> phase q = (False, PoolOpened)) \<and>
     (\<exists>q. exec no_env fmempty PDisconnect (thePool y) = Some (q, True) \<and> phase q = (False, PoolDisconnected))"
proof -
  let ?x = "start_system (demo_pool [])"
  let ?p = "ResumeOpened no_env (demo_pool [])"
  have p: "phase ?p = (False, PoolOpened)" "poolState ?p = PoolOpened" "poolTransport ?p = pipe_transport"
    by (simp_all add: phase_def ResumeOpened_def Let_def emitSecurityEventLocked_def demo_pool_new
        NewPoolWithContext_def)
  have "step no_env fmempty ?x (?x\<lparr>thePool := ?p\<rparr>)"
    using step.operation [of PResumeOpened no_env fmempty ?x] by (simp add: start_system_def)
  from run.further [OF run.here this] have r: "run no_env fmempty ?x (?x\<lparr>thePool := ?p\<rparr>)" .
  have "poolTransport (setState PoolDisconnected ?p) = pipe_transport"
    using p(3) by (auto simp: setState_def Let_def split: outcome.splits option.splits)
  with p(2) have d: "exec no_env fmempty PDisconnect ?p = Some (setState PoolDisconnected ?p, True)"
    by (simp add: Disconnect_def done_with_def ok_def Let_def pipe_transport_def)
  note l = pool_lifecycle [OF r [unfolded demo_pool_new], folded demo_pool_new, THEN conjunct1, rule_format]
  from l [of PDisconnect] d p(1)
  have "\<exists>q. exec no_env fmempty PDisconnect ?p = Some (q, True) \<and> phase q = (False, PoolDisconnected)" by auto
  with l [of "POpen None"] p(1,2) r show ?thesis
    by (intro exI [of _ "?x\<lparr>thePool := ?p\<rparr>"]) auto
qed

end
