(* ===== verification/Fragment_Buffers.thy ===== *)
theory Fragment_Buffers
  imports Fragments_Correct
begin

text \<open>
  The recycling of fragment buffers (\<open>fragmentDataPool\<close>, \<open>Decode\<close> and \<open>Release\<close> of
  \<open>fragments/fragments.go\<close>). The byte arrays live in a store and a fragment holds a reference to one;
  the assembler keeps the references it is given. \<open>Decode\<close> writes into an array that may have served
  before, so what the other theories say of fragments as values has to be shown of references: it holds
  as long as no fragment is released whose data the assembler still holds.
\<close>

section \<open>Arrays, slices and the pool\<close>

text \<open>
  A slice is the address of its array and its length; all slices here start at the start of their
  array, whose length is their capacity. What \<open>sync.Pool\<close> returns is a choice: one of the slices in it,
  by position, or a new one.
\<close>

type_synonym addr = nat
type_synonym go_slice = "addr \<times> nat"

record buffers =
  arrays :: "addr \<Rightarrow> bytes"
  bufPool :: "addr list"
  bufNext :: addr

definition read_slice :: "buffers \<Rightarrow> go_slice option \<Rightarrow> bytes" where
  "read_slice st d = (case d of None \<Rightarrow> [] | Some (a, n) \<Rightarrow> take n (arrays st a))"

definition alloc :: "nat \<Rightarrow> buffers \<Rightarrow> buffers \<times> addr" where
  "alloc n st =
     (st\<lparr>arrays := (arrays st)(bufNext st := replicate n 0), bufNext := bufNext st + 1\<rparr>, bufNext st)"

definition pool_get :: "nat option \<Rightarrow> buffers \<Rightarrow> buffers \<times> addr" where
  "pool_get choice st =
     (case choice of
        None \<Rightarrow> alloc 4096 st
      | Some k \<Rightarrow>
          if k < length (bufPool st) then
            (st\<lparr>bufPool := take k (bufPool st) @ drop (Suc k) (bufPool st)\<rparr>, bufPool st ! k)
          else alloc 4096 st)"

section \<open>Decode and Release\<close>

record fragment_ref =
  rObjectID :: uint64
  rFragmentID :: uint64
  rStart :: bool
  rEnd :: bool
  rData :: "go_slice option"

text \<open>\<open>copy\<close> writes as many bytes as both slices have.\<close>

definition copy_bytes :: "bytes \<Rightarrow> nat \<Rightarrow> bytes \<Rightarrow> bytes" where
  "copy_bytes dst n src = (let m = min n (length src) in take m src @ drop m dst)"

text \<open>The array that \<open>Decode\<close> writes: one from the pool, unless it is too small.\<close>

definition buffer_for :: "nat option \<Rightarrow> nat \<Rightarrow> buffers \<Rightarrow> buffers \<times> addr" where
  "buffer_for choice n st =
     (case pool_get choice st of (st1, a) \<Rightarrow> if length (arrays st1 a) < n then alloc n st1 else (st1, a))"

definition Decode_pooled :: "nat option \<Rightarrow> bytes \<Rightarrow> buffers \<Rightarrow> buffers \<times> fragment_ref outcome" where
  "Decode_pooled choice data st =
     (if length data < Frag_HeaderSize then (st, Fail (EIs ErrInvalidFragment))
      else let flags = data ! 16;
               blobLen = BigEndian_Uint32 (slice data 17 21);
               hi = unat (21 + blobLen) in
        if length data < Frag_HeaderSize + unat blobLen then (st, Fail (EIs ErrInvalidFragment))
        else case buffer_for choice (unat blobLen) st of (st1, b) \<Rightarrow>
              if hi < 21 then (st1, Panic PanicSliceBounds)
              else (st1\<lparr>arrays := (arrays st1)(b := copy_bytes (arrays st1 b) (unat blobLen) (slice data 21 hi))\<rparr>,
                    Ret \<lparr>rObjectID = BigEndian_Uint64 (slice data 0 8),
                         rFragmentID = BigEndian_Uint64 (slice data 8 16),
                         rStart = (and flags FlagStart \<noteq> 0),
                         rEnd = (and flags FlagEnd \<noteq> 0),
                         rData = Some (b, unat blobLen)\<rparr>))"

definition Fragment_Release :: "fragment_ref \<Rightarrow> buffers \<Rightarrow> buffers \<times> fragment_ref" where
  "Fragment_Release f st =
     (case rData f of
        None \<Rightarrow> (st, f)
      | Some (a, n) \<Rightarrow> (st\<lparr>bufPool := a # bufPool st\<rparr>, f\<lparr>rData := None\<rparr>))"

section \<open>The assembler on references\<close>

record pending_ref =
  rFragments :: "(uint64, go_slice option) fmap"
  rTotal :: int
  rReceived :: int

record assembler_ref =
  rPending :: "(uint64, pending_ref) fmap"
  rMaxPending :: int
  rMaxFragments :: int

definition new_pending_ref :: pending_ref where
  "new_pending_ref = \<lparr>rFragments = fmempty, rTotal = -1, rReceived = 0\<rparr>"

definition reassemble_ref :: "buffers \<Rightarrow> pending_ref \<Rightarrow> bytes" where
  "reassemble_ref st pm =
     concat (map (\<lambda>i. case fmlookup (rFragments pm) (of_nat i) of None \<Rightarrow> [] | Some d \<Rightarrow> read_slice st d)
       [0..<nat (rTotal pm)])"

definition Add_pm_ref ::
  "buffers \<Rightarrow> assembler_ref \<Rightarrow> pending_ref \<Rightarrow> fragment_ref \<Rightarrow> assembler_ref \<times> bytes option outcome" where
  "Add_pm_ref st a pm f =
     (let oid = rObjectID f; fid = rFragmentID f in
      if rMaxFragments a \<le> rReceived pm then
        (a\<lparr>rPending := fmdrop oid (rPending a)\<rparr>, Fail (EMsg ''too many fragments for message''))
      else if fmlookup (rFragments pm) fid \<noteq> None then
        (a\<lparr>rPending := fmupd oid pm (rPending a)\<rparr>, Fail (EIs ErrDuplicateFragment))
      else
        let pm1 = pm\<lparr>rFragments := fmupd fid (rData f) (rFragments pm), rReceived := rReceived pm + 1\<rparr> in
        if rEnd f \<and> MaxInt - 1 < int (unat fid) then
          (a\<lparr>rPending := fmupd oid pm1 (rPending a)\<rparr>, Fail (EMsg ''fragment ID too large''))
        else
          let pm2 = (if rEnd f then pm1\<lparr>rTotal := int (unat fid) + 1\<rparr> else pm1) in
          if 0 < rTotal pm2 \<and> rReceived pm2 = rTotal pm2 then
            (a\<lparr>rPending := fmdrop oid (rPending a)\<rparr>, Ret (Some (reassemble_ref st pm2)))
          else (a\<lparr>rPending := fmupd oid pm2 (rPending a)\<rparr>, Ret None))"

definition Add_ref :: "buffers \<Rightarrow> assembler_ref \<Rightarrow> fragment_ref \<Rightarrow> assembler_ref \<times> bytes option outcome" where
  "Add_ref st a f =
     (case fmlookup (rPending a) (rObjectID f) of
        Some pm \<Rightarrow> Add_pm_ref st a pm f
      | None \<Rightarrow>
          if rMaxPending a \<le> int (fmsize (rPending a)) then (a, Fail (EMsg ''too many pending messages''))
          else Add_pm_ref st (a\<lparr>rPending := fmupd (rObjectID f) new_pending_ref (rPending a)\<rparr>)
                 new_pending_ref f)"

section \<open>The values behind references\<close>

definition fragment_value :: "buffers \<Rightarrow> fragment_ref \<Rightarrow> fragment" where
  "fragment_value st f =
     \<lparr>ObjectID = rObjectID f, FragmentID = rFragmentID f, Start = rStart f, End = rEnd f,
      FragData = read_slice st (rData f)\<rparr>"

definition pending_value :: "buffers \<Rightarrow> pending_ref \<Rightarrow> pendingMessage" where
  "pending_value st pm =
     \<lparr>fragments = fmmap (read_slice st) (rFragments pm), total = rTotal pm, received = rReceived pm\<rparr>"

definition assembler_value :: "buffers \<Rightarrow> assembler_ref \<Rightarrow> assembler" where
  "assembler_value st a =
     \<lparr>pending = fmmap (pending_value st) (rPending a), maxPendingMessages = rMaxPending a,
      maxFragmentsPerMsg = rMaxFragments a\<rparr>"

lemma pending_value_simps [simp]:
  "fragments (pending_value st pm) = fmmap (read_slice st) (rFragments pm)"
  "total (pending_value st pm) = rTotal pm" "received (pending_value st pm) = rReceived pm"
  by (simp_all add: pending_value_def)

lemma assembler_value_simps [simp]:
  "pending (assembler_value st a) = fmmap (pending_value st) (rPending a)"
  "maxPendingMessages (assembler_value st a) = rMaxPending a"
  "maxFragmentsPerMsg (assembler_value st a) = rMaxFragments a"
  by (simp_all add: assembler_value_def)

lemma fragment_value_simps [simp]:
  "ObjectID (fragment_value st f) = rObjectID f" "FragmentID (fragment_value st f) = rFragmentID f"
  "End (fragment_value st f) = rEnd f" "FragData (fragment_value st f) = read_slice st (rData f)"
  by (simp_all add: fragment_value_def)

declare fmmap_fmupd [simp]

lemma new_pending_value [simp]: "pending_value st new_pending_ref = new_pendingMessage"
  by (simp add: pending_value_def new_pending_ref_def new_pendingMessage_def)

lemma pending_value_upd [simp]:
  "pending_value st (pm\<lparr>rFragments := fmupd i d (rFragments pm), rReceived := n\<rparr>) =
     (pending_value st pm)\<lparr>fragments := fmupd i (read_slice st d) (fmmap (read_slice st) (rFragments pm)), received := n\<rparr>"
  "pending_value st (pm\<lparr>rTotal := t\<rparr>) = (pending_value st pm)\<lparr>total := t\<rparr>"
  by (simp_all add: pending_value_def)

lemma assembler_value_upd [simp]:
  "assembler_value st (a\<lparr>rPending := ps\<rparr>) = (assembler_value st a)\<lparr>pending := fmmap (pending_value st) ps\<rparr>"
  by (simp add: assembler_value_def)

lemma reassemble_value: "reassemble (pending_value st pm) = reassemble_ref st pm"
  unfolding reassemble_def reassemble_ref_def fragment_at_def
  by (intro arg_cong [where f = concat] map_cong refl) (auto split: option.splits)

lemma Add_pm_value:
  "Add_pm_ref st a pm f = (a1, r) \<Longrightarrow>
    Assembler_Add_pm (assembler_value st a) (pending_value st pm) (fragment_value st f) = (assembler_value st a1, r)"
  by (auto simp: Add_pm_ref_def Assembler_Add_pm_def Let_def reassemble_value [symmetric] split: if_splits)

lemma Add_value:
  assumes "Add_ref st a f = (a1, r)"
  shows "Assembler_Add (assembler_value st a) (fragment_value st f) = (assembler_value st a1, r)"
  using assms Add_pm_value [of st _ "new_pending_ref" f a1 r]
  by (auto simp: Add_ref_def Assembler_Add_def fmsize_def split: option.splits if_splits
      dest: Add_pm_value)

section \<open>Ownership\<close>

text \<open>
  The addresses that the assembler holds. A set of addresses is owned if its arrays are not in the
  pool, where no array is twice.
\<close>

definition held_pm :: "pending_ref \<Rightarrow> addr set" where
  "held_pm pm = {a. \<exists>i n. fmlookup (rFragments pm) i = Some (Some (a, n))}"

definition held :: "assembler_ref \<Rightarrow> addr set" where
  "held as = {a. \<exists>oid pm. fmlookup (rPending as) oid = Some pm \<and> a \<in> held_pm pm}"

definition owns :: "buffers \<Rightarrow> addr set \<Rightarrow> bool" where
  "owns st L \<longleftrightarrow>
     distinct (bufPool st) \<and> L \<inter> set (bufPool st) = {} \<and> (\<forall>a \<in> L \<union> set (bufPool st). a < bufNext st)"

lemma owns_mono: "owns st L \<Longrightarrow> L' \<subseteq> L \<Longrightarrow> owns st L'"
  by (auto simp: owns_def)

lemma alloc_owns:
  assumes "alloc n st = (st1, a)" and "owns st L"
  shows "owns st1 (insert a L) \<and> a \<notin> L \<and> (\<forall>l\<in>L. arrays st1 l = arrays st l) \<and> length (arrays st1 a) = n"
proof -
  have a: "a = bufNext st" and st1: "st1 = st\<lparr>arrays := (arrays st)(a := replicate n 0), bufNext := bufNext st + 1\<rparr>"
    using assms(1) by (auto simp: alloc_def)
  have fresh: "a \<notin> L" "a \<notin> set (bufPool st)" using assms(2) by (auto simp: owns_def a)
  with assms(2) show ?thesis unfolding owns_def st1 by (auto simp: a less_Suc_eq)
qed

lemma pool_get_owns:
  assumes "pool_get choice st = (st1, a)" and "owns st L"
  shows "owns st1 (insert a L) \<and> a \<notin> L \<and> (\<forall>l\<in>L. arrays st1 l = arrays st l)"
proof -
  show ?thesis
  proof (cases "\<exists>k. choice = Some k \<and> k < length (bufPool st)")
    case True
    then obtain k where k: "choice = Some k" "k < length (bufPool st)" by blast
    let ?xs = "take k (bufPool st)" and ?ys = "drop (Suc k) (bufPool st)"
    have p: "bufPool st = ?xs @ bufPool st ! k # ?ys" using k(2) by (rule id_take_nth_drop)
    from assms(1) k have st1: "st1 = st\<lparr>bufPool := ?xs @ ?ys\<rparr>" and a: "a = bufPool st ! k"
      by (auto simp: pool_get_def)
    have d: "distinct (?xs @ a # ?ys)" and l: "L \<inter> set (?xs @ a # ?ys) = {}"
      and n: "\<forall>x \<in> L \<union> set (?xs @ a # ?ys). x < bufNext st"
      using assms(2) p a unfolding owns_def by metis+
    then show ?thesis unfolding st1 owns_def by auto
  next
    case False
    with assms(1) have "alloc 4096 st = (st1, a)" by (auto simp: pool_get_def split: option.splits if_splits)
    from alloc_owns [OF this assms(2)] show ?thesis by blast
  qed
qed

lemma buffer_for_owns:
  assumes "buffer_for choice n st = (st1, b)" and "owns st L"
  shows "owns st1 (insert b L) \<and> b \<notin> L \<and> (\<forall>l\<in>L. arrays st1 l = arrays st l) \<and> n \<le> length (arrays st1 b)"
proof -
  obtain st2 a where g: "pool_get choice st = (st2, a)" by fastforce
  note o = pool_get_owns [OF this assms(2)]
  show ?thesis
  proof (cases "length (arrays st2 a) < n")
    case True
    with assms(1) g have "alloc n st2 = (st1, b)" by (simp add: buffer_for_def)
    note new = alloc_owns [OF this, of "insert a L"]
    with o have "owns st1 (insert b (insert a L))" "b \<notin> L" "n \<le> length (arrays st1 b)"
      "\<forall>l\<in>L. arrays st1 l = arrays st l" by auto
    then show ?thesis by (blast intro: owns_mono)
  next
    case False
    with assms(1) g o show ?thesis by (auto simp: buffer_for_def)
  qed
qed

lemma copy_bytes_all: "length src = n \<Longrightarrow> n \<le> length dst \<Longrightarrow> take n (copy_bytes dst n src) = src"
  by (simp add: copy_bytes_def Let_def)

lemma length_copy_bytes [simp]: "n \<le> length dst \<Longrightarrow> length (copy_bytes dst n src) = length dst"
  by (simp add: copy_bytes_def Let_def)

lemma unat_21_plus:
  fixes x :: uint32
  assumes "\<not> unat (21 + x) < 21"
  shows "unat (21 + x) = 21 + unat x"
proof -
  have e: "unat (21 + x) = (21 + unat x) mod 4294967296" using unat_blobLen_plus [of "unat x"] by simp
  have l: "unat x < 4294967296" using unat_lt_2p [of x] by simp
  show ?thesis
  proof (cases "21 + unat x < 4294967296")
    case False
    then have "(21 + unat x) mod 4294967296 = 21 + unat x - 4294967296"
      using l by (simp add: mod_if)
    with e assms l show ?thesis by linarith
  qed (simp add: e)
qed

lemma Decode_value:
  assumes "Decode_pooled choice data st = (st1, r)" and "owns st L"
  shows "Fragment_Decode data = (case r of Ret f \<Rightarrow> Ret (fragment_value st1 f) | Fail e \<Rightarrow> Fail e | Panic x \<Rightarrow> Panic x) \<and>
    (\<forall>l\<in>L. arrays st1 l = arrays st l) \<and> owns st1 L \<and>
    (\<forall>f. r = Ret f \<longrightarrow> (\<exists>b n. rData f = Some (b, n) \<and> b \<notin> L \<and> owns st1 (insert b L)))"
proof -
  let ?n = "unat (BigEndian_Uint32 (slice data 17 21))"
  let ?hi = "unat (21 + BigEndian_Uint32 (slice data 17 21))"
  show ?thesis
  proof (cases "length data < Frag_HeaderSize + ?n")
    case True
    with assms show ?thesis
      by (auto simp: Decode_pooled_def Fragment_Decode_def Let_def split: if_splits)
  next
    case False
    then have len: "\<not> length data < Frag_HeaderSize" "Frag_HeaderSize + ?n \<le> length data" by auto
    obtain st2 b where b: "buffer_for choice ?n st = (st2, b)" by fastforce
    note o = buffer_for_owns [OF this assms(2)]
    then have o2: "owns st2 L" by (blast intro: owns_mono)
    show ?thesis
    proof (cases "?hi < 21")
      case True
      with assms(1) False len b o o2 show ?thesis
        by (auto simp: Decode_pooled_def Fragment_Decode_def Let_def)
    next
      case wide: False
      let ?src = "slice data 21 ?hi"
      let ?st = "st2\<lparr>arrays := (arrays st2)(b := copy_bytes (arrays st2 b) ?n ?src)\<rparr>"
      have "?hi = 21 + ?n" using wide by (rule unat_21_plus)
      then have "length ?src = ?n" using len(2) by (simp add: Frag_HeaderSize_def)
      then have c: "take ?n (copy_bytes (arrays st2 b) ?n ?src) = ?src" using o by (intro copy_bytes_all) auto
      have w: "owns ?st (insert b L)" "owns ?st L" using o o2 by (simp_all add: owns_def)
      have r: "st1 = ?st" "r = Ret \<lparr>rObjectID = BigEndian_Uint64 (slice data 0 8),
          rFragmentID = BigEndian_Uint64 (slice data 8 16), rStart = (and (data ! 16) FlagStart \<noteq> 0),
          rEnd = (and (data ! 16) FlagEnd \<noteq> 0), rData = Some (b, ?n)\<rparr>"
        using assms(1) False len(1) b wide by (simp_all add: Decode_pooled_def Let_def)
      have "Fragment_Decode data = Ret (fragment_value ?st \<lparr>rObjectID = BigEndian_Uint64 (slice data 0 8),
          rFragmentID = BigEndian_Uint64 (slice data 8 16), rStart = (and (data ! 16) FlagStart \<noteq> 0),
          rEnd = (and (data ! 16) FlagEnd \<noteq> 0), rData = Some (b, ?n)\<rparr>)"
        using False len(1) wide by (simp add: Fragment_Decode_def Let_def fragment_value_def read_slice_def c)
      with r w o show ?thesis by auto
    qed
  qed
qed

lemma held_upd: "x \<in> held (a\<lparr>rPending := fmupd oid pm (rPending a)\<rparr>) \<Longrightarrow> x \<in> held a \<or> x \<in> held_pm pm"
  by (auto simp: held_def split: if_splits)

lemma held_drop: "x \<in> held (a\<lparr>rPending := fmdrop oid (rPending a)\<rparr>) \<Longrightarrow> x \<in> held a"
  by (auto simp: held_def split: if_splits)

lemma held_pm_add:
  "x \<in> held_pm (pm\<lparr>rFragments := fmupd i d (rFragments pm), rReceived := n\<rparr>) \<Longrightarrow>
    x \<in> held_pm pm \<or> x \<in> fst ` set_option d"
  by (force simp: held_pm_def split: if_splits)

lemma held_pm_total [simp]: "held_pm (pm\<lparr>rTotal := t\<rparr>) = held_pm pm"
  by (simp add: held_pm_def)

lemma held_new [simp]: "held_pm new_pending_ref = {}"
  by (simp add: held_pm_def new_pending_ref_def)

lemma Add_pm_held:
  assumes "Add_pm_ref st a pm f = (a1, r)"
  shows "held a1 \<subseteq> held a \<union> held_pm pm \<union> fst ` set_option (rData f)"
  using assms
  by (auto simp: Add_pm_ref_def Let_def split: if_splits dest!: held_upd held_drop held_pm_add)

lemma Add_held:
  assumes "Add_ref st a f = (a1, r)"
  shows "held a1 \<subseteq> held a \<union> fst ` set_option (rData f)"
proof (cases "fmlookup (rPending a) (rObjectID f)")
  case None
  then show ?thesis
    using assms
    by (auto simp: Add_ref_def split: if_splits dest!: subsetD [OF Add_pm_held] held_upd)
next
  case (Some pm)
  then have "held_pm pm \<subseteq> held a" by (auto simp: held_def)
  with Some assms Add_pm_held [of st a pm f a1 r] show ?thesis by (auto simp: Add_ref_def)
qed

text \<open>What the assembler stands for depends on the arrays it holds only.\<close>

lemma assembler_value_cong:
  assumes "\<forall>l\<in>held a. arrays st' l = arrays st l"
  shows "assembler_value st' a = assembler_value st a"
proof -
  have "pending_value st' pm = pending_value st pm" if p: "fmlookup (rPending a) oid = Some pm" for oid pm
  proof -
    have "read_slice st' d = read_slice st d" if "fmlookup (rFragments pm) i = Some d" for i d
      using assms p that by (cases d) (fastforce simp: read_slice_def held_def held_pm_def)+
    then have "fmmap (read_slice st') (rFragments pm) = fmmap (read_slice st) (rFragments pm)"
      by (intro fmap_ext) (auto simp: option.map_comp intro!: option.map_cong)
    then show ?thesis by (simp add: pending_value_def)
  qed
  then have "fmmap (pending_value st') (rPending a) = fmmap (pending_value st) (rPending a)"
    by (intro fmap_ext) (auto intro!: option.map_cong)
  then show ?thesis by (simp add: assembler_value_def)
qed

section \<open>Receiving with recycled buffers\<close>

text \<open>
  A fragment that arrives is decoded, into an array of the pool or a new one, and given to the
  assembler, or it is looked at and released.
\<close>

datatype arrival = Assembled "nat option" bytes | Discarded "nat option" bytes

fun receive_refs ::
  "arrival list \<Rightarrow> buffers \<Rightarrow> assembler_ref \<Rightarrow> (buffers \<times> assembler_ref) \<times> bytes option outcome list" where
  "receive_refs [] st a = ((st, a), [])"
| "receive_refs (Assembled choice data # us) st a =
     (case Decode_pooled choice data st of
        (st1, Ret f) \<Rightarrow>
          (case Add_ref st1 a f of (a1, r) \<Rightarrow>
             case receive_refs us st1 a1 of (z, rs) \<Rightarrow> (z, r # rs))
      | (st1, Fail e) \<Rightarrow> (case receive_refs us st1 a of (z, rs) \<Rightarrow> (z, Fail e # rs))
      | (st1, Panic x) \<Rightarrow> (case receive_refs us st1 a of (z, rs) \<Rightarrow> (z, Panic x # rs)))"
| "receive_refs (Discarded choice data # us) st a =
     (case Decode_pooled choice data st of
        (st1, Ret f) \<Rightarrow> receive_refs us (fst (Fragment_Release f st1)) a
      | (st1, r) \<Rightarrow> receive_refs us st1 a)"

text \<open>The same on fragments as values.\<close>

fun receive_values :: "arrival list \<Rightarrow> assembler \<Rightarrow> assembler \<times> bytes option outcome list" where
  "receive_values [] a = (a, [])"
| "receive_values (Assembled choice data # us) a =
     (case Fragment_Decode data of
        Ret f \<Rightarrow>
          (case Assembler_Add a f of (a1, r) \<Rightarrow> case receive_values us a1 of (b, rs) \<Rightarrow> (b, r # rs))
      | Fail e \<Rightarrow> (case receive_values us a of (b, rs) \<Rightarrow> (b, Fail e # rs))
      | Panic x \<Rightarrow> (case receive_values us a of (b, rs) \<Rightarrow> (b, Panic x # rs)))"
| "receive_values (Discarded choice data # us) a = receive_values us a"

lemma release_owns:
  assumes "owns st (insert b L)" and "b \<notin> L" and "rData f = Some (b, n)"
  shows "owns (fst (Fragment_Release f st)) L" and "arrays (fst (Fragment_Release f st)) = arrays st"
  using assms by (auto simp: Fragment_Release_def owns_def)

lemma receive_refs_value:
  assumes "receive_refs us st a = ((st', a'), rs)" and "owns st (held a)"
  shows "receive_values us (assembler_value st a) = (assembler_value st' a', rs) \<and> owns st' (held a')"
  using assms
proof (induction us arbitrary: st a rs)
  case (Cons u us)
  show ?case
  proof (cases u)
    case u: (Assembled choice data)
    obtain st1 r where d: "Decode_pooled choice data st = (st1, r)" by fastforce
    note v = Decode_value [OF d Cons.prems(2)]
    then have same: "assembler_value st1 a = assembler_value st a" by (intro assembler_value_cong) blast
    show ?thesis
    proof (cases r)
      case (Ret f)
      with v obtain b n where b: "rData f = Some (b, n)" "owns st1 (insert b (held a))" by blast
      obtain a1 x where add: "Add_ref st1 a f = (a1, x)" by fastforce
      obtain rs1 where rec: "receive_refs us st1 a1 = ((st', a'), rs1)" "rs = x # rs1"
        using Cons.prems(1) u d Ret add by (auto split: prod.splits)
      have "held a1 \<subseteq> insert b (held a)" using Add_held [OF add] b(1) by auto
      with b(2) have "owns st1 (held a1)" by (rule owns_mono)
      from Cons.IH [OF rec(1) this] Add_value [OF add] v u Ret rec(2) same show ?thesis by simp
    qed (use Cons.prems(1) Cons.IH [of st1 a] u d v same in \<open>auto split: prod.splits\<close>)
  next
    case u: (Discarded choice data)
    obtain st1 r where d: "Decode_pooled choice data st = (st1, r)" by fastforce
    note v = Decode_value [OF d Cons.prems(2)]
    show ?thesis
    proof (cases r)
      case (Ret f)
      with v obtain b n where b: "rData f = Some (b, n)" "b \<notin> held a" "owns st1 (insert b (held a))" by blast
      let ?st = "fst (Fragment_Release f st1)"
      have "receive_refs us ?st a = ((st', a'), rs)" using Cons.prems(1) u d Ret by simp
      from Cons.IH [OF this release_owns(1) [OF b(3,2,1)]]
      have "receive_values us (assembler_value ?st a) = (assembler_value st' a', rs) \<and> owns st' (held a')" .
      moreover have "assembler_value ?st a = assembler_value st a"
        using v release_owns(2) [OF b(3,2,1)] by (intro assembler_value_cong) auto
      ultimately show ?thesis using u by simp
    next
      case (Fail e)
      with v have "assembler_value st1 a = assembler_value st a" by (intro assembler_value_cong) blast
      with Cons.prems(1) Cons.IH [of st1 a rs] u d v Fail show ?thesis by simp
    next
      case (Panic e)
      with v have "assembler_value st1 a = assembler_value st a" by (intro assembler_value_cong) blast
      with Cons.prems(1) Cons.IH [of st1 a rs] u d v Panic show ?thesis by simp
    qed
  qed
qed simp

section \<open>Properties\<close>

text \<open>
  C13. The recycling of buffers is invisible to a receiver that releases only fragments it has not given to
  the assembler: whatever the pool holds and hands out, the messages and errors are those of fragments
  as values, the assembler stands for the same pending messages, and no array that it holds is in the
  pool.
\<close>

theorem recycled_buffers_invisible:
  assumes "owns st (held a)" and "receive_refs us st a = ((st', a'), rs)"
  shows "receive_values us (assembler_value st a) = (assembler_value st' a', rs) \<and> owns st' (held a')"
  using receive_refs_value [OF assms(2,1)] .

definition NewAssembler_ref :: assembler_ref where
  "NewAssembler_ref = \<lparr>rPending = fmempty, rMaxPending = 1000, rMaxFragments = 10000\<rparr>"

lemma held_NewAssembler [simp]: "held NewAssembler_ref = {}"
  by (simp add: held_def NewAssembler_ref_def)

lemma NewAssembler_value [simp]: "assembler_value st NewAssembler_ref = NewAssembler"
  by (simp add: assembler_value_def NewAssembler_ref_def NewAssembler_def NewAssemblerWithLimits_def)

text \<open>A pool with one used array, which receives the two fragments of a message after a discarded one.\<close>

definition used_pool :: buffers where
  "used_pool = \<lparr>arrays = (\<lambda>_. replicate 9 255), bufPool = [0], bufNext = 1\<rparr>"

definition piece :: "uint64 \<Rightarrow> uint64 \<Rightarrow> bool \<Rightarrow> bytes \<Rightarrow> fragment" where
  "piece oid i fin d = \<lparr>ObjectID = oid, FragmentID = i, Start = (i = 0), End = fin, FragData = d\<rparr>"

definition piece_bytes :: "fragment \<Rightarrow> bytes" where
  "piece_bytes f = Fragment_header f @ FragData f"

lemma piece_simps [simp]:
  "ObjectID (piece oid i l d) = oid" "FragmentID (piece oid i l d) = i" "Start (piece oid i l d) = (i = 0)"
  "End (piece oid i l d) = l" "FragData (piece oid i l d) = d"
  by (simp_all add: piece_def)

lemma Decode_piece: "length (FragData f) < 4294967275 \<Longrightarrow> Fragment_Decode (piece_bytes f) = Ret f"
  using Fragment_Decode_header [of f "[]"] by (simp add: piece_bytes_def)

lemma Add_two_pieces:
  assumes "Assembler_Add NewAssembler (piece oid 0 False d) = (a, r)"
  shows "r = Ret None \<and> snd (Assembler_Add a (piece oid 1 True e)) = Ret (Some (d @ e))"
  using assms
  by (auto simp: Assembler_Add_def Assembler_Add_pm_def NewAssembler_def NewAssemblerWithLimits_def Let_def
      new_pendingMessage_def reassemble_def fragment_at_def upt_rec MaxInt_def)

theorem recycled_buffers_invisible_witness:
  "\<exists>z. receive_refs [Discarded (Some 0) (piece_bytes (piece 4 0 True [1, 2, 3])),
       Assembled (Some 0) (piece_bytes (piece 5 0 False [104])),
       Assembled None (piece_bytes (piece 5 1 True [105]))] used_pool NewAssembler_ref =
     (z, [Ret None, Ret (Some [104, 105])])"
proof -
  let ?us = "[Discarded (Some 0) (piece_bytes (piece 4 0 True [1, 2, 3])),
       Assembled (Some 0) (piece_bytes (piece 5 0 False [104])),
       Assembled None (piece_bytes (piece 5 1 True [105]))]"
  obtain st' a' rs where r: "receive_refs ?us used_pool NewAssembler_ref = ((st', a'), rs)"
    by (metis prod.collapse)
  have "owns used_pool (held NewAssembler_ref)" by (simp add: owns_def used_pool_def)
  from recycled_buffers_invisible [OF this r]
  have v: "receive_values ?us NewAssembler = (assembler_value st' a', rs)" by simp
  obtain a x where a: "Assembler_Add NewAssembler (piece 5 0 False [104]) = (a, x)" by fastforce
  from Add_two_pieces [OF this, of "[105]"] v a have "rs = [Ret None, Ret (Some [104, 105])]"
    by (auto simp: Decode_piece split: prod.splits)
  with r show ?thesis by blast
qed

section \<open>Released too early\<close>

lemma Decode_pooled_piece:
  assumes "length (FragData f) < 4294967275" and "buffer_for choice (length (FragData f)) st = (st1, b)"
  shows "Decode_pooled choice (piece_bytes f) st =
    (st1\<lparr>arrays := (arrays st1)(b := copy_bytes (arrays st1 b) (length (FragData f)) (FragData f))\<rparr>,
     Ret \<lparr>rObjectID = ObjectID f, rFragmentID = FragmentID f, rStart = Start f, rEnd = End f,
          rData = Some (b, length (FragData f))\<rparr>)"
proof -
  have "slice (piece_bytes f) 21 (21 + length (FragData f)) = FragData f"
    by (simp add: piece_bytes_def slice_def)
  with assms show ?thesis
    by (simp add: Decode_pooled_def piece_bytes_def header_fields Frag_HeaderSize_def unat_blobLen
        unat_blobLen_plus Fragment_flags_Start Fragment_flags_End Let_def)
qed

text \<open>
  C33. A fragment must not be released while its message is incomplete, because the assembler keeps its
  data and not a copy. If the first fragment of a message is released after it was added, and a
  fragment of another message with data of that length is decoded into its buffer, then the message is
  delivered, without an error, with that data in place of its own.
\<close>

theorem release_after_add_corrupts:
  assumes "length d = length d'" and "length d \<le> 4096" and "length e \<le> 4096"
  shows "\<exists>st1 st2 st3 st4 a1 a2 fx fx' fy fz.
    Decode_pooled None (piece_bytes (piece oid 0 False d)) used_pool = (st1, Ret fx) \<and>
    Add_ref st1 NewAssembler_ref fx = (a1, Ret None) \<and>
    Fragment_Release fx st1 = (st2, fx') \<and>
    Decode_pooled (Some 0) (piece_bytes (piece oid' i l d')) st2 = (st3, Ret fy) \<and>
    Decode_pooled None (piece_bytes (piece oid 1 True e)) st3 = (st4, Ret fz) \<and>
    Add_ref st4 a1 fz = (a2, Ret (Some (d' @ e))) \<and>
    snd (Add_all NewAssembler [piece oid 0 False d, piece oid 1 True e]) = [Ret None, Ret (Some (d @ e))]"
proof -
  let ?n = "length d" and ?m = "length e"
  let ?fx = "\<lparr>rObjectID = oid, rFragmentID = 0, rStart = True, rEnd = False, rData = Some (1, ?n)\<rparr>"
  let ?fy = "\<lparr>rObjectID = oid', rFragmentID = i, rStart = (i = 0), rEnd = l, rData = Some (1, ?n)\<rparr>"
  let ?fz = "\<lparr>rObjectID = oid, rFragmentID = 1, rStart = False, rEnd = True, rData = Some (2, ?m)\<rparr>"
  let ?z = "replicate 4096 0 :: bytes"
  let ?g = "\<lambda>_. replicate 9 255"
  let ?st1 = "\<lparr>arrays = ?g(1 := copy_bytes ?z ?n d), bufPool = [0], bufNext = 2\<rparr>"
  let ?st2 = "\<lparr>arrays = ?g(1 := copy_bytes ?z ?n d), bufPool = [1, 0], bufNext = 2\<rparr>"
  let ?st3 = "\<lparr>arrays = ?g(1 := copy_bytes (copy_bytes ?z ?n d) ?n d'), bufPool = [0], bufNext = 2\<rparr>"
  let ?st4 = "\<lparr>arrays = ?g(1 := copy_bytes (copy_bytes ?z ?n d) ?n d', 2 := copy_bytes ?z ?m e),
    bufPool = [0], bufNext = 3\<rparr>"
  have b1: "buffer_for None (length (FragData (piece oid 0 False d))) used_pool = (\<lparr>arrays = ?g(1 := ?z), bufPool = [0], bufNext = 2\<rparr>, 1)"
    and b2: "buffer_for (Some 0) (length (FragData (piece oid' i l d'))) ?st2 = (?st1, 1)"
    and b3: "buffer_for None (length (FragData (piece oid 1 True e))) ?st3 =
      (\<lparr>arrays = (arrays ?st3)(2 := ?z), bufPool = [0], bufNext = 3\<rparr>, 2)"
    using assms by (simp_all add: buffer_for_def pool_get_def alloc_def used_pool_def)
  have 1: "Decode_pooled None (piece_bytes (piece oid 0 False d)) used_pool = (?st1, Ret ?fx)"
    using assms Decode_pooled_piece [OF _ b1] by simp
  have 2: "Decode_pooled (Some 0) (piece_bytes (piece oid' i l d')) ?st2 = (?st3, Ret ?fy)"
    using assms Decode_pooled_piece [OF _ b2] by simp
  have 3: "Decode_pooled None (piece_bytes (piece oid 1 True e)) ?st3 = (?st4, Ret ?fz)"
    using assms Decode_pooled_piece [OF _ b3] by simp
  have r: "Fragment_Release ?fx ?st1 = (?st2, ?fx\<lparr>rData := None\<rparr>)"
    by (simp add: Fragment_Release_def)
  obtain a1 where a1: "Add_ref ?st1 NewAssembler_ref ?fx = (a1, Ret None)"
    "rPending a1 = fmupd oid (new_pending_ref\<lparr>rFragments := fmupd 0 (Some (1, ?n)) fmempty, rReceived := 1\<rparr>) fmempty"
    "rMaxFragments a1 = 10000"
    by (simp add: Add_ref_def Add_pm_ref_def NewAssembler_ref_def new_pending_ref_def Let_def)
  have c: "take ?n (copy_bytes (copy_bytes ?z ?n d) ?n d') = d'" "take ?m (copy_bytes ?z ?m e) = e"
    using assms by (auto intro!: copy_bytes_all)
  obtain a2 where a2: "Add_ref ?st4 a1 ?fz = (a2, Ret (Some (d' @ e)))"
    using a1(2,3) c by (simp add: Add_ref_def Add_pm_ref_def new_pending_ref_def Let_def MaxInt_def
        reassemble_ref_def read_slice_def upt_rec)
  obtain a x where "Assembler_Add NewAssembler (piece oid 0 False d) = (a, x)" by fastforce
  then have "snd (Add_all NewAssembler [piece oid 0 False d, piece oid 1 True e]) = [Ret None, Ret (Some (d @ e))]"
    using Add_two_pieces [of oid d a x e] by (auto simp: Let_def split: prod.splits)
  with 1 2 3 r a1(1) a2 show ?thesis by metis
qed

text \<open>The message "hi" arrives as "ni".\<close>

theorem release_after_add_corrupts_witness:
  "\<exists>st4 a1 a2 fz. Add_ref st4 a1 fz = (a2, Ret (Some [110, 105]))"
  using release_after_add_corrupts [of "[104]" "[110]" "[105]"] by (simp, metis)

end
