(* ===== verification/Spec2Isabelle.thy ===== *)
theory Spec2Isabelle
  imports Adapter_Correct Clixml_Types Clixml_Faults Host_Dispatch Secure_String Pool_Lifecycle Fragment_Buffers
begin

text \<open>
  A model of go-psrpcore, a client core of the PowerShell Remoting Protocol (MS-PSRP), with the
  theorems that make it correct.

  \<^bold>\<open>The program.\<close> A client opens a \<^emph>\<open>runspace pool\<close> over some transport and runs \<^emph>\<open>pipelines\<close> in it.
  What is sent is built from the bottom up: a value becomes CLIXML text (\<open>serialization/\<close>), the text
  is the data of a message (\<open>messages/\<close>), the message is cut into fragments (\<open>fragments/\<close>), and the
  fragments are written to the transport, which is any \<open>io.ReadWriter\<close>; \<open>outofproc/\<close> makes one from
  the standard input and output of a server process. What is received goes the other way and meets
  the dispatch loop of the pool (\<open>runspace/\<close>), which hands each message to the pool itself or to the
  pipeline it names (\<open>pipeline/\<close>). A pipeline sorts its messages into streams, which the client reads
  from channels, and follows the state that the server reports. The server may call back into the
  client's host (\<open>host/\<close>); the answer is sent as a message.

  \<^bold>\<open>Theories and sources.\<close>
  \<^item> \<open>Prelude\<close>: machine integers, errors, outcomes, generic lemmas. A Go function that may fail or
    panic gives an \<open>outcome\<close>; one with a state gives the state back on every path.
  \<^item> The standard library, as far as the program uses it: \<open>Go_Text\<close> (decimal integers),
    \<open>Binary_Codec\<close> (\<open>encoding/binary\<close>), \<open>Utf8\<close>, \<open>Base64\<close>, \<open>Xml\<close> (\<open>encoding/xml\<close>), \<open>Go_Chan\<close> (channels and
    contexts), \<open>Go_Io\<close> (\<open>io.Reader\<close>, \<open>io.ReadFull\<close>), \<open>Go_Lines\<close> (\<open>strings\<close>, \<open>bufio\<close>).
  \<^item> \<open>Messages\<close>: \<open>messages/messages.go\<close>, \<open>messages/signal.go\<close>.
  \<^item> \<open>Fragments\<close>, \<open>Fragments_Correct\<close>: \<open>fragments/fragments.go\<close>, the codec, the fragmenter and the
    assembler with its two limits, on fragments as values. \<open>Fragment_Buffers\<close>: the same file with byte
    arrays in a store, for the recycling of buffers by \<open>Decode\<close> and \<open>Release\<close>.
  \<^item> \<open>Values\<close>: the values an \<open>interface{}\<close> holds, the objects of \<open>objects/\<close> and their conversions to
    \<open>PSObject\<close>. \<open>Secure_String\<close>: \<open>SecureString\<close> and \<open>PSCredential\<close> of \<open>objects/objects.go\<close>.
  \<^item> \<open>Clixml_String\<close>: \<open>serialization/clixml_string.go\<close>. \<open>Clixml_Serialize\<close>, \<open>Clixml_Deserialize\<close>:
    \<open>serialization/clixml.go\<close>. \<open>Clixml_Correct\<close>, \<open>Xml_Lex\<close>, \<open>Clixml_Roundtrip\<close>, \<open>Clixml_Values\<close>,
    \<open>Clixml_Types\<close> and \<open>Clixml_Theorems\<close> prove their properties, \<open>Clixml_Faults\<close> two of their faults.
  \<^item> \<open>Host\<close>, \<open>Host_Callback\<close>, \<open>Host_Wire\<close>: \<open>host/host.go\<close>, \<open>host/callback.go\<close>,
    \<open>host/progress_conversion.go\<close>, \<open>host/serialization.go\<close>. \<open>Host_Dispatch\<close>: the calls as the server
    makes them and the operations of the host that they ask for, which the dispatch implements.
  \<^item> \<open>Pipeline\<close>, \<open>Pipeline_Correct\<close>: \<open>pipeline/pipeline.go\<close>.
  \<^item> \<open>Runspace\<close> (the pool, sending and receiving), \<open>Handshake\<close> (opening, connecting, closing and the
    requests), \<open>Dispatch\<close> (the message loop): \<open>runspace/runspace.go\<close>, \<open>runspace/security.go\<close>. \<open>Wire\<close>,
    \<open>Pool_Correct\<close>, \<open>Pool_Runs\<close>, \<open>Pool_Theorems\<close>, \<open>Pool_Lifecycle\<close> prove their properties.
  \<^item> \<open>Out_Of_Proc\<close>: \<open>outofproc/transport.go\<close>, \<open>outofproc/adapter.go\<close>. \<open>Out_Of_Proc_Correct\<close> and
    \<open>Adapter_Correct\<close> prove their properties.

  A definition has the name of the Go function it models, with the receiver's type in front or a word
  behind where the name is taken; a part of a long function has a name of its own.
\<close>

text \<open>
  \<^bold>\<open>What is proved.\<close>
  \<^item> Wire formats: headers, messages and fragments are read back as they were written; the fragmenter
    has a closed form; the assembler accepts fragments in any order and interleaving, within its
    limits; a sequence of messages sent by one pool is received by another however the bytes are
    cut; the same for the packets of the out-of-process transport, and the adapter on top of it is a
    byte stream again.
  \<^item> CLIXML: a document that is written is read back as the same value in its normal form; the
    deserializer returns on every input, refuses deep nesting and produces values of the CLIXML
    types only; the string escapes are inverted, and the fast paths agree with the loops.
  \<^item> Host calls: the forms of call and response are read back; a call reaches the operation of the host that
    it asks for, with its own arguments; it is answered, or its pipeline fails when the answer
    cannot be written.
  \<^item> Pipelines and pools: step relations (\<open>pstep\<close>, \<open>step\<close>) over the operations of the client, the messages
    of the server, the consumers and the goroutines; invariants of every run; each stream is a queue;
    what ends a pipeline and what the end of a pool does to its pipelines; the opening handshake and
    its outcomes; messages reach only the pipeline they name; an abstract life cycle says
    which states an operation of a pool may lead to.
  \<^item> Memory: recycled buffers are invisible as long as no fragment is released that the assembler
    still holds; otherwise a message can be delivered with foreign data.
  \<^item> Places where the code does not do what it means to, the most important ones with a theorem
    about all inputs of the case.

  \<^bold>\<open>Interfaces.\<close> What one component relies on in another is a locale, and each is interpreted on the
  program's own definitions: \<open>fixed_codec\<close> (integers and GUIDs), \<open>fifo\<close> (channels), \<open>byte_reader\<close> and
  \<open>lively_reader\<close> (a pipe, chunks of bytes, the adapter), \<open>confined_host\<close> and \<open>confined_transport\<close> (a host
  and the pool as the transport of its pipelines), \<open>frame_relation\<close> and \<open>pool_relation\<close> (what the
  operations of a pool keep), \<open>refinement_map\<close> (runs of a pool and its life cycle), \<open>guid_text\<close> (the texts of the \<open>uuid\<close> package).

  \<^bold>\<open>Bounds and fuel.\<close> The deserializer recurses on the tokens of the document with fuel: \<open>fuel_for\<close> is
  two more than the number of tokens, and \<open>Deserialize_run_ends\<close> shows that it suffices. Loops that
  wait for input (\<open>ReadFull\<close>, \<open>read_line\<close>, \<open>ReceivePacket\<close>, \<open>receiveMessage\<close>,
  \<open>receiveMessageWithHostCallbacks\<close>, \<open>waitForOpened\<close>) are partial functions, \<open>None\<close> for ever waiting;
  that they return is part of the theorems about them. A message of up to 10000 fragments of 307179
  bytes, the assembler's default limits and the pool's fragment size, is received. Go's \<open>int\<close> is a
  mathematical integer, wrapped where the source could overflow it; other integers are words.

  \<^bold>\<open>Parameters.\<close> The encryption provider, the random source, the AES block cipher, the formatting of
  times and floats, the uuid package's texts, and the client's host and transport are arguments of
  the definitions. What is assumed of them is a hypothesis of the theorem, with a witness.

  \<^bold>\<open>Concurrency.\<close> A critical section, or a piece of code between two waits, is one step. A wait on several
  channels is cut into what happens before it and the events that end it. \<open>Open\<close> with its handshake is one
  step as well: while it runs the pool refuses pipelines, \<open>Connect\<close>, \<open>Disconnect\<close> and \<open>Close\<close>, and what else
  could happen in between is left out. Interleavings inside a step, and so data races, are not modelled.

  \<^bold>\<open>Not modelled.\<close> The programs under \<open>cmd/\<close> (flags, processes, console output); logging; the \<open>sync.Pool\<close>s of
  serializers, deserializers, key slices and send buffers, whose objects are reset before they are used,
  with the \<open>Close\<close> that gives them back; the sleeps before writes to a server process; the
  record types of \<open>objects/\<close> that no code uses. Of XML, names outside ASCII are rejected where Go accepts
  the letters of XML 1.0. An object that is read twice through a reference is
  two equal values. Of the pool's notifications only \<open>stateCh\<close> is a channel; that the number of available
  runspaces has changed is an event of \<open>availability_wait\<close>. The entries of a map are visited in the order in which they are kept,
  where Go's order is arbitrary.
\<close>

end
